theory Spec2Isabelle
  imports Main "HOL-Library.AList"
begin

section \<open>The diagnostic sink (diagnostics.ts)\<close>

text \<open>
  A \<open>Range\<close> is a pair of zero-based line/character positions. A \<open>Diagnostic\<close>
  carries a category, a message and a range. The sink keeps the list of diagnostics in the
  order they were added and a map from a textual key to the diagnostic that was first
  added under that key.
\<close>

record Position =
  line :: nat
  character :: nat

record Range =
  rangeStart :: Position
  rangeEnd :: Position

datatype DiagnosticCategory =
  CatError | CatWarning | CatInformation | CatUnusedCode | CatUnreachableCode | CatDeprecated

record Diagnostic =
  category :: DiagnosticCategory
  message :: string
  range' :: Range

record DiagnosticSink =
  diagnosticList :: "Diagnostic list"
  diagnosticMap :: "string \<rightharpoonup> Diagnostic"

text \<open>
  Template literals print a number in decimal: no leading zero, a minus sign for a
  negative value.
\<close>

definition digitChar :: "nat \<Rightarrow> char" where
  "digitChar d = ''0123456789'' ! d"

fun showNat :: "nat \<Rightarrow> string" where
  "showNat n = (if n < 10 then [digitChar n] else showNat (n div 10) @ [digitChar (n mod 10)])"

declare showNat.simps [simp del]

definition showInt :: "int \<Rightarrow> string" where
  "showInt i = (if i < 0 then CHR ''-'' # showNat (nat (- i)) else showNat (nat i))"

text \<open>
  \<open>hashString\<close> (stringUtils) is not part of the sources at hand: it is a parameter
  \<open>hs\<close> of the model, a function from the message to a number.
\<close>

definition diagnosticKey :: "(string \<Rightarrow> int) \<Rightarrow> Diagnostic \<Rightarrow> string" where
  "diagnosticKey hs diag =
     showNat (line (rangeStart (range' diag))) @ '','' @
     showNat (character (rangeStart (range' diag))) @ ''-'' @
     showNat (line (rangeEnd (range' diag))) @ ''-'' @
     showNat (character (rangeEnd (range' diag))) @ '':'' @
     showInt (hs (message diag)) @ ''}''"

definition newDiagnosticSink :: "Diagnostic list option \<Rightarrow> DiagnosticSink" where
  "newDiagnosticSink diagnostics =
     \<lparr> diagnosticList = (case diagnostics of Some ds \<Rightarrow> ds | None \<Rightarrow> []),
       diagnosticMap = Map.empty \<rparr>"

text \<open>\<open>fetchAndClear\<close> returns the previous list together with the emptied sink.\<close>

definition fetchAndClear :: "DiagnosticSink \<Rightarrow> Diagnostic list \<times> DiagnosticSink" where
  "fetchAndClear sink =
     (diagnosticList sink, sink\<lparr> diagnosticList := [], diagnosticMap := Map.empty \<rparr>)"

text \<open>\<open>addDiagnostic\<close> returns its argument together with the updated sink.\<close>

definition addDiagnostic ::
  "(string \<Rightarrow> int) \<Rightarrow> DiagnosticSink \<Rightarrow> Diagnostic \<Rightarrow> Diagnostic \<times> DiagnosticSink" where
  "addDiagnostic hs sink diag =
     (let key = diagnosticKey hs diag in
      if diagnosticMap sink key = None
      then (diag, sink\<lparr> diagnosticList := diagnosticList sink @ [diag],
                        diagnosticMap := (diagnosticMap sink)(key \<mapsto> diag) \<rparr>)
      else (diag, sink))"

definition addDiagnostics :: "DiagnosticSink \<Rightarrow> Diagnostic list \<Rightarrow> DiagnosticSink" where
  "addDiagnostics sink diagsToAdd = sink\<lparr> diagnosticList := diagnosticList sink @ diagsToAdd \<rparr>"

section \<open>The type walker (typeWalker.ts)\<close>

text \<open>
  Modelled from the spec: the tagged union of type categories (types.ts is not among the
  sources). Types are objects that refer to one another, and the graph may be cyclic, so a
  type is a handle into a graph that maps every handle to the object's category-specific
  part and its optional type-alias metadata. Only what the walker reads is kept: the
  parameters of a function with their names and effective types, whether the function is a
  ParamSpec value, its declared and inferred return types; the overloads; for a class
  whether it is pseudo-generic, its tuple type arguments and its type arguments; the
  subtypes of a union or intersection.
\<close>

type_synonym handle = nat

record FunctionParam =
  parameterName :: "string option"
  effectiveParameterType :: handle

datatype TypeShape =
    UnboundShape
  | AnyShape
  | UnknownShape
  | NeverShape
  | FunctionShape "FunctionParam list" bool "handle option" "handle option"
  | OverloadedFunctionShape "handle list"
  | ClassShape bool "handle list option" "handle list option"
  | ModuleShape
  | UnionShape "handle list"
  | TypeVarShape
  | IntersectionShape "handle list"

record TypeAliasInfo =
  aliasTypeArguments :: "handle list option"

record TypeObject =
  typeAliasInfo :: "TypeAliasInfo option"
  shape :: TypeShape

type_synonym TypeGraph = "handle \<Rightarrow> TypeObject"

text \<open>
  The walker's three private fields; the getters \<open>isRecursionLimitHit\<close> and
  \<open>isWalkCanceled\<close> read the last two. The per-category visit methods are meant to be
  overridden, and an override can only observe the node and call \<open>cancelWalk\<close>:
  \<open>visitLog\<close> records, in order, the nodes whose category visit method ran, and the
  parameter \<open>cancels\<close> of \<open>walk\<close> says at which nodes the override calls
  \<open>cancelWalk\<close> before it defers to the base method. The base class is
  \<open>cancels = (\<lambda>h. False)\<close>.
\<close>

record TypeWalker =
  walkerRecursionCount :: nat
  isWalkCanceled :: bool
  isRecursionLimitHit :: bool
  visitLog :: "handle list"

definition newTypeWalker :: TypeWalker where
  "newTypeWalker = \<lparr> walkerRecursionCount = 0, isWalkCanceled = False, isRecursionLimitHit = False,
     visitLog = [] \<rparr>"

definition cancelWalk :: "TypeWalker \<Rightarrow> TypeWalker" where
  "cancelWalk w = w\<lparr> isWalkCanceled := True \<rparr>"

definition enterVisit :: "(handle \<Rightarrow> bool) \<Rightarrow> handle \<Rightarrow> TypeWalker \<Rightarrow> TypeWalker" where
  "enterVisit cancels h w =
     (let w1 = w\<lparr> visitLog := visitLog w @ [h] \<rparr> in if cancels h then cancelWalk w1 else w1)"

text \<open>
  \<open>visitFunction\<close> walks the effective type of every parameter that has a (non-empty)
  name.
\<close>

definition namedParameterTypes :: "FunctionParam list \<Rightarrow> handle list" where
  "namedParameterTypes ps =
     map effectiveParameterType
       (filter (\<lambda>p. case parameterName p of None \<Rightarrow> False | Some n \<Rightarrow> n \<noteq> []) ps)"

text \<open>
  \<open>walk\<close> and the loops of the visit methods. All loops have the same form: walk the
  child, then leave the loop if the walk is cancelled (\<open>walkEach\<close>). The first argument
  is fuel: it bounds the nesting of \<open>walk\<close> calls, and \<open>None\<close> means that the fuel
  ran out. \<open>mx\<close> is \<open>maxTypeRecursionCount\<close> (types.ts).
\<close>

fun walk :: "nat \<Rightarrow> nat \<Rightarrow> (handle \<Rightarrow> bool) \<Rightarrow> TypeGraph \<Rightarrow> handle \<Rightarrow> TypeWalker \<Rightarrow> TypeWalker option"
and walkEach :: "nat \<Rightarrow> nat \<Rightarrow> (handle \<Rightarrow> bool) \<Rightarrow> TypeGraph \<Rightarrow> handle list \<Rightarrow> TypeWalker \<Rightarrow> TypeWalker option"
and visitShape :: "nat \<Rightarrow> nat \<Rightarrow> (handle \<Rightarrow> bool) \<Rightarrow> TypeGraph \<Rightarrow> TypeShape \<Rightarrow> TypeWalker \<Rightarrow> TypeWalker option"
where
  "walk fuel mx cancels g h w =
     (if walkerRecursionCount w > mx then Some (w\<lparr> isRecursionLimitHit := True \<rparr>)
      else if isWalkCanceled w then Some w
      else case fuel of
        0 \<Rightarrow> None
      | Suc f \<Rightarrow>
         (let w1 = w\<lparr> walkerRecursionCount := walkerRecursionCount w + 1 \<rparr> in
          case (case typeAliasInfo (g h) of
                  None \<Rightarrow> Some w1
                | Some info \<Rightarrow>
                    (case aliasTypeArguments info of
                       None \<Rightarrow> Some w1
                     | Some args \<Rightarrow> walkEach f mx cancels g args w1)) of
            None \<Rightarrow> None
          | Some w2 \<Rightarrow>
             (case visitShape f mx cancels g (shape (g h)) (enterVisit cancels h w2) of
                None \<Rightarrow> None
              | Some w3 \<Rightarrow> Some (w3\<lparr> walkerRecursionCount := walkerRecursionCount w3 - 1 \<rparr>))))"
| "walkEach f mx cancels g [] w = Some w"
| "walkEach f mx cancels g (c # cs) w =
     (case walk f mx cancels g c w of
        None \<Rightarrow> None
      | Some w1 \<Rightarrow> if isWalkCanceled w1 then Some w1 else walkEach f mx cancels g cs w1)"
| "visitShape f mx cancels g (FunctionShape ps psv declared inferred) w =
     (case walkEach f mx cancels g (namedParameterTypes ps) w of
        None \<Rightarrow> None
      | Some w1 \<Rightarrow>
          if \<not> isWalkCanceled w1 \<and> \<not> psv \<and> \<not> psv
          then (case (case declared of Some r \<Rightarrow> Some r | None \<Rightarrow> inferred) of
                  Some returnType \<Rightarrow> walk f mx cancels g returnType w1
                | None \<Rightarrow> Some w1)
          else Some w1)"
| "visitShape f mx cancels g (OverloadedFunctionShape os) w = walkEach f mx cancels g os w"
| "visitShape f mx cancels g (ClassShape pseudo tupleArgs typeArgs) w =
     (if \<not> pseudo
      then (case (case tupleArgs of Some ts \<Rightarrow> Some ts | None \<Rightarrow> typeArgs) of
              Some args \<Rightarrow> walkEach f mx cancels g args w
            | None \<Rightarrow> Some w)
      else Some w)"
| "visitShape f mx cancels g (UnionShape ts) w = walkEach f mx cancels g ts w"
| "visitShape f mx cancels g (IntersectionShape ts) w = walkEach f mx cancels g ts w"
| "visitShape f mx cancels g UnboundShape w = Some w"
| "visitShape f mx cancels g AnyShape w = Some w"
| "visitShape f mx cancels g UnknownShape w = Some w"
| "visitShape f mx cancels g NeverShape w = Some w"
| "visitShape f mx cancels g ModuleShape w = Some w"
| "visitShape f mx cancels g TypeVarShape w = Some w"

declare walk.simps [simp del]

section \<open>TypedDict classes (typedDicts.ts)\<close>

subsection \<open>Types, symbols and the collaborators\<close>

text \<open>
  A failed \<open>assert\<close> throws; \<open>InvalidCast\<close> stands for a value that is not a class
  where the source casts to \<open>ClassType\<close> without a check.
\<close>

datatype error = AssertionFailed | InvalidCast

text \<open>
  Modelled from the spec: the type model of types.ts, which is not among the sources. A
  \<open>TypedDictEntry\<close> and the \<open>details\<close> of a class are objects shared by reference
  and mutated in place, so they live in a store and are named by references. A class type
  holds the reference to its details (shared by all specializations and clones), its
  instantiable/instance flags, its type arguments, its literal value, the partial flag and
  the optional map of narrowed entries. Maps keep insertion order: they are association
  lists of a key and a reference.
\<close>

type_synonym entryRef = nat
type_synonym detailsRef = nat
type_synonym ParseNode = nat

datatype ParameterCategory = ParamSimple | ParamArgsList | ParamKwargsDict

datatype FunctionTypeFlags = ConstructorMethod | Overloaded | NoFunctionFlags

datatype Type =
    UnboundType
  | UnknownType
  | AnyType (isEllipsis: bool)
  | NeverType
  | FunctionType FunctionT
  | OverloadedFunctionType "FunctionT list"
  | ClassType ClassT
  | ModuleType
  | TypeVarType (typeVarName: string) (typeVarScope: "string option") (typeVarScopeName: "string option")
  | UnionType "Type list"
and FunctionT =
    FunctionT (functionName: string) (functionFlags: FunctionTypeFlags)
      (parameters: "FunctionParameter list") (declaredReturnType: "Type option")
      (typeVarScopeId: "string option")
and FunctionParameter =
    FunctionParameter (paramCategory: ParameterCategory) (paramName: "string option")
      (paramType: Type) (hasDeclaredType: bool) (hasDefault: bool)
      (defaultType: "Type option")
and ClassT =
    ClassT (details: detailsRef) (instantiableFlag: bool) (instanceFlag: bool)
      (typeArguments: "Type list option") (isTypeArgumentExplicit: bool)
      (tupleTypeArguments: "(Type \<times> bool) list option")
      (literalValue: "string option") (isTypedDictPartial: bool)
      (typedDictNarrowedEntries: "(string \<times> entryRef) list option")

record TypedDictEntry =
  valueType :: Type
  isReadOnly :: bool
  isRequired :: bool
  isProvided :: bool

text \<open>
  Modelled from the spec: the type-variable substitution context (typeVarContext.ts), the
  declarations and symbols (declaration.ts, symbol.ts), the details of a class, the result
  of evaluating an expression, and the diagnostic addendum tree (diagnostic.ts) with the
  localized addendum messages of typedDicts.ts as constructors.
\<close>

datatype TypeVarContext = TypeVarContext (solveForScopes: "string option") (solutions: "(string \<times> Type) list")

datatype DeclarationType =
  DeclIntrinsic | DeclVariable | DeclParameter | DeclTypeParameter | DeclTypeAlias
  | DeclFunction | DeclClass | DeclSpecialBuiltInClass | DeclAlias

record Declaration =
  declType :: DeclarationType
  typeAnnotationNode :: "ParseNode option"

record Symbol =
  isClassMember :: bool
  isInstanceMember :: bool
  isIgnoredForProtocolMatch :: bool
  declarations :: "Declaration list"
  synthesizedType :: "Type option"

record ClassDetails =
  className :: string
  builtInClassFlag :: bool
  typedDictClassFlag :: bool
  canOmitDictValuesFlag :: bool
  baseClasses :: "Type list"
  classFields :: "(string \<times> Symbol) list"
  typeParameters :: "Type list"
  typedDictEntries :: "(string \<times> entryRef) list option"

record TypeResult =
  resultType :: Type
  resultIsIncomplete :: bool
  resultIsReadOnly :: bool
  resultIsRequired :: bool
  resultIsNotRequired :: bool

datatype AddendumMessage =
    TypedDictFieldMissing string string
  | TypedDictFieldRequired string string
  | TypedDictFieldNotRequired string string
  | TypedDictFieldNotReadOnly string string
  | MemberTypeMismatch string
  | TypedDictFieldUndefined string string
  | TypedDictFieldTypeMismatch string string
  | KeyUndefined string string
  | KeyNotRequired string string
  | KeyReadOnly string string
  | KeyRequiredDeleted string
  | TypeNotStringLiteral string
  | OtherAddendumMessage string

datatype DiagnosticAddendum =
  DiagnosticAddendum (messages: "AddendumMessage list") (textRange: "ParseNode option")
    (childAddenda: "DiagnosticAddendum list")

text \<open>
  The collaborators: the type evaluator and the helpers of typeUtils.ts, symbolUtils.ts and
  parseTreeUtils.ts are not among the sources. They are the fields of \<open>Env\<close>, and every
  theorem holds for every \<open>Env\<close>. \<open>assignType\<close> may add to the addendum and to the
  type-variable context it is given: it returns both next to its verdict.
\<close>

datatype AssignTypeFlag = EnforceInvariance | RetainLiteralsForTypeVar | OtherAssignTypeFlag nat

record Env =
  maxTypeRecursionCount :: nat
  assignType :: "Type \<Rightarrow> Type \<Rightarrow> DiagnosticAddendum option \<Rightarrow> TypeVarContext option \<Rightarrow>
     AssignTypeFlag set \<Rightarrow> nat \<Rightarrow> bool \<times> DiagnosticAddendum option \<times> TypeVarContext option"
  printType :: "Type \<Rightarrow> string"
  getObjectType :: Type
  getNoneType :: Type
  getTupleClassType :: "Type option"
  getBuiltInType :: "ParseNode \<Rightarrow> string \<Rightarrow> Type option"
  getTypingType :: "ParseNode \<Rightarrow> string \<Rightarrow> Type option"
  getEffectiveTypeOfSymbol :: "Symbol \<Rightarrow> Type"
  getTypeOfExpression :: "ParseNode \<Rightarrow> TypeResult"
  getTypeOfExpressionExpectingType :: "ParseNode \<Rightarrow> TypeResult"
  getLastTypedDeclaredForSymbol :: "Symbol \<Rightarrow> Declaration option"
  applySolvedTypeVars :: "Type \<Rightarrow> TypeVarContext \<Rightarrow> Type"
  buildTypeVarContextFromSpecializedClass :: "ClassT \<Rightarrow> TypeVarContext"
  partiallySpecializeType :: "Type \<Rightarrow> ClassT \<Rightarrow> Type"
  getTypeVarScopeId :: "ClassT \<Rightarrow> string option"
  combineTypes :: "Type list \<Rightarrow> Type"
  specializeTupleClass :: "ClassT \<Rightarrow> (Type \<times> bool) list \<Rightarrow> bool \<Rightarrow> ClassT"
  isWithinTryBlock :: "ParseNode \<Rightarrow> bool"
  getScopeIdForNode :: "ParseNode \<Rightarrow> string"
  addendumIsEmpty :: "DiagnosticAddendum \<Rightarrow> bool"
  addendumGetString :: "DiagnosticAddendum \<Rightarrow> string"

text \<open>
  The store: the heap of \<open>TypedDictEntry\<close> objects with the next free reference, the
  details of every class, and the diagnostics reported through the evaluator.
\<close>

datatype DiagnosticRule = ReportGeneralTypeIssues | ReportTypedDictNotRequiredAccess

datatype LocMessage =
    TypeArgsMismatchOne nat
  | TypedDictSet string
  | TypedDictDelete string
  | TypedDictAccess string

record Store =
  entryHeap :: "entryRef \<Rightarrow> TypedDictEntry"
  nextEntry :: entryRef
  classDetails :: "detailsRef \<Rightarrow> ClassDetails"
  reported :: "(DiagnosticRule \<times> LocMessage \<times> ParseNode) list"

definition allocEntry :: "TypedDictEntry \<Rightarrow> Store \<Rightarrow> entryRef \<times> Store" where
  "allocEntry e st =
     (nextEntry st, st\<lparr> entryHeap := (entryHeap st)(nextEntry st := e), nextEntry := Suc (nextEntry st) \<rparr>)"

text \<open>
  Modelled from the spec: the predicates and the clone operations of types.ts that
  typedDicts.ts calls. A clone copies the class type and changes the named field; the
  details stay shared.
\<close>

definition isClass :: "Type \<Rightarrow> bool" where
  "isClass t = (case t of ClassType c \<Rightarrow> True | _ \<Rightarrow> False)"

definition isInstantiableClass :: "Type \<Rightarrow> bool" where
  "isInstantiableClass t = (case t of ClassType c \<Rightarrow> instantiableFlag c | _ \<Rightarrow> False)"

definition isClassInstance :: "Type \<Rightarrow> bool" where
  "isClassInstance t = (case t of ClassType c \<Rightarrow> instanceFlag c | _ \<Rightarrow> False)"

definition isAnyOrUnknown :: "Type \<Rightarrow> bool" where
  "isAnyOrUnknown t = (case t of AnyType e \<Rightarrow> True | UnknownType \<Rightarrow> True | _ \<Rightarrow> False)"

definition isTypedDictClass :: "Store \<Rightarrow> ClassT \<Rightarrow> bool" where
  "isTypedDictClass st c = typedDictClassFlag (classDetails st (details c))"

definition isTypedDictClassType :: "Store \<Rightarrow> Type \<Rightarrow> bool" where
  "isTypedDictClassType st t = (case t of ClassType c \<Rightarrow> isTypedDictClass st c | _ \<Rightarrow> False)"

definition classOfType :: "Type \<Rightarrow> ClassT option" where
  "classOfType t = (case t of ClassType c \<Rightarrow> Some c | _ \<Rightarrow> None)"

definition isCanOmitDictValues :: "Store \<Rightarrow> ClassT \<Rightarrow> bool" where
  "isCanOmitDictValues st c = canOmitDictValuesFlag (classDetails st (details c))"

definition isBuiltIn :: "Store \<Rightarrow> ClassT \<Rightarrow> string \<Rightarrow> bool" where
  "isBuiltIn st c name =
     (builtInClassFlag (classDetails st (details c)) \<and> className (classDetails st (details c)) = name)"

definition isLiteralType :: "ClassT \<Rightarrow> bool" where
  "isLiteralType c = (instanceFlag c \<and> literalValue c \<noteq> None)"

definition cloneAsInstance :: "ClassT \<Rightarrow> ClassT" where
  "cloneAsInstance c =
     ClassT (details c) False True (typeArguments c) (isTypeArgumentExplicit c)
       (tupleTypeArguments c) (literalValue c) (isTypedDictPartial c) (typedDictNarrowedEntries c)"

definition cloneForSpecialization :: "ClassT \<Rightarrow> Type list option \<Rightarrow> bool \<Rightarrow> ClassT" where
  "cloneForSpecialization c typeArgs explicit =
     ClassT (details c) (instantiableFlag c) (instanceFlag c) typeArgs explicit
       (tupleTypeArguments c) (literalValue c) (isTypedDictPartial c) (typedDictNarrowedEntries c)"

definition cloneWithLiteral :: "ClassT \<Rightarrow> string \<Rightarrow> ClassT" where
  "cloneWithLiteral c v =
     ClassT (details c) (instantiableFlag c) (instanceFlag c) (typeArguments c)
       (isTypeArgumentExplicit c) (tupleTypeArguments c) (Some v) (isTypedDictPartial c)
       (typedDictNarrowedEntries c)"

definition cloneForPartialTypedDict :: "ClassT \<Rightarrow> ClassT" where
  "cloneForPartialTypedDict c =
     ClassT (details c) (instantiableFlag c) (instanceFlag c) (typeArguments c)
       (isTypeArgumentExplicit c) (tupleTypeArguments c) (literalValue c) True
       (typedDictNarrowedEntries c)"

definition cloneForNarrowedTypedDictEntries :: "ClassT \<Rightarrow> (string \<times> entryRef) list \<Rightarrow> ClassT" where
  "cloneForNarrowedTypedDictEntries c narrowedEntries =
     ClassT (details c) (instantiableFlag c) (instanceFlag c) (typeArguments c)
       (isTypeArgumentExplicit c) (tupleTypeArguments c) (literalValue c) (isTypedDictPartial c)
       (Some narrowedEntries)"

text \<open>\<open>Map.get\<close> and \<open>Map.set\<close>: a new key goes to the end, a known key keeps its place.\<close>

definition mapGet :: "('k \<times> 'v) list \<Rightarrow> 'k \<Rightarrow> 'v option" where
  "mapGet m k = map_of m k"

definition mapSet :: "('k \<times> 'v) list \<Rightarrow> 'k \<Rightarrow> 'v \<Rightarrow> ('k \<times> 'v) list" where
  "mapSet m k v = AList.update k v m"

subsection \<open>Entry resolution\<close>

text \<open>
  \<open>isRequiredTypedDictVariable\<close>, \<open>isNotRequiredTypedDictVariable\<close> and
  \<open>isReadOnlyTypedDictVariable\<close> differ only in the flag they read from the evaluated
  annotation.
\<close>

definition annotationHas :: "Env \<Rightarrow> (TypeResult \<Rightarrow> bool) \<Rightarrow> Symbol \<Rightarrow> bool" where
  "annotationHas env flag symbol =
     list_ex (\<lambda>decl.
        if declType decl \<noteq> DeclVariable then False
        else (case typeAnnotationNode decl of
                None \<Rightarrow> False
              | Some node \<Rightarrow> flag (getTypeOfExpressionExpectingType env node)))
       (declarations symbol)"

definition isRequiredTypedDictVariable :: "Env \<Rightarrow> Symbol \<Rightarrow> bool" where
  "isRequiredTypedDictVariable env symbol = annotationHas env resultIsRequired symbol"

definition isNotRequiredTypedDictVariable :: "Env \<Rightarrow> Symbol \<Rightarrow> bool" where
  "isNotRequiredTypedDictVariable env symbol = annotationHas env resultIsNotRequired symbol"

definition isReadOnlyTypedDictVariable :: "Env \<Rightarrow> Symbol \<Rightarrow> bool" where
  "isReadOnlyTypedDictVariable env symbol = annotationHas env resultIsReadOnly symbol"

text \<open>The body of \<open>classType.details.fields.forEach\<close> in the recursive resolution.\<close>

definition addClassField ::
  "Env \<Rightarrow> ClassT \<Rightarrow> TypeVarContext \<Rightarrow> (string \<times> entryRef) list \<times> Store \<Rightarrow> string \<times> Symbol \<Rightarrow>
     (string \<times> entryRef) list \<times> Store" where
  "addClassField env classType typeVarContext acc field =
     (case acc of (keyMap, st) \<Rightarrow>
      case field of (name, symbol) \<Rightarrow>
      if \<not> isIgnoredForProtocolMatch symbol then
        (case getLastTypedDeclaredForSymbol env symbol of
           None \<Rightarrow> (keyMap, st)
         | Some lastDecl \<Rightarrow>
             if declType lastDecl = DeclVariable then
               (let valueType0 = getEffectiveTypeOfSymbol env symbol;
                    valueType1 = applySolvedTypeVars env valueType0 typeVarContext;
                    isRequired0 = \<not> isCanOmitDictValues st classType;
                    isRequired1 =
                      (if isRequiredTypedDictVariable env symbol then True
                       else if isNotRequiredTypedDictVariable env symbol then False
                       else isRequired0);
                    isReadOnly1 = (if isReadOnlyTypedDictVariable env symbol then True else False);
                    (ref, st1) = allocEntry
                       \<lparr> valueType = valueType1, isReadOnly = isReadOnly1,
                         isRequired = isRequired1, isProvided = False \<rparr> st
                in (mapSet keyMap name ref, st1))
             else (keyMap, st))
      else (keyMap, st))"

text \<open>
  \<open>gatherBaseClassMembers\<close> is the loop over the base classes; it passes the already
  incremented recursion count on.
\<close>

function getTypedDictMembersForClassRecursive ::
  "Env \<Rightarrow> Store \<Rightarrow> ClassT \<Rightarrow> (string \<times> entryRef) list \<Rightarrow> nat \<Rightarrow>
     error + ((string \<times> entryRef) list \<times> Store)"
and gatherBaseClassMembers ::
  "Env \<Rightarrow> Store \<Rightarrow> ClassT \<Rightarrow> Type list \<Rightarrow> (string \<times> entryRef) list \<Rightarrow> nat \<Rightarrow>
     error + ((string \<times> entryRef) list \<times> Store)"
where
  "getTypedDictMembersForClassRecursive env st classType keyMap recursionCount =
     (if \<not> isTypedDictClass st classType then Inl AssertionFailed
      else if recursionCount > maxTypeRecursionCount env then Inr (keyMap, st)
      else
        (case gatherBaseClassMembers env st classType
                (baseClasses (classDetails st (details classType))) keyMap (recursionCount + 1) of
           Inl e \<Rightarrow> Inl e
         | Inr (keyMap1, st1) \<Rightarrow>
             Inr (foldl (addClassField env classType
                          (buildTypeVarContextFromSpecializedClass env classType))
                    (keyMap1, st1) (classFields (classDetails st1 (details classType))))))"
| "gatherBaseClassMembers env st classType [] keyMap recursionCount = Inr (keyMap, st)"
| "gatherBaseClassMembers env st classType (baseClassType # rest) keyMap recursionCount =
     (if isInstantiableClass baseClassType \<and> isTypedDictClassType st baseClassType then
        (case classOfType (partiallySpecializeType env baseClassType classType) of
           Some specializedBaseClassType \<Rightarrow>
             (case getTypedDictMembersForClassRecursive env st specializedBaseClassType
                     keyMap recursionCount of
                Inl e \<Rightarrow> Inl e
              | Inr (keyMap1, st1) \<Rightarrow>
                  gatherBaseClassMembers env st1 classType rest keyMap1 recursionCount)
         | None \<Rightarrow> Inl AssertionFailed)
      else gatherBaseClassMembers env st classType rest keyMap recursionCount)"
  by pat_completeness auto
termination
  by (relation "inv_image (less_than <*lex*> less_than)
        (\<lambda>x. case x of
            Inl (env, st, classType, keyMap, recursionCount) \<Rightarrow>
              (Suc (maxTypeRecursionCount env) - recursionCount, 0)
          | Inr (env, st, classType, bases, keyMap, recursionCount) \<Rightarrow>
              (Suc (maxTypeRecursionCount env) - recursionCount, Suc (length bases)))") auto

declare getTypedDictMembersForClassRecursive.simps [simp del]

subsection \<open>The entries of a class\<close>

record TypeResultWithNode = TypeResult +
  resultNodeW :: ParseNode

text \<open>
  Modelled from the spec: the operations of the diagnostic addendum tree.
  \<open>createAddendum\<close> appends a new child, which the caller then fills: the model builds
  the child and appends it (\<open>addAddendum\<close>).
\<close>

definition emptyAddendum :: DiagnosticAddendum where
  "emptyAddendum = DiagnosticAddendum [] None []"

definition addMessage :: "AddendumMessage \<Rightarrow> DiagnosticAddendum \<Rightarrow> DiagnosticAddendum" where
  "addMessage m d = DiagnosticAddendum (messages d @ [m]) (textRange d) (childAddenda d)"

definition addTextRange :: "ParseNode \<Rightarrow> DiagnosticAddendum \<Rightarrow> DiagnosticAddendum" where
  "addTextRange node d = DiagnosticAddendum (messages d) (Some node) (childAddenda d)"

definition addAddendum :: "DiagnosticAddendum \<Rightarrow> DiagnosticAddendum \<Rightarrow> DiagnosticAddendum" where
  "addAddendum child d = DiagnosticAddendum (messages d) (textRange d) (childAddenda d @ [child])"

text \<open>
  A call of \<open>assignType\<close>: the addendum and the context are objects of the caller, so
  they stay defined exactly when they were passed.
\<close>

definition callAssignType ::
  "Env \<Rightarrow> Type \<Rightarrow> Type \<Rightarrow> DiagnosticAddendum option \<Rightarrow> TypeVarContext option \<Rightarrow>
     AssignTypeFlag set \<Rightarrow> nat \<Rightarrow> bool \<times> DiagnosticAddendum option \<times> TypeVarContext option" where
  "callAssignType env destType srcType diag typeVarContext flags recursionCount =
     (case assignType env destType srcType diag typeVarContext flags recursionCount of
        (ok, diag1, ctx1) \<Rightarrow>
          (ok,
           (case diag of None \<Rightarrow> None
            | Some d \<Rightarrow> Some (case diag1 of Some d1 \<Rightarrow> d1 | None \<Rightarrow> d)),
           (case typeVarContext of None \<Rightarrow> None
            | Some c \<Rightarrow> Some (case ctx1 of Some c1 \<Rightarrow> c1 | None \<Rightarrow> c))))"

text \<open>
  The two loops of \<open>getTypedDictMembersForClass\<close>: each copies the entry object
  (\<open>{ ...value }\<close> allocates a new one) and puts the copy into the result.
\<close>

definition specializeEntry ::
  "Env \<Rightarrow> ClassT \<Rightarrow> TypeVarContext \<Rightarrow> (string \<times> entryRef) list \<times> Store \<Rightarrow> string \<times> entryRef \<Rightarrow>
     (string \<times> entryRef) list \<times> Store" where
  "specializeEntry env classType typeVarContext acc kv =
     (case acc of (entries, st) \<Rightarrow>
      case kv of (key, valueRef) \<Rightarrow>
        (let tdEntry0 = entryHeap st valueRef;
             tdEntry1 = tdEntry0\<lparr> valueType := applySolvedTypeVars env (valueType tdEntry0) typeVarContext \<rparr>;
             tdEntry2 =
               (if isTypedDictPartial classType then
                  (let e = tdEntry1\<lparr> isRequired := False \<rparr> in
                   if isReadOnly e then e\<lparr> valueType := NeverType \<rparr>
                   else e\<lparr> isReadOnly := True \<rparr>)
                else tdEntry1);
             (ref, st1) = allocEntry tdEntry2 st
         in (mapSet entries key ref, st1)))"

definition applyNarrowedEntry ::
  "Env \<Rightarrow> TypeVarContext \<Rightarrow> (string \<times> entryRef) list \<times> Store \<Rightarrow> string \<times> entryRef \<Rightarrow>
     (string \<times> entryRef) list \<times> Store" where
  "applyNarrowedEntry env typeVarContext acc kv =
     (case acc of (entries, st) \<Rightarrow>
      case kv of (key, valueRef) \<Rightarrow>
        (let tdEntry0 = entryHeap st valueRef;
             tdEntry1 = tdEntry0\<lparr> valueType := applySolvedTypeVars env (valueType tdEntry0) typeVarContext \<rparr>;
             (ref, st1) = allocEntry tdEntry1 st
         in (mapSet entries key ref, st1)))"

text \<open>The first step of \<open>getTypedDictMembersForClass\<close>: compute and cache the entries if needed.\<close>

definition ensureTypedDictEntries ::
  "Env \<Rightarrow> Store \<Rightarrow> ClassT \<Rightarrow> error + ((string \<times> entryRef) list \<times> Store)" where
  "ensureTypedDictEntries env st classType =
     (case typedDictEntries (classDetails st (details classType)) of
        Some cached \<Rightarrow> Inr (cached, st)
      | None \<Rightarrow>
          (case getTypedDictMembersForClassRecursive env st classType [] 0 of
             Inl e \<Rightarrow> Inl e
           | Inr (entries, st1) \<Rightarrow>
               Inr (entries,
                    st1\<lparr> classDetails := (classDetails st1)
                          (details classType :=
                             (classDetails st1 (details classType))\<lparr> typedDictEntries := Some entries \<rparr>) \<rparr>)))"

definition getTypedDictMembersForClass ::
  "Env \<Rightarrow> Store \<Rightarrow> ClassT \<Rightarrow> bool \<Rightarrow> error + ((string \<times> entryRef) list \<times> Store)" where
  "getTypedDictMembersForClass env st classType allowNarrowed =
     (case ensureTypedDictEntries env st classType of
        Inl e \<Rightarrow> Inl e
      | Inr (cached, st1) \<Rightarrow>
          (let typeVarContext = buildTypeVarContextFromSpecializedClass env classType;
               acc1 = foldl (specializeEntry env classType typeVarContext) ([], st1) cached
           in Inr (case (if allowNarrowed then typedDictNarrowedEntries classType else None) of
                     Some narrowed \<Rightarrow> foldl (applyNarrowedEntry env typeVarContext) acc1 narrowed
                   | None \<Rightarrow> acc1)))"

subsection \<open>Narrowing on key assignment\<close>

definition narrowForKeyAssignment :: "Store \<Rightarrow> ClassT \<Rightarrow> string \<Rightarrow> ClassT \<times> Store" where
  "narrowForKeyAssignment st classType key =
     (if \<not> isTypedDictClass st classType then (classType, st)
      else case typedDictEntries (classDetails st (details classType)) of
        None \<Rightarrow> (classType, st)
      | Some cached \<Rightarrow>
          (case mapGet cached key of
             None \<Rightarrow> (classType, st)
           | Some tdRef \<Rightarrow>
               (let tdEntry = entryHeap st tdRef in
                if isRequired tdEntry then (classType, st)
                else if (case typedDictNarrowedEntries classType of
                           None \<Rightarrow> False
                         | Some narrowed \<Rightarrow>
                             (case mapGet narrowed key of
                                None \<Rightarrow> False
                              | Some narrowedRef \<Rightarrow> isProvided (entryHeap st narrowedRef)))
                then (classType, st)
                else
                  (let narrowedEntries =
                         (case typedDictNarrowedEntries classType of
                            Some narrowed \<Rightarrow> narrowed | None \<Rightarrow> []);
                       (ref, st1) = allocEntry
                         \<lparr> valueType = valueType tdEntry, isReadOnly = isReadOnly tdEntry,
                           isRequired = False, isProvided = True \<rparr> st
                   in (cloneForNarrowedTypedDictEntries classType (mapSet narrowedEntries key ref),
                       st1)))))"

subsection \<open>Assigning a TypedDict to a TypedDict\<close>

text \<open>The body of \<open>destEntries.forEach\<close>.\<close>

definition assignTypedDictEntry ::
  "Env \<Rightarrow> Store \<Rightarrow> ClassT \<Rightarrow> ClassT \<Rightarrow> (string \<times> entryRef) list \<Rightarrow> AssignTypeFlag set \<Rightarrow> nat \<Rightarrow>
     bool \<times> DiagnosticAddendum option \<times> TypeVarContext option \<Rightarrow> string \<times> entryRef \<Rightarrow>
     bool \<times> DiagnosticAddendum option \<times> TypeVarContext option" where
  "assignTypedDictEntry env st destType srcType srcEntries flags recursionCount acc kv =
     (case acc of (typesAreConsistent, diag, typeVarContext) \<Rightarrow>
      case kv of (name, destRef) \<Rightarrow>
      let destEntry = entryHeap st destRef in
      case mapGet srcEntries name of
        None \<Rightarrow>
          if isRequired destEntry \<or> \<not> isReadOnly destEntry then
            (False,
             map_option (addAddendum (addMessage
                (TypedDictFieldMissing name (printType env (ClassType srcType))) emptyAddendum)) diag,
             typeVarContext)
          else
            (let objType = getObjectType env in
             if isClassInstance objType then
               (case callAssignType env (valueType destEntry) objType
                       (map_option (\<lambda>d. emptyAddendum) diag) typeVarContext flags recursionCount of
                  (ok, inner, ctx1) \<Rightarrow>
                    (let subDiag0 = (case inner of Some i \<Rightarrow> addAddendum i emptyAddendum
                                     | None \<Rightarrow> emptyAddendum);
                         subDiag = (if ok then subDiag0
                                    else addMessage (MemberTypeMismatch name) subDiag0)
                     in (if ok then typesAreConsistent else False,
                         map_option (addAddendum subDiag) diag, ctx1)))
             else (typesAreConsistent, diag, typeVarContext))
      | Some srcRef \<Rightarrow>
          (let srcEntry = entryHeap st srcRef;
               requiredMismatch = (isRequired destEntry \<noteq> isRequired srcEntry \<and> \<not> isReadOnly destEntry);
               diag1 = (if requiredMismatch then
                          map_option (addAddendum (addMessage
                             ((if isRequired destEntry then TypedDictFieldRequired
                               else TypedDictFieldNotRequired) name (printType env (ClassType destType)))
                             emptyAddendum)) diag
                        else diag);
               readOnlyMismatch = (\<not> isReadOnly destEntry \<and> isReadOnly srcEntry);
               diag2 = (if readOnlyMismatch then
                          map_option (addAddendum (addMessage
                             (TypedDictFieldNotReadOnly name (printType env (ClassType destType)))
                             emptyAddendum)) diag1
                        else diag1);
               adjustedFlags = (if \<not> isReadOnly destEntry then insert EnforceInvariance flags
                                else flags)
           in case callAssignType env (valueType destEntry) (valueType srcEntry)
                     (map_option (\<lambda>d. emptyAddendum) diag2) typeVarContext adjustedFlags
                     recursionCount of
                (ok, inner, ctx1) \<Rightarrow>
                  (let subDiag0 = (case inner of Some i \<Rightarrow> addAddendum i emptyAddendum
                                   | None \<Rightarrow> emptyAddendum);
                       subDiag = (if ok then subDiag0
                                  else addMessage (MemberTypeMismatch name) subDiag0)
                   in (if requiredMismatch \<or> readOnlyMismatch \<or> \<not> ok then False
                       else typesAreConsistent,
                       map_option (addAddendum subDiag) diag2, ctx1))))"

definition assignTypedDictToTypedDict ::
  "Env \<Rightarrow> Store \<Rightarrow> ClassT \<Rightarrow> ClassT \<Rightarrow> DiagnosticAddendum option \<Rightarrow> TypeVarContext option \<Rightarrow>
     AssignTypeFlag set \<Rightarrow> nat \<Rightarrow>
     error + ((bool \<times> DiagnosticAddendum option \<times> TypeVarContext option) \<times> Store)" where
  "assignTypedDictToTypedDict env st destType srcType diag typeVarContext flags recursionCount =
     (case getTypedDictMembersForClass env st destType False of
        Inl e \<Rightarrow> Inl e
      | Inr (destEntries, st1) \<Rightarrow>
          (case getTypedDictMembersForClass env st1 srcType True of
             Inl e \<Rightarrow> Inl e
           | Inr (srcEntries, st2) \<Rightarrow>
               Inr (foldl (assignTypedDictEntry env st2 destType srcType srcEntries flags
                             recursionCount)
                      (True, diag, typeVarContext) destEntries,
                    st2)))"

subsection \<open>Assigning keys and values to a TypedDict\<close>

text \<open>The body of \<open>keyTypes.forEach\<close>, and the body of the check for missing required keys.\<close>

definition assignTypedDictKey ::
  "Env \<Rightarrow> ClassT \<Rightarrow> (string \<times> entryRef) list \<Rightarrow>
     bool \<times> (string \<times> entryRef) list \<times> DiagnosticAddendum option \<times> TypeVarContext option \<times> Store \<Rightarrow>
     TypeResultWithNode \<times> TypeResultWithNode \<Rightarrow>
     bool \<times> (string \<times> entryRef) list \<times> DiagnosticAddendum option \<times> TypeVarContext option \<times> Store" where
  "assignTypedDictKey env classType symbolMap acc kv =
     (case acc of (isMatch, narrowedEntries, diagAddendum, typeVarContext, st) \<Rightarrow>
      case kv of (keyTypeResult, valueTypeResult) \<Rightarrow>
      case (case resultType keyTypeResult of
              ClassType keyType \<Rightarrow>
                if instanceFlag keyType \<and> isBuiltIn st keyType ''str'' \<and> isLiteralType keyType
                then literalValue keyType else None
            | _ \<Rightarrow> None) of
        None \<Rightarrow> (False, narrowedEntries, diagAddendum, typeVarContext, st)
      | Some keyValue \<Rightarrow>
          (case mapGet symbolMap keyValue of
             None \<Rightarrow>
               (False, narrowedEntries,
                map_option (addAddendum (addTextRange (resultNodeW keyTypeResult) (addMessage
                   (TypedDictFieldUndefined keyValue
                      (printType env (ClassType (cloneAsInstance classType)))) emptyAddendum)))
                  diagAddendum,
                typeVarContext, st)
           | Some symbolRef \<Rightarrow>
               (let symbolEntry = entryHeap st symbolRef in
                case callAssignType env (valueType symbolEntry) (resultType valueTypeResult)
                       (map_option (\<lambda>d. emptyAddendum) diagAddendum) typeVarContext
                       {RetainLiteralsForTypeVar} 0 of
                  (ok, inner, ctx1) \<Rightarrow>
                    (let subDiag0 = (case inner of Some i \<Rightarrow> addAddendum i emptyAddendum
                                     | None \<Rightarrow> emptyAddendum);
                         subDiag =
                           (if ok then subDiag0
                            else addTextRange (resultNodeW keyTypeResult) (addMessage
                                   (TypedDictFieldTypeMismatch keyValue
                                      (printType env (resultType valueTypeResult))) subDiag0));
                         (narrowedEntries1, st1) =
                           (if \<not> isRequired symbolEntry then
                              (case allocEntry
                                      \<lparr> valueType = resultType valueTypeResult,
                                        isReadOnly = resultIsReadOnly valueTypeResult,
                                        isRequired = False, isProvided = True \<rparr> st of
                                 (ref, s) \<Rightarrow> (mapSet narrowedEntries keyValue ref, s))
                            else (narrowedEntries, st));
                         st2 = st1\<lparr> entryHeap := (entryHeap st1)
                                  (symbolRef := (entryHeap st1 symbolRef)\<lparr> isProvided := True \<rparr>) \<rparr>
                     in (if ok then isMatch else False, narrowedEntries1,
                         map_option (addAddendum subDiag) diagAddendum, ctx1, st2)))))"

definition checkRequiredKey ::
  "Env \<Rightarrow> ClassT \<Rightarrow> Store \<Rightarrow> bool \<times> DiagnosticAddendum option \<Rightarrow> string \<times> entryRef \<Rightarrow>
     bool \<times> DiagnosticAddendum option" where
  "checkRequiredKey env classType st acc kv =
     (case acc of (isMatch, diagAddendum) \<Rightarrow>
      case kv of (name, ref) \<Rightarrow>
        if isRequired (entryHeap st ref) \<and> \<not> isProvided (entryHeap st ref) then
          (False,
           map_option (addMessage (TypedDictFieldRequired name (printType env (ClassType classType))))
             diagAddendum)
        else (isMatch, diagAddendum))"

definition assignToTypedDict ::
  "Env \<Rightarrow> Store \<Rightarrow> ClassT \<Rightarrow> TypeResultWithNode list \<Rightarrow> TypeResultWithNode list \<Rightarrow>
     DiagnosticAddendum option \<Rightarrow> error + (ClassT option \<times> DiagnosticAddendum option \<times> Store)" where
  "assignToTypedDict env st classType keyTypes valueTypes diagAddendum =
     (if \<not> instanceFlag classType then Inl AssertionFailed
      else if \<not> isTypedDictClass st classType then Inl AssertionFailed
      else if length keyTypes \<noteq> length valueTypes then Inl AssertionFailed
      else
        (let isGeneric = (typeParameters (classDetails st (details classType)) \<noteq> []);
             typeVarContext0 =
               (if isGeneric then Some (TypeVarContext (getTypeVarScopeId env classType) [])
                else None);
             genericClassType =
               (if isGeneric \<and> typeArguments classType \<noteq> None
                then cloneForSpecialization classType None False else classType)
         in case getTypedDictMembersForClass env st genericClassType False of
              Inl e \<Rightarrow> Inl e
            | Inr (symbolMap, st1) \<Rightarrow>
                (case foldl (assignTypedDictKey env classType symbolMap)
                        (True, [], diagAddendum, typeVarContext0, st1) (zip keyTypes valueTypes) of
                   (isMatch, narrowedEntries, diag1, typeVarContext, st2) \<Rightarrow>
                     if \<not> isMatch then Inr (None, diag1, st2)
                     else
                       (case foldl (checkRequiredKey env classType st2) (True, diag1) symbolMap of
                          (isMatch2, diag2) \<Rightarrow>
                            if \<not> isMatch2 then Inr (None, diag2, st2)
                            else
                              (case (case typeVarContext of
                                       Some ctx \<Rightarrow>
                                         (case applySolvedTypeVars env (ClassType genericClassType) ctx of
                                            ClassType c \<Rightarrow> Inr c
                                          | _ \<Rightarrow> Inl InvalidCast)
                                     | None \<Rightarrow> Inr classType) of
                                 Inl e \<Rightarrow> Inl e
                               | Inr specializedClassType \<Rightarrow>
                                   Inr (Some (if narrowedEntries = [] then specializedClassType
                                              else cloneForNarrowedTypedDictEntries
                                                     specializedClassType narrowedEntries),
                                        diag2, st2))))))"

subsection \<open>Indexing a TypedDict\<close>

text \<open>
  Modelled from the spec: the index node with its argument list (parseNodes.ts) and the
  usage of the evaluator (typeEvaluatorTypes.ts).
\<close>

datatype ArgumentCategory = ArgSimple | ArgUnpackedList | ArgUnpackedDictionary

record ArgumentNode =
  argumentName :: "ParseNode option"
  argumentCategory :: ArgumentCategory
  valueExpression :: ParseNode

record IndexNode =
  indexNodeId :: ParseNode
  items :: "ArgumentNode list"
  trailingComma :: bool

datatype UsageMethod = UsageGet | UsageSet | UsageDel

record EvaluatorUsage =
  usageMethod :: UsageMethod
  setType :: "TypeResult option"
  setExpectedTypeDiag :: "DiagnosticAddendum option"

definition evaluatorAddDiagnostic :: "DiagnosticRule \<Rightarrow> LocMessage \<Rightarrow> ParseNode \<Rightarrow> Store \<Rightarrow> Store" where
  "evaluatorAddDiagnostic rule msg node st = st\<lparr> reported := reported st @ [(rule, msg, node)] \<rparr>"

text \<open>
  The callback of \<open>mapSubtypes\<close>, run on every subtype of the index type; the results
  are combined by \<open>combineTypes\<close> when the index type is a union.
\<close>

definition indexSubtype ::
  "Env \<Rightarrow> Store \<Rightarrow> IndexNode \<Rightarrow> ClassT \<Rightarrow> EvaluatorUsage \<Rightarrow> (string \<times> entryRef) list \<Rightarrow>
     Type list \<times> DiagnosticAddendum \<times> bool \<Rightarrow> Type \<Rightarrow> Type list \<times> DiagnosticAddendum \<times> bool" where
  "indexSubtype env st node baseType usage entries acc subtype =
     (case acc of (results, diag, allDiagsInvolveNotRequiredKeys) \<Rightarrow>
      if isAnyOrUnknown subtype then (results @ [subtype], diag, allDiagsInvolveNotRequiredKeys)
      else
        (case (case subtype of
                 ClassType c \<Rightarrow> if instanceFlag c \<and> isBuiltIn st c ''str'' then Some c else None
               | _ \<Rightarrow> None) of
           Some c \<Rightarrow>
             (case literalValue c of
                None \<Rightarrow> (results @ [UnknownType], diag, allDiagsInvolveNotRequiredKeys)
              | Some entryName \<Rightarrow>
                  (case mapGet entries entryName of
                     None \<Rightarrow>
                       (results @ [UnknownType],
                        addMessage (KeyUndefined entryName (printType env (ClassType baseType))) diag,
                        False)
                   | Some ref \<Rightarrow>
                       (let entry = entryHeap st ref;
                            diag1 =
                              (if \<not> (isRequired entry \<or> isProvided entry) \<and> usageMethod usage = UsageGet
                               then (if \<not> isWithinTryBlock env (indexNodeId node)
                                     then addMessage (KeyNotRequired entryName
                                            (printType env (ClassType baseType))) diag
                                     else diag)
                               else if isReadOnly entry \<and> usageMethod usage \<noteq> UsageGet
                               then addMessage (KeyReadOnly entryName
                                      (printType env (ClassType baseType))) diag
                               else diag)
                        in if usageMethod usage = UsageSet then
                             (case callAssignType env (valueType entry)
                                     (case setType usage of Some t \<Rightarrow> resultType t
                                      | None \<Rightarrow> AnyType False)
                                     (Some diag1) None {} 0 of
                                (ok, diag2, ctx) \<Rightarrow>
                                  (results @ [valueType entry],
                                   (case diag2 of Some d \<Rightarrow> d | None \<Rightarrow> diag1),
                                   (if ok then allDiagsInvolveNotRequiredKeys else False)))
                           else if usageMethod usage = UsageDel \<and> isRequired entry then
                             (results @ [valueType entry],
                              addMessage (KeyRequiredDeleted entryName) diag1, False)
                           else (results @ [valueType entry], diag1,
                                 allDiagsInvolveNotRequiredKeys))))
         | None \<Rightarrow>
             (results @ [UnknownType],
              addMessage (TypeNotStringLiteral (printType env subtype)) diag, False)))"

definition getTypeOfIndexedTypedDict ::
  "Env \<Rightarrow> Store \<Rightarrow> IndexNode \<Rightarrow> ClassT \<Rightarrow> EvaluatorUsage \<Rightarrow> error + (TypeResult option \<times> Store)" where
  "getTypeOfIndexedTypedDict env st node baseType usage =
     (case items node of
        [item] \<Rightarrow>
          if trailingComma node \<or> argumentName item \<noteq> None \<or> argumentCategory item \<noteq> ArgSimple
          then Inr (None, st)
          else
            (case getTypedDictMembersForClass env st baseType (usageMethod usage = UsageGet) of
               Inl e \<Rightarrow> Inl e
             | Inr (entries, st1) \<Rightarrow>
                 (let indexTypeResult = getTypeOfExpression env (valueExpression item);
                      indexType = resultType indexTypeResult
                  in case foldl (indexSubtype env st1 node baseType usage entries)
                            ([], emptyAddendum, True)
                            (case indexType of UnionType subtypes \<Rightarrow> subtypes | _ \<Rightarrow> [indexType]) of
                       (results, diag0, allDiagsInvolveNotRequiredKeys) \<Rightarrow>
                         (let resultingType =
                                (case indexType of
                                   UnionType subtypes \<Rightarrow> combineTypes env results
                                 | _ \<Rightarrow> (case results of [r] \<Rightarrow> r | _ \<Rightarrow> NeverType));
                              diag =
                                (case setExpectedTypeDiag usage of
                                   Some expected \<Rightarrow>
                                     if \<not> addendumIsEmpty env diag0 \<and> \<not> addendumIsEmpty env expected
                                     then expected else diag0
                                 | None \<Rightarrow> diag0);
                              st2 =
                                (if \<not> addendumIsEmpty env diag then
                                   evaluatorAddDiagnostic
                                     (if allDiagsInvolveNotRequiredKeys
                                      then ReportTypedDictNotRequiredAccess
                                      else ReportGeneralTypeIssues)
                                     ((if usageMethod usage = UsageSet then TypedDictSet
                                       else if usageMethod usage = UsageDel then TypedDictDelete
                                       else TypedDictAccess) (addendumGetString env diag))
                                     (indexNodeId node) st1
                                 else st1)
                          in Inr (Some \<lparr> resultType = resultingType,
                                         resultIsIncomplete = resultIsIncomplete indexTypeResult,
                                         resultIsReadOnly = False, resultIsRequired = False,
                                         resultIsNotRequired = False \<rparr>,
                                  st2))))
      | _ \<Rightarrow>
          Inr (Some \<lparr> resultType = UnknownType, resultIsIncomplete = False,
                      resultIsReadOnly = False, resultIsRequired = False,
                      resultIsNotRequired = False \<rparr>,
               evaluatorAddDiagnostic ReportGeneralTypeIssues (TypeArgsMismatchOne (length (items node)))
                 (indexNodeId node) st))"

subsection \<open>Synthesized methods\<close>

text \<open>
  Modelled from the spec: building a function type (types.ts): a synthesized function
  starts without parameters; the separators are unnamed parameters.
\<close>

definition createSynthesizedInstance :: "string \<Rightarrow> FunctionTypeFlags \<Rightarrow> FunctionT" where
  "createSynthesizedInstance name additionalFlags = FunctionT name additionalFlags [] None None"

definition addParameter :: "FunctionParameter \<Rightarrow> FunctionT \<Rightarrow> FunctionT" where
  "addParameter param f =
     FunctionT (functionName f) (functionFlags f) (parameters f @ [param]) (declaredReturnType f)
       (typeVarScopeId f)"

definition setDeclaredReturnType :: "Type \<Rightarrow> FunctionT \<Rightarrow> FunctionT" where
  "setDeclaredReturnType t f =
     FunctionT (functionName f) (functionFlags f) (parameters f) (Some t) (typeVarScopeId f)"

definition setTypeVarScopeId :: "string \<Rightarrow> FunctionT \<Rightarrow> FunctionT" where
  "setTypeVarScopeId scopeId f =
     FunctionT (functionName f) (functionFlags f) (parameters f) (declaredReturnType f) (Some scopeId)"

definition simpleParam :: "string \<Rightarrow> Type \<Rightarrow> bool \<Rightarrow> FunctionParameter" where
  "simpleParam name t withDefault = FunctionParameter ParamSimple (Some name) t True withDefault None"

definition addDefaultParameters :: "FunctionT \<Rightarrow> FunctionT" where
  "addDefaultParameters f =
     addParameter (FunctionParameter ParamKwargsDict (Some ''kwargs'') (AnyType False) True False None)
       (addParameter (FunctionParameter ParamArgsList (Some ''args'') (AnyType False) True False None) f)"

definition addPositionOnlyParameterSeparator :: "FunctionT \<Rightarrow> FunctionT" where
  "addPositionOnlyParameterSeparator f =
     addParameter (FunctionParameter ParamSimple None (AnyType False) False False None) f"

definition addKeywordOnlyParameterSeparator :: "FunctionT \<Rightarrow> FunctionT" where
  "addKeywordOnlyParameterSeparator f =
     addParameter (FunctionParameter ParamArgsList None (AnyType False) False False None) f"

definition createWithType :: "Type \<Rightarrow> Symbol" where
  "createWithType t =
     \<lparr> isClassMember = True, isInstanceMember = False, isIgnoredForProtocolMatch = False,
       declarations = [], synthesizedType = Some t \<rparr>"

definition selfParam :: "ClassT \<Rightarrow> FunctionParameter" where
  "selfParam classType = simpleParam ''self'' (ClassType (cloneAsInstance classType)) False"

definition createDefaultTypeVar :: "Store \<Rightarrow> ClassT \<Rightarrow> FunctionT \<Rightarrow> Type" where
  "createDefaultTypeVar st classType func =
     TypeVarType ''__TDefault'' (typeVarScopeId func)
       (Some (className (classDetails st (details classType))))"

definition createGetMethod ::
  "Env \<Rightarrow> Store \<Rightarrow> ParseNode \<Rightarrow> ClassT \<Rightarrow> Type \<Rightarrow> Type \<Rightarrow> bool \<Rightarrow> bool \<Rightarrow> bool \<Rightarrow> FunctionT" where
  "createGetMethod env st node classType keyType vType includeDefault isEntryRequired
       defaultTypeMatchesField =
     (let getOverload =
            addParameter (simpleParam ''k'' keyType False)
              (setTypeVarScopeId (getScopeIdForNode env node)
                 (addParameter (selfParam classType)
                    (createSynthesizedInstance ''get'' Overloaded)))
      in if includeDefault then
           (let defaultTypeVar = createDefaultTypeVar st classType getOverload;
                defaultParamType =
                  (if isEntryRequired then AnyType False
                   else if defaultTypeMatchesField then vType
                   else combineTypes env [vType, defaultTypeVar]);
                returnType = (if isEntryRequired then vType else defaultParamType)
            in setDeclaredReturnType returnType
                 (addParameter (simpleParam ''default'' defaultParamType False) getOverload))
         else setDeclaredReturnType
                (if isEntryRequired then vType else combineTypes env [vType, getNoneType env])
                getOverload)"

definition createPopMethods ::
  "Env \<Rightarrow> Store \<Rightarrow> ParseNode \<Rightarrow> ClassT \<Rightarrow> Type \<Rightarrow> Type \<Rightarrow> bool \<Rightarrow> FunctionT list" where
  "createPopMethods env st node classType keyType vType isEntryRequired =
     (let keyParam = simpleParam ''k'' keyType False;
          popOverload1 =
            setDeclaredReturnType vType
              (addParameter keyParam
                 (addParameter (selfParam classType) (createSynthesizedInstance ''pop'' Overloaded)));
          popOverload2 =
            setTypeVarScopeId (getScopeIdForNode env node)
              (addParameter keyParam
                 (addParameter (selfParam classType) (createSynthesizedInstance ''pop'' Overloaded)));
          defaultTypeVar = createDefaultTypeVar st classType popOverload2;
          defaultParamType =
            (if isEntryRequired then AnyType False else combineTypes env [vType, defaultTypeVar]);
          returnType = (if isEntryRequired then vType else defaultParamType)
      in [popOverload1,
          setDeclaredReturnType returnType
            (addParameter (simpleParam ''default'' defaultParamType True) popOverload2)])"

definition createSetDefaultMethod :: "ClassT \<Rightarrow> Type \<Rightarrow> Type \<Rightarrow> FunctionT" where
  "createSetDefaultMethod classType keyType vType =
     setDeclaredReturnType vType
       (addParameter (simpleParam ''default'' vType False)
          (addParameter (simpleParam ''k'' keyType False)
             (addParameter (selfParam classType)
                (createSynthesizedInstance ''setdefault'' Overloaded))))"

definition createDelItemMethod :: "Env \<Rightarrow> ClassT \<Rightarrow> Type \<Rightarrow> FunctionT" where
  "createDelItemMethod env classType keyType =
     setDeclaredReturnType (getNoneType env)
       (addParameter (simpleParam ''k'' keyType False)
          (addParameter (selfParam classType) (createSynthesizedInstance ''delitem'' Overloaded)))"

definition nameLiteralType :: "ClassT \<Rightarrow> string \<Rightarrow> Type" where
  "nameLiteralType strClass name = ClassType (cloneAsInstance (cloneWithLiteral strClass name))"

definition createUpdateMethod ::
  "Env \<Rightarrow> ParseNode \<Rightarrow> ClassT \<Rightarrow> Type \<Rightarrow> bool \<Rightarrow> (string \<times> TypedDictEntry) list \<Rightarrow> Type" where
  "createUpdateMethod env node classType strClass allEntriesAreReadOnly entries =
     (let updateMethod1 =
            setDeclaredReturnType (getNoneType env)
              (addPositionOnlyParameterSeparator
                 (addParameter
                    (simpleParam ''__m''
                       (if allEntriesAreReadOnly then NeverType
                        else ClassType (cloneAsInstance (cloneForPartialTypedDict classType))) False)
                    (addParameter (selfParam classType)
                       (createSynthesizedInstance ''update'' Overloaded))));
          writable = filter (\<lambda>(name, entry). \<not> isReadOnly entry) entries;
          tupleClass = getBuiltInType env node ''tuple'';
          tuplesToCombine =
            (case (tupleClass, strClass) of
               (Some (ClassType tc), ClassType sc) \<Rightarrow>
                 if instantiableFlag tc \<and> instantiableFlag sc then
                   map (\<lambda>(name, entry).
                          ClassType (specializeTupleClass env (cloneAsInstance tc)
                            [(ClassType (cloneWithLiteral (cloneAsInstance sc) name), False),
                             (valueType entry, False)] True)) writable
                 else []
             | _ \<Rightarrow> []);
          updateMethod3 =
            foldl (\<lambda>f (name, entry).
                     addParameter (FunctionParameter ParamSimple (Some name) (valueType entry) True True
                                     (Some (AnyType True))) f)
              (setDeclaredReturnType (getNoneType env)
                 (addKeywordOnlyParameterSeparator
                    (addParameter (selfParam classType)
                       (createSynthesizedInstance ''update'' Overloaded))))
              writable;
          updateMethod2base =
            setDeclaredReturnType (getNoneType env)
              (addParameter (selfParam classType) (createSynthesizedInstance ''update'' Overloaded));
          updateMethod2 =
            addPositionOnlyParameterSeparator
              (case getTypingType env node ''Iterable'' of
                 Some (ClassType iterableClass) \<Rightarrow>
                   if instantiableFlag iterableClass then
                     addParameter
                       (simpleParam ''__m''
                          (ClassType (cloneForSpecialization (cloneAsInstance iterableClass)
                             (Some [combineTypes env tuplesToCombine]) True)) False)
                       updateMethod2base
                   else updateMethod2base
               | _ \<Rightarrow> updateMethod2base)
      in OverloadedFunctionType [updateMethod2, updateMethod1, updateMethod3])"

definition entryAccessorOverloads ::
  "Env \<Rightarrow> Store \<Rightarrow> ParseNode \<Rightarrow> ClassT \<Rightarrow> ClassT \<Rightarrow>
     FunctionT list \<times> FunctionT list \<times> FunctionT list \<Rightarrow> string \<times> TypedDictEntry \<Rightarrow>
     FunctionT list \<times> FunctionT list \<times> FunctionT list" where
  "entryAccessorOverloads env st node classType strClass acc ne =
     (case acc of (getOverloads, popOverloads, setDefaultOverloads) \<Rightarrow>
      case ne of (name, entry) \<Rightarrow>
        (let keyType = nameLiteralType strClass name in
         (getOverloads @
            [createGetMethod env st node classType keyType (valueType entry) False (isRequired entry)
               False,
             createGetMethod env st node classType keyType (valueType entry) True (isRequired entry)
               (isRequired entry)],
          (if \<not> isRequired entry \<and> \<not> isReadOnly entry
           then popOverloads @
                  createPopMethods env st node classType keyType (valueType entry) (isRequired entry)
           else popOverloads),
          (if \<not> isReadOnly entry
           then setDefaultOverloads @ [createSetDefaultMethod classType keyType (valueType entry)]
           else setDefaultOverloads))))"

text \<open>
  The calls of \<open>symbolTable.set\<close> that \<open>synthesizeTypedDictClassMethods\<close> makes, in
  order, for the entries of the class: the constructor methods; inside the test that
  \<open>str\<close> is an instantiable class, the accessor methods from \<open>get\<close> to
  \<open>update\<close>; and last \<open>clear\<close> and \<open>popitem\<close>.
\<close>

definition constructorMembers ::
  "Env \<Rightarrow> ClassT \<Rightarrow> (string \<times> TypedDictEntry) list \<Rightarrow> (string \<times> Symbol) list" where
  "constructorMembers env classType entries =
     (let newType =
            setDeclaredReturnType (ClassType (cloneAsInstance classType))
              (addDefaultParameters
                 (addParameter (simpleParam ''cls'' (ClassType classType) False)
                    (createSynthesizedInstance ''__new__'' ConstructorMethod)));
          initOverride1 =
            foldl (\<lambda>f (name, entry). addParameter (simpleParam name (valueType entry) True) f)
              (addKeywordOnlyParameterSeparator
                 (addPositionOnlyParameterSeparator
                    (addParameter (simpleParam ''__map'' (ClassType (cloneAsInstance classType)) False)
                       (setDeclaredReturnType (getNoneType env)
                          (addParameter (selfParam classType)
                             (createSynthesizedInstance ''__init__'' Overloaded))))))
              entries;
          initOverride2 =
            foldl (\<lambda>f (name, entry).
                     addParameter (simpleParam name (valueType entry) (\<not> isRequired entry)) f)
              (addKeywordOnlyParameterSeparator
                 (setDeclaredReturnType (getNoneType env)
                    (addParameter (selfParam classType)
                       (createSynthesizedInstance ''__init__'' Overloaded))))
              entries
      in [(''__init__'', createWithType (OverloadedFunctionType [initOverride1, initOverride2])),
          (''__new__'', createWithType (FunctionType newType))])"

definition accessorMembers ::
  "Env \<Rightarrow> Store \<Rightarrow> ParseNode \<Rightarrow> ClassT \<Rightarrow> ClassT \<Rightarrow> bool \<Rightarrow> bool \<Rightarrow>
     (string \<times> TypedDictEntry) list \<Rightarrow> (string \<times> Symbol) list" where
  "accessorMembers env st node classType strClass isClassFinal allEntriesAreReadOnly entries =
     (case foldl (entryAccessorOverloads env st node classType strClass) ([], [], []) entries of
        (getOverloads0, popOverloads, setDefaultOverloads) \<Rightarrow>
          (let getOverloads1 =
                 (if isClassFinal then
                    (case getTypingType env node ''LiteralString'' of
                       Some (ClassType literalStringType) \<Rightarrow>
                         if instantiableFlag literalStringType then
                           getOverloads0 @
                             [createGetMethod env st node classType
                                (ClassType (cloneAsInstance literalStringType))
                                (getNoneType env) False True False,
                              createGetMethod env st node classType
                                (ClassType (cloneAsInstance literalStringType))
                                (AnyType False) True False False]
                         else getOverloads0
                     | _ \<Rightarrow> getOverloads0)
                  else getOverloads0);
               strType = ClassType (cloneAsInstance strClass);
               getOverloads =
                 getOverloads1 @
                   [createGetMethod env st node classType strType (AnyType False) False
                      False False,
                    createGetMethod env st node classType strType (AnyType False) True
                      False False]
           in [(''get'', createWithType (OverloadedFunctionType getOverloads))] @
              (if popOverloads \<noteq> []
               then [(''pop'', createWithType (OverloadedFunctionType popOverloads))]
               else []) @
              (if setDefaultOverloads \<noteq> []
               then [(''setdefault'',
                      createWithType (OverloadedFunctionType setDefaultOverloads))]
               else []) @
              (if \<not> allEntriesAreReadOnly
               then [(''__delitem__'',
                      createWithType (FunctionType (createDelItemMethod env classType strType)))]
               else []) @
              [(''update'',
                createWithType (createUpdateMethod env node classType (ClassType strClass)
                   allEntriesAreReadOnly entries))]))"

definition clearAndPopItemMembers :: "Env \<Rightarrow> ClassT \<Rightarrow> Type \<Rightarrow> (string \<times> Symbol) list" where
  "clearAndPopItemMembers env classType strType =
     [(''clear'',
       createWithType (FunctionType
         (setDeclaredReturnType (getNoneType env)
            (addParameter (selfParam classType)
               (createSynthesizedInstance ''clear'' NoFunctionFlags))))),
      (''popitem'',
       createWithType (FunctionType
         (setDeclaredReturnType
            (case getTupleClassType env of
               Some (ClassType tupleType) \<Rightarrow>
                 if instantiableFlag tupleType then
                   ClassType (specializeTupleClass env (cloneAsInstance tupleType)
                     [(strType, False), (UnknownType, False)] True)
                 else UnknownType
             | _ \<Rightarrow> UnknownType)
            (addParameter (selfParam classType)
               (createSynthesizedInstance ''popitem'' NoFunctionFlags)))))]"

definition synthesizedMembers ::
  "Env \<Rightarrow> Store \<Rightarrow> ParseNode \<Rightarrow> ClassT \<Rightarrow> bool \<Rightarrow> (string \<times> TypedDictEntry) list \<Rightarrow>
     (string \<times> Symbol) list" where
  "synthesizedMembers env st node classType isClassFinal entries =
     (let allEntriesAreNotRequired = list_all (\<lambda>(name, entry). \<not> isRequired entry) entries;
          allEntriesAreReadOnly = list_all (\<lambda>(name, entry). isReadOnly entry) entries
      in constructorMembers env classType entries @
         (case getBuiltInType env node ''str'' of
            Some (ClassType strClass) \<Rightarrow>
              if instantiableFlag strClass then
                accessorMembers env st node classType strClass isClassFinal
                  allEntriesAreReadOnly entries @
                (if isClassFinal \<and> allEntriesAreNotRequired \<and> \<not> allEntriesAreReadOnly
                 then clearAndPopItemMembers env classType
                        (ClassType (cloneAsInstance strClass))
                 else [])
              else []
          | _ \<Rightarrow> []))"

definition synthesizeTypedDictClassMethods ::
  "Env \<Rightarrow> Store \<Rightarrow> ParseNode \<Rightarrow> ClassT \<Rightarrow> bool \<Rightarrow> error + Store" where
  "synthesizeTypedDictClassMethods env st node classType isClassFinal =
     (if \<not> isTypedDictClass st classType then Inl AssertionFailed
      else case getTypedDictMembersForClass env st classType False of
        Inl e \<Rightarrow> Inl e
      | Inr (entries, st1) \<Rightarrow>
          Inr (st1\<lparr> classDetails := (classDetails st1)
                 (details classType :=
                    (classDetails st1 (details classType))
                      \<lparr> classFields :=
                          foldl (\<lambda>symbolTable (name, symbol). mapSet symbolTable name symbol)
                            (classFields (classDetails st1 (details classType)))
                            (synthesizedMembers env st1 node classType isClassFinal
                               (map (\<lambda>(name, ref). (name, entryHeap st1 ref)) entries)) \<rparr>) \<rparr>))"

section \<open>Sample data\<close>

text \<open>
  Concrete inputs on which the theorems below are instantiated.
\<close>

definition isDigit :: "char \<Rightarrow> bool" where
  "isDigit c = (c \<in> set ''0123456789'')"

text \<open>
  Modelled from the spec: \<open>sampleHash\<close> is \<open>hashString\<close> of stringUtils.ts, which the
  diagnostic sink imports and which is not among the sources at hand. It runs over the
  characters with \<open>hash = ((hash << 5) - hash + charCode) | 0\<close>, that is 31 times the
  hash plus the character code, wrapped to signed 32 bits. It is used in closed examples
  only; the general theorems hold for every hash function. The messages \<open>Aa\<close> and
  \<open>BB\<close> have the same hash, 2112.
\<close>

definition sampleHash :: "string \<Rightarrow> int" where
  "sampleHash s = foldl (\<lambda>h c. (h * 31 + of_char c + 2147483648) mod 4294967296 - 2147483648) 0 s"

definition sampleDiagA :: Diagnostic where
  "sampleDiagA = \<lparr> category = CatError, message = ''a'',
     range' = \<lparr> rangeStart = \<lparr> line = 0, character = 0 \<rparr>, rangeEnd = \<lparr> line = 0, character = 1 \<rparr> \<rparr> \<rparr>"

definition sampleDiagB :: Diagnostic where
  "sampleDiagB = \<lparr> category = CatWarning, message = ''b'',
     range' = \<lparr> rangeStart = \<lparr> line = 1, character = 0 \<rparr>, rangeEnd = \<lparr> line = 1, character = 12 \<rparr> \<rparr> \<rparr>"

definition sampleDiagAa :: Diagnostic where
  "sampleDiagAa = \<lparr> category = CatError, message = ''Aa'',
     range' = \<lparr> rangeStart = \<lparr> line = 2, character = 0 \<rparr>, rangeEnd = \<lparr> line = 2, character = 5 \<rparr> \<rparr> \<rparr>"

definition sampleDiagBB :: Diagnostic where
  "sampleDiagBB = \<lparr> category = CatError, message = ''BB'',
     range' = \<lparr> rangeStart = \<lparr> line = 2, character = 0 \<rparr>, rangeEnd = \<lparr> line = 2, character = 5 \<rparr> \<rparr> \<rparr>"

definition selfUnionGraph :: TypeGraph where
  "selfUnionGraph h =
     (if h = 0 then \<lparr> typeAliasInfo = None, shape = UnionShape [0, 1] \<rparr>
      else \<lparr> typeAliasInfo = None, shape = TypeVarShape \<rparr>)"

text \<open>
  A sample evaluator and a sample store. Class 1 is the TypedDict \<open>Point\<close> of the
  specification's example: \<open>x: int\<close>, \<open>y: ReadOnly[int]\<close>,
  \<open>label: NotRequired[str]\<close>. Class 8 is \<open>Movie\<close>, declared with
  \<open>total=False\<close>: \<open>title: Required[int]\<close>, \<open>year: int\<close>. Classes 9 to 12 are
  \<open>XY\<close> (\<open>x: int\<close>, \<open>y: ReadOnly[int]\<close>), \<open>View\<close>
  (\<open>x: ReadOnly[int]\<close>, \<open>tag: ReadOnly[NotRequired[object]]\<close>), \<open>BoolXY\<close>
  (\<open>x: bool\<close>, \<open>y: ReadOnly[bool]\<close>, with \<open>bool\<close> a strict subtype of
  \<open>int\<close>) and \<open>Options\<close> (\<open>a: NotRequired[str]\<close>,
  \<open>b: ReadOnly[NotRequired[object]]\<close>). Class 13 is \<open>Derived\<close>
  (\<open>title: NotRequired[str]\<close>) with the base classes 14, \<open>BaseOpt\<close>, declared with
  \<open>total=False\<close> (\<open>year: int\<close>, \<open>tag: int\<close>), and 15, \<open>BaseTot\<close>
  (\<open>year: int\<close>), in this order. The annotation nodes are numbered;
  \<open>sampleAnnotation\<close> is what the evaluator makes of each.
\<close>

definition classOf :: "detailsRef \<Rightarrow> bool \<Rightarrow> ClassT" where
  "classOf r inst = ClassT r (\<not> inst) inst None False None None False None"

definition pointClass :: ClassT where "pointClass = classOf 1 False"
definition pointInstance :: ClassT where "pointInstance = classOf 1 True"
definition movieInstance :: ClassT where "movieInstance = classOf 8 True"
definition xyInstance :: ClassT where "xyInstance = classOf 9 True"
definition viewInstance :: ClassT where "viewInstance = classOf 10 True"
definition boolXYInstance :: ClassT where "boolXYInstance = classOf 11 True"
definition optionsClass :: ClassT where "optionsClass = classOf 12 False"
definition derivedInstance :: ClassT where "derivedInstance = classOf 13 True"
definition baseOptClass :: ClassT where "baseOptClass = classOf 14 False"
definition baseTotClass :: ClassT where "baseTotClass = classOf 15 False"
definition sampleStrClass :: ClassT where "sampleStrClass = classOf 2 False"
definition strInstance :: Type where "strInstance = ClassType (classOf 2 True)"
definition intInstance :: Type where "intInstance = ClassType (classOf 3 True)"
definition boolInstance :: Type where "boolInstance = ClassType (classOf 4 True)"
definition objectInstance :: Type where "objectInstance = ClassType (classOf 5 True)"
definition noneInstance :: Type where "noneInstance = ClassType (classOf 6 True)"
definition sampleTupleClass :: ClassT where "sampleTupleClass = classOf 7 False"

definition strLiteral :: "string \<Rightarrow> Type" where
  "strLiteral v = ClassType (cloneWithLiteral (classOf 2 True) v)"

definition sampleAssignable :: "Type \<Rightarrow> Type \<Rightarrow> AssignTypeFlag set \<Rightarrow> bool" where
  "sampleAssignable destType srcType flags =
     (destType = srcType \<or>
      (EnforceInvariance \<notin> flags \<and>
         (destType = objectInstance \<or> (destType = intInstance \<and> srcType = boolInstance))))"

definition sampleAnnotation :: "ParseNode \<Rightarrow> TypeResult" where
  "sampleAnnotation node =
     \<lparr> resultType =
         (if node = 12 then strInstance else if node = 14 then objectInstance
          else if node = 15 \<or> node = 16 then boolInstance else intInstance),
       resultIsIncomplete = False,
       resultIsReadOnly = (node = 11 \<or> node = 14 \<or> node = 16),
       resultIsRequired = (node = 13),
       resultIsNotRequired = (node = 12 \<or> node = 14) \<rparr>"

definition sampleExpression :: "ParseNode \<Rightarrow> TypeResult" where
  "sampleExpression node =
     \<lparr> resultType = (if node = 20 then strLiteral ''label'' else if node = 21 then strLiteral ''y''
                     else strInstance),
       resultIsIncomplete = False, resultIsReadOnly = False, resultIsRequired = False,
       resultIsNotRequired = False \<rparr>"

definition samplePrintType :: "Type \<Rightarrow> string" where
  "samplePrintType t =
     (case t of
        ClassType c \<Rightarrow>
          (if details c = 1 then ''Point'' else if details c = 2 then ''str''
           else if details c = 3 then ''int'' else if details c = 4 then ''bool''
           else if details c = 5 then ''object'' else ''class'')
      | _ \<Rightarrow> ''type'')"

definition sampleEnv :: Env where
  "sampleEnv =
     \<lparr> maxTypeRecursionCount = 16,
       assignType = (\<lambda>destType srcType diag ctx flags recursionCount.
          (sampleAssignable destType srcType flags, diag, ctx)),
       printType = samplePrintType,
       getObjectType = objectInstance,
       getNoneType = noneInstance,
       getTupleClassType = Some (ClassType sampleTupleClass),
       getBuiltInType = (\<lambda>node name.
          if name = ''str'' then Some (ClassType sampleStrClass)
          else if name = ''tuple'' then Some (ClassType sampleTupleClass) else None),
       getTypingType = (\<lambda>node name. None),
       getEffectiveTypeOfSymbol = (\<lambda>symbol.
          case declarations symbol of
            [] \<Rightarrow> UnknownType
          | d # ds \<Rightarrow> (case typeAnnotationNode (last (d # ds)) of
                        Some node \<Rightarrow> resultType (sampleAnnotation node)
                      | None \<Rightarrow> UnknownType)),
       getTypeOfExpression = sampleExpression,
       getTypeOfExpressionExpectingType = sampleAnnotation,
       getLastTypedDeclaredForSymbol = (\<lambda>symbol.
          case declarations symbol of [] \<Rightarrow> None | d # ds \<Rightarrow> Some (last (d # ds))),
       applySolvedTypeVars = (\<lambda>t ctx. t),
       buildTypeVarContextFromSpecializedClass = (\<lambda>c. TypeVarContext None []),
       partiallySpecializeType = (\<lambda>t c. t),
       getTypeVarScopeId = (\<lambda>c. None),
       combineTypes = (\<lambda>ts. case ts of [t] \<Rightarrow> t | _ \<Rightarrow> UnionType ts),
       specializeTupleClass = (\<lambda>c args explicit.
          ClassT (details c) (instantiableFlag c) (instanceFlag c) (typeArguments c) explicit
            (Some args) (literalValue c) (isTypedDictPartial c) (typedDictNarrowedEntries c)),
       isWithinTryBlock = (\<lambda>node. False),
       getScopeIdForNode = (\<lambda>node. ''scope''),
       addendumIsEmpty = (\<lambda>d. messages d = [] \<and> childAddenda d = []),
       addendumGetString = (\<lambda>d. '''') \<rparr>"

definition variableSymbol :: "ParseNode list \<Rightarrow> Symbol" where
  "variableSymbol annotations =
     \<lparr> isClassMember = False, isInstanceMember = True, isIgnoredForProtocolMatch = False,
       declarations = map (\<lambda>node. \<lparr> declType = DeclVariable, typeAnnotationNode = Some node \<rparr>)
                        annotations,
       synthesizedType = None \<rparr>"

definition sampleFields :: "detailsRef \<Rightarrow> (string \<times> Symbol) list" where
  "sampleFields r =
     (if r = 1 then [(''x'', variableSymbol [10]), (''y'', variableSymbol [11]),
                     (''label'', variableSymbol [12])]
      else if r = 8 then [(''title'', variableSymbol [13]), (''year'', variableSymbol [10])]
      else if r = 9 then [(''x'', variableSymbol [10]), (''y'', variableSymbol [11])]
      else if r = 10 then [(''x'', variableSymbol [11]), (''tag'', variableSymbol [14])]
      else if r = 11 then [(''x'', variableSymbol [15]), (''y'', variableSymbol [16])]
      else if r = 12 then [(''a'', variableSymbol [12]), (''b'', variableSymbol [14])]
      else if r = 13 then [(''title'', variableSymbol [12])]
      else if r = 14 then [(''year'', variableSymbol [10]), (''tag'', variableSymbol [10])]
      else if r = 15 then [(''year'', variableSymbol [10])]
      else [])"

definition sampleDetails :: "detailsRef \<Rightarrow> ClassDetails" where
  "sampleDetails r =
     \<lparr> className =
         (if r = 1 then ''Point'' else if r = 2 then ''str'' else if r = 8 then ''Movie''
          else if r = 9 then ''XY'' else if r = 10 then ''View'' else if r = 11 then ''BoolXY''
          else if r = 12 then ''Options'' else if r = 13 then ''Derived''
          else if r = 14 then ''BaseOpt'' else if r = 15 then ''BaseTot'' else ''builtin''),
       builtInClassFlag = (r \<notin> {1, 8, 9, 10, 11, 12, 13, 14, 15}),
       typedDictClassFlag = (r \<in> {1, 8, 9, 10, 11, 12, 13, 14, 15}),
       canOmitDictValuesFlag = (r = 8 \<or> r = 14),
       baseClasses = (if r = 13 then [ClassType (classOf 14 False), ClassType (classOf 15 False)]
                      else []),
       classFields = sampleFields r,
       typeParameters = [],
       typedDictEntries = None \<rparr>"

definition sampleStore :: Store where
  "sampleStore =
     \<lparr> entryHeap = (\<lambda>a. \<lparr> valueType = UnknownType, isReadOnly = False, isRequired = False,
                          isProvided = False \<rparr>),
       nextEntry = 0,
       classDetails = sampleDetails,
       reported = [] \<rparr>"

definition sampleEntry :: "Type \<Rightarrow> bool \<Rightarrow> bool \<Rightarrow> bool \<Rightarrow> TypedDictEntry" where
  "sampleEntry t readOnly required provided =
     \<lparr> valueType = t, isReadOnly = readOnly, isRequired = required, isProvided = provided \<rparr>"

definition storeWith ::
  "TypedDictEntry list \<Rightarrow> (detailsRef \<Rightarrow> (string \<times> entryRef) list option) \<Rightarrow> Store" where
  "storeWith es caches =
     \<lparr> entryHeap = (\<lambda>a. if a < length es then es ! a else entryHeap sampleStore a),
       nextEntry = length es,
       classDetails = (\<lambda>r. (sampleDetails r)\<lparr> typedDictEntries := caches r \<rparr>),
       reported = [] \<rparr>"

definition pointEntries :: "(string \<times> entryRef) list" where
  "pointEntries = [(''x'', 0), (''y'', 1), (''label'', 2)]"

definition resolvedStore :: Store where
  "resolvedStore =
     storeWith [sampleEntry intInstance False True False, sampleEntry intInstance True True False,
                sampleEntry strInstance False False False]
       (\<lambda>r. if r = 1 then Some pointEntries else None)"

definition optionsStore1 :: Store where
  "optionsStore1 =
     storeWith [sampleEntry strInstance False False False,
                sampleEntry objectInstance True False False,
                sampleEntry strInstance False False False,
                sampleEntry objectInstance True False False]
       (\<lambda>r. if r = 12 then Some [(''a'', 0), (''b'', 1)] else None)"

definition optionsStore2 :: Store where
  "optionsStore2 =
     storeWith [sampleEntry strInstance False False False,
                sampleEntry objectInstance True False False,
                sampleEntry strInstance False False False,
                sampleEntry objectInstance True False False,
                sampleEntry intInstance False True False, sampleEntry intInstance True True False,
                sampleEntry intInstance False True False, sampleEntry intInstance True True False]
       (\<lambda>r. if r = 12 then Some [(''a'', 0), (''b'', 1)]
            else if r = 9 then Some [(''x'', 4), (''y'', 5)] else None)"

definition xyStore1 :: Store where
  "xyStore1 =
     storeWith [sampleEntry intInstance False True False, sampleEntry intInstance True True False,
                sampleEntry intInstance False True False, sampleEntry intInstance True True False]
       (\<lambda>r. if r = 9 then Some [(''x'', 0), (''y'', 1)] else None)"

definition xyStore2 :: Store where
  "xyStore2 =
     storeWith [sampleEntry intInstance False True False, sampleEntry intInstance True True False,
                sampleEntry intInstance False True False, sampleEntry intInstance True True False,
                sampleEntry boolInstance False True False, sampleEntry boolInstance True True False,
                sampleEntry boolInstance False True False, sampleEntry boolInstance True True False]
       (\<lambda>r. if r = 9 then Some [(''x'', 0), (''y'', 1)]
            else if r = 11 then Some [(''x'', 4), (''y'', 5)] else None)"

definition movieStore :: Store where
  "movieStore =
     storeWith [sampleEntry intInstance False True False, sampleEntry intInstance False False False]
       (\<lambda>r. None)"

definition derivedStore :: Store where
  "derivedStore =
     storeWith [sampleEntry intInstance False False False, sampleEntry intInstance False False False,
                sampleEntry intInstance False True False, sampleEntry strInstance False False False]
       (\<lambda>r. None)"

text \<open>
  Keys and values for constructing a \<open>Point\<close>, and the store after
  \<open>{"x": int, "y": int, "label": str}\<close> has been checked against the resolved
  \<open>Point\<close>: the entries 3 to 5 are the copies made for the check, entry 6 is the
  narrowed entry of \<open>label\<close>.
\<close>

definition sampleResult :: "Type \<Rightarrow> ParseNode \<Rightarrow> TypeResultWithNode" where
  "sampleResult t node =
     \<lparr> resultType = t, resultIsIncomplete = False, resultIsReadOnly = False,
       resultIsRequired = False, resultIsNotRequired = False, resultNodeW = node \<rparr>"

definition pointStore :: Store where
  "pointStore =
     storeWith [sampleEntry intInstance False True False, sampleEntry intInstance True True False,
                sampleEntry strInstance False False False,
                sampleEntry intInstance False True True, sampleEntry intInstance True True True,
                sampleEntry strInstance False False True,
                sampleEntry strInstance False False True]
       (\<lambda>r. if r = 1 then Some pointEntries else None)"

definition pointCopies :: Store where
  "pointCopies =
     storeWith [sampleEntry intInstance False True False, sampleEntry intInstance True True False,
                sampleEntry strInstance False False False,
                sampleEntry intInstance False True False, sampleEntry intInstance True True False,
                sampleEntry strInstance False False False]
       (\<lambda>r. if r = 1 then Some pointEntries else None)"

text \<open>
  An index node over the sample expressions (node 20 is the literal \<open>"label"\<close>, node
  21 the literal \<open>"y"\<close>), and the usage of a read access.
\<close>

definition sampleIndexNode :: "ArgumentNode list \<Rightarrow> bool \<Rightarrow> IndexNode" where
  "sampleIndexNode args comma = \<lparr> indexNodeId = 30, items = args, trailingComma = comma \<rparr>"

definition sampleArgument :: "ParseNode \<Rightarrow> ArgumentNode" where
  "sampleArgument expr =
     \<lparr> argumentName = None, argumentCategory = ArgSimple, valueExpression = expr \<rparr>"

definition getUsage :: EvaluatorUsage where
  "getUsage = \<lparr> usageMethod = UsageGet, setType = None, setExpectedTypeDiag = None \<rparr>"

section \<open>Definitions for the statements\<close>

text \<open>
  \<open>allocOnly\<close>: the second store differs from the first by newly allocated entries
  only. \<open>requirednessOf\<close> is the rule of the specification for the required flag of a
  field; \<open>entryExplained\<close> says that an entry comes from a declared field by that rule.
\<close>

definition allocOnly :: "Store \<Rightarrow> Store \<Rightarrow> bool" where
  "allocOnly st st' \<longleftrightarrow>
     nextEntry st \<le> nextEntry st' \<and>
     (\<forall>a < nextEntry st. entryHeap st' a = entryHeap st a) \<and>
     classDetails st' = classDetails st \<and> reported st' = reported st"

definition requirednessOf :: "Env \<Rightarrow> bool \<Rightarrow> Symbol \<Rightarrow> bool" where
  "requirednessOf env canOmit symbol =
     (if isRequiredTypedDictVariable env symbol then True
      else if isNotRequiredTypedDictVariable env symbol then False
      else \<not> canOmit)"

definition eligibleField :: "Env \<Rightarrow> Symbol \<Rightarrow> bool" where
  "eligibleField env symbol \<longleftrightarrow>
     \<not> isIgnoredForProtocolMatch symbol \<and>
     (case getLastTypedDeclaredForSymbol env symbol of
        None \<Rightarrow> False | Some lastDecl \<Rightarrow> declType lastDecl = DeclVariable)"

definition entryExplained :: "Env \<Rightarrow> Store \<Rightarrow> string \<times> entryRef \<Rightarrow> bool" where
  "entryExplained env st kv \<longleftrightarrow>
     (case kv of (name, ref) \<Rightarrow>
        ref < nextEntry st \<and> \<not> isProvided (entryHeap st ref) \<and>
        (\<exists>owner symbol.
           (name, symbol) \<in> set (classFields (classDetails st (details owner))) \<and>
           eligibleField env symbol \<and>
           isRequired (entryHeap st ref) =
             requirednessOf env (isCanOmitDictValues st owner) symbol \<and>
           isReadOnly (entryHeap st ref) = isReadOnlyTypedDictVariable env symbol))"

text \<open>
  \<open>resolutionOrder\<close> lists the classes in the order in which entry resolution visits
  their fields: the base classes in base-class order, each after its own base classes, and
  then the class itself; a class beyond the recursion limit is not visited. A later class
  overwrites the entry of an earlier one, and so does a later field of the same name.
  \<open>declaredIn\<close> are the declarations of a name in a class that resolution uses,
  \<open>owningDeclaration\<close> is the last declaration of the name in resolution order: the
  owning class of the field together with the field's symbol. \<open>entryFrom\<close> says that
  an entry has the flags that its declaration gives it, and \<open>written\<close> relates the
  table before and after a part of the resolution that visits the given declarations.
\<close>

function resolutionOrder :: "Env \<Rightarrow> Store \<Rightarrow> ClassT \<Rightarrow> nat \<Rightarrow> ClassT list"
and baseResolutionOrder :: "Env \<Rightarrow> Store \<Rightarrow> ClassT \<Rightarrow> Type list \<Rightarrow> nat \<Rightarrow> ClassT list"
where
  "resolutionOrder env st classType recursionCount =
     (if recursionCount > maxTypeRecursionCount env then []
      else baseResolutionOrder env st classType
             (baseClasses (classDetails st (details classType))) (recursionCount + 1) @
           [classType])"
| "baseResolutionOrder env st classType [] recursionCount = []"
| "baseResolutionOrder env st classType (baseClassType # rest) recursionCount =
     (if isInstantiableClass baseClassType \<and> isTypedDictClassType st baseClassType then
        (case classOfType (partiallySpecializeType env baseClassType classType) of
           Some specializedBaseClassType \<Rightarrow>
             resolutionOrder env st specializedBaseClassType recursionCount
         | None \<Rightarrow> [])
      else []) @
     baseResolutionOrder env st classType rest recursionCount"
  by pat_completeness auto
termination
  by (relation "inv_image (less_than <*lex*> less_than)
        (\<lambda>x. case x of
            Inl (env, st, classType, recursionCount) \<Rightarrow>
              (Suc (maxTypeRecursionCount env) - recursionCount, 0)
          | Inr (env, st, classType, bases, recursionCount) \<Rightarrow>
              (Suc (maxTypeRecursionCount env) - recursionCount, Suc (length bases)))") auto

declare resolutionOrder.simps [simp del]

definition declaredIn :: "Env \<Rightarrow> Store \<Rightarrow> string \<Rightarrow> ClassT \<Rightarrow> (ClassT \<times> Symbol) list" where
  "declaredIn env st name c =
     map (\<lambda>(n, symbol). (c, symbol))
       (filter (\<lambda>(n, symbol). n = name \<and> eligibleField env symbol)
          (classFields (classDetails st (details c))))"

definition owningDeclaration ::
  "Env \<Rightarrow> Store \<Rightarrow> ClassT \<Rightarrow> string \<Rightarrow> (ClassT \<times> Symbol) option" where
  "owningDeclaration env st classType name =
     (case concat (map (declaredIn env st name) (resolutionOrder env st classType 0)) of
        [] \<Rightarrow> None
      | d # ds \<Rightarrow> Some (last (d # ds)))"

definition entryFrom :: "Env \<Rightarrow> Store \<Rightarrow> ClassT \<times> Symbol \<Rightarrow> TypedDictEntry \<Rightarrow> bool" where
  "entryFrom env st d e \<longleftrightarrow>
     (case d of (owner, symbol) \<Rightarrow>
        isRequired e = requirednessOf env (isCanOmitDictValues st owner) symbol \<and>
        isReadOnly e = isReadOnlyTypedDictVariable env symbol \<and> \<not> isProvided e)"

definition written ::
  "Env \<Rightarrow> Store \<Rightarrow> (string \<Rightarrow> (ClassT \<times> Symbol) list) \<Rightarrow> (string \<times> entryRef) list \<Rightarrow>
     (string \<times> entryRef) list \<Rightarrow> Store \<Rightarrow> bool" where
  "written env st decls km km' st' \<longleftrightarrow>
     (\<forall>name. case decls name of
        [] \<Rightarrow> mapGet km' name = mapGet km name
      | d # ds \<Rightarrow>
          (\<exists>ref. mapGet km' name = Some ref \<and> ref < nextEntry st' \<and>
             entryFrom env st (last (d # ds)) (entryHeap st' ref)))"

definition stepInvariant ::
  "Env \<Rightarrow> ((string \<times> entryRef) list \<Rightarrow> Store \<Rightarrow> bool) \<Rightarrow> bool" where
  "stepInvariant env P \<longleftrightarrow>
     (\<forall>c ctx km st f km' st'. P km st \<longrightarrow>
        f \<in> set (classFields (classDetails st (details c))) \<longrightarrow>
        addClassField env c ctx (km, st) f = (km', st') \<longrightarrow> P km' st')"

definition addendumExtends :: "DiagnosticAddendum \<Rightarrow> DiagnosticAddendum \<Rightarrow> bool" where
  "addendumExtends d d' \<longleftrightarrow>
     messages d' = messages d \<and> textRange d' = textRange d \<and>
     (\<exists>new. childAddenda d' = childAddenda d @ new)"

definition diagExtends :: "DiagnosticAddendum option \<Rightarrow> DiagnosticAddendum option \<Rightarrow> bool" where
  "diagExtends diag diag' \<longleftrightarrow>
     (case diag of None \<Rightarrow> diag' = None
      | Some d \<Rightarrow> (\<exists>d'. diag' = Some d' \<and> addendumExtends d d'))"

definition missingFieldAddendum :: "Env \<Rightarrow> ClassT \<Rightarrow> string \<Rightarrow> DiagnosticAddendum" where
  "missingFieldAddendum env srcType name =
     addMessage (TypedDictFieldMissing name (printType env (ClassType srcType))) emptyAddendum"

definition unknownResult :: TypeResult where
  "unknownResult =
     \<lparr> resultType = UnknownType, resultIsIncomplete = False, resultIsReadOnly = False,
       resultIsRequired = False, resultIsNotRequired = False \<rparr>"

text \<open>
  The statements about the cached table. \<open>cacheInv\<close>: every cached table holds, under
  distinct names, entry objects that exist and whose \<open>isProvided\<close> flag is false.
  \<open>storeKept\<close>: every entry object of the first store is unchanged in the second, and
  the details of a class are unchanged but for a cached table stored where there was none.
  \<open>tablesKept\<close>: every cached table of the first store is the cached table of the same
  class in the second, with the same entry objects. \<open>cachedRefs\<close> are the entry objects
  of the cached tables, and \<open>specializedCopy\<close> is the copy that the first loop of
  \<open>getTypedDictMembersForClass\<close> makes of a cached entry. \<open>keptExcept\<close> is the frame of
  a loop that writes to the entry objects \<open>R\<close> only.
\<close>

definition cacheInv :: "Store \<Rightarrow> bool" where
  "cacheInv st \<longleftrightarrow>
     (\<forall>d cached. typedDictEntries (classDetails st d) = Some cached \<longrightarrow>
        distinct (map fst cached) \<and>
        (\<forall>(name, ref) \<in> set cached. ref < nextEntry st \<and> \<not> isProvided (entryHeap st ref)))"

definition storeKept :: "Store \<Rightarrow> Store \<Rightarrow> bool" where
  "storeKept st st' \<longleftrightarrow>
     nextEntry st \<le> nextEntry st' \<and>
     (\<forall>a < nextEntry st. entryHeap st' a = entryHeap st a) \<and>
     (\<forall>d. classDetails st' d = classDetails st d \<or>
          (typedDictEntries (classDetails st d) = None \<and>
           (\<exists>cached. classDetails st' d =
              (classDetails st d)\<lparr> typedDictEntries := Some cached \<rparr>)))"

definition tablesKept :: "Store \<Rightarrow> Store \<Rightarrow> bool" where
  "tablesKept st st' \<longleftrightarrow>
     (\<forall>d cached. typedDictEntries (classDetails st d) = Some cached \<longrightarrow>
        typedDictEntries (classDetails st' d) = Some cached \<and>
        (\<forall>(name, ref) \<in> set cached. entryHeap st' ref = entryHeap st ref))"

definition cachedRefs :: "Store \<Rightarrow> entryRef set" where
  "cachedRefs st =
     {ref. \<exists>d cached name. typedDictEntries (classDetails st d) = Some cached \<and>
             (name, ref) \<in> set cached}"

definition specializedCopy :: "Env \<Rightarrow> ClassT \<Rightarrow> TypedDictEntry \<Rightarrow> TypedDictEntry" where
  "specializedCopy env classType value =
     (let tdEntry1 = value\<lparr> valueType := applySolvedTypeVars env (valueType value)
                             (buildTypeVarContextFromSpecializedClass env classType) \<rparr>
      in if isTypedDictPartial classType then
           (let e = tdEntry1\<lparr> isRequired := False \<rparr> in
            if isReadOnly e then e\<lparr> valueType := NeverType \<rparr> else e\<lparr> isReadOnly := True \<rparr>)
         else tdEntry1)"

definition keptExcept :: "entryRef set \<Rightarrow> Store \<Rightarrow> Store \<Rightarrow> bool" where
  "keptExcept R st st' \<longleftrightarrow>
     nextEntry st \<le> nextEntry st' \<and> classDetails st' = classDetails st \<and>
     reported st' = reported st \<and>
     (\<forall>a < nextEntry st. a \<notin> R \<longrightarrow> entryHeap st' a = entryHeap st a)"

text \<open>
  The statements about \<open>assignToTypedDict\<close>. \<open>keyLiteral\<close> is the name that a key
  type gives, if it is a string-literal type; \<open>unknownKeyAddendum\<close> and
  \<open>valueAddendum\<close> are the child addenda that the loop over the keys adds for an
  unknown key and for the value of a known key; \<open>keyStore\<close> is the store after the
  loop body has run for a known key.
\<close>

definition keyLiteral :: "Store \<Rightarrow> Type \<Rightarrow> string option" where
  "keyLiteral st keyType =
     (case keyType of
        ClassType c \<Rightarrow>
          if instanceFlag c \<and> isBuiltIn st c ''str'' \<and> isLiteralType c
          then literalValue c else None
      | _ \<Rightarrow> None)"

definition unknownKeyAddendum :: "Env \<Rightarrow> ClassT \<Rightarrow> string \<Rightarrow> ParseNode \<Rightarrow> DiagnosticAddendum" where
  "unknownKeyAddendum env classType name node =
     addTextRange node (addMessage
       (TypedDictFieldUndefined name (printType env (ClassType (cloneAsInstance classType))))
       emptyAddendum)"

definition valueAddendum ::
  "Env \<Rightarrow> string \<Rightarrow> TypeResultWithNode \<Rightarrow> TypeResultWithNode \<Rightarrow> bool \<Rightarrow>
     DiagnosticAddendum option \<Rightarrow> DiagnosticAddendum" where
  "valueAddendum env name k v ok inner =
     (let subDiag0 = (case inner of Some i \<Rightarrow> addAddendum i emptyAddendum | None \<Rightarrow> emptyAddendum)
      in if ok then subDiag0
         else addTextRange (resultNodeW k) (addMessage
                (TypedDictFieldTypeMismatch name (printType env (resultType v))) subDiag0))"

definition keyStore :: "Store \<Rightarrow> entryRef \<Rightarrow> TypeResultWithNode \<Rightarrow> Store" where
  "keyStore s ref v =
     (let s1 = (if \<not> isRequired (entryHeap s ref) then
                  snd (allocEntry \<lparr> valueType = resultType v, isReadOnly = resultIsReadOnly v,
                                    isRequired = False, isProvided = True \<rparr> s)
                else s)
      in s1\<lparr> entryHeap := (entryHeap s1)(ref := (entryHeap s1 ref)\<lparr> isProvided := True \<rparr>) \<rparr>)"

text \<open>
  The specification of the loop over the keys, in its own words. Every key has one of
  four outcomes: it is not a string literal; it names no declared field; it names a
  field whose declared value type does not accept the value; it is accepted. The
  assignability of a value is the evaluator's \<open>assignType\<close> on the declared value type,
  with the type variable context passed on from key to key. \<open>keyChecks\<close> lists the
  outcome of every key together with the child addenda that the key contributes when an
  addendum is given. \<open>missingRequired\<close> are the messages for the required fields that no
  key names. \<open>genericClassOf\<close> and \<open>initialContext\<close> are the class whose entries are
  fetched and the context at the start of the loop.
\<close>

datatype KeyOutcome = NonLiteralKey | UnknownKey string | WrongValue string | Accepted string

definition isAccepted :: "KeyOutcome \<Rightarrow> bool" where
  "isAccepted outcome = (case outcome of Accepted name \<Rightarrow> True | _ \<Rightarrow> False)"

definition providedNames :: "KeyOutcome list \<Rightarrow> string set" where
  "providedNames outcomes = {name. Accepted name \<in> set outcomes \<or> WrongValue name \<in> set outcomes}"

fun keyChecks ::
  "Env \<Rightarrow> ClassT \<Rightarrow> Store \<Rightarrow> (string \<times> entryRef) list \<Rightarrow> bool \<Rightarrow> TypeVarContext option \<Rightarrow>
     (TypeResultWithNode \<times> TypeResultWithNode) list \<Rightarrow> (KeyOutcome \<times> DiagnosticAddendum list) list" where
  "keyChecks env classType st symbolMap hasDiag ctx [] = []"
| "keyChecks env classType st symbolMap hasDiag ctx ((k, v) # rest) =
     (case keyLiteral st (resultType k) of
        None \<Rightarrow> (NonLiteralKey, []) # keyChecks env classType st symbolMap hasDiag ctx rest
      | Some name \<Rightarrow>
          (case mapGet symbolMap name of
             None \<Rightarrow>
               (UnknownKey name, [unknownKeyAddendum env classType name (resultNodeW k)]) #
               keyChecks env classType st symbolMap hasDiag ctx rest
           | Some ref \<Rightarrow>
               (case callAssignType env (valueType (entryHeap st ref)) (resultType v)
                       (if hasDiag then Some emptyAddendum else None) ctx
                       {RetainLiteralsForTypeVar} 0 of
                  (ok, inner, ctx1) \<Rightarrow>
                    (if ok then Accepted name else WrongValue name,
                     [valueAddendum env name k v ok inner]) #
                    keyChecks env classType st symbolMap hasDiag ctx1 rest)))"

definition missingRequired ::
  "Env \<Rightarrow> ClassT \<Rightarrow> Store \<Rightarrow> (string \<times> entryRef) list \<Rightarrow> KeyOutcome list \<Rightarrow> AddendumMessage list" where
  "missingRequired env classType st symbolMap outcomes =
     map (\<lambda>(name, ref). TypedDictFieldRequired name (printType env (ClassType classType)))
       (filter (\<lambda>(name, ref). isRequired (entryHeap st ref) \<and> Accepted name \<notin> set outcomes)
          symbolMap)"

definition genericClassOf :: "Store \<Rightarrow> ClassT \<Rightarrow> ClassT" where
  "genericClassOf st classType =
     (if typeParameters (classDetails st (details classType)) \<noteq> [] \<and>
         typeArguments classType \<noteq> None
      then cloneForSpecialization classType None False else classType)"

definition initialContext :: "Env \<Rightarrow> Store \<Rightarrow> ClassT \<Rightarrow> TypeVarContext option" where
  "initialContext env st classType =
     (if typeParameters (classDetails st (details classType)) \<noteq> []
      then Some (TypeVarContext (getTypeVarScopeId env classType) []) else None)"

definition appendChildren :: "DiagnosticAddendum list \<Rightarrow> DiagnosticAddendum \<Rightarrow> DiagnosticAddendum" where
  "appendChildren children d =
     DiagnosticAddendum (messages d) (textRange d) (childAddenda d @ children)"

definition appendMessages :: "AddendumMessage list \<Rightarrow> DiagnosticAddendum \<Rightarrow> DiagnosticAddendum" where
  "appendMessages ms d = DiagnosticAddendum (messages d @ ms) (textRange d) (childAddenda d)"

text \<open>
  \<open>keyLoopSpec\<close> relates the state of the loop over the keys before and after the keys
  with the given checks: the match flag, the addendum with the children of the checks,
  the entry objects, of which only the \<open>isProvided\<close> flags of the named fields change,
  and the narrowed entries, which are new objects marked provided; a type variable
  context stays defined exactly when there was one.
\<close>

definition keyLoopSpec ::
  "(string \<times> entryRef) list \<Rightarrow> (KeyOutcome \<times> DiagnosticAddendum list) list \<Rightarrow>
     bool \<times> (string \<times> entryRef) list \<times> DiagnosticAddendum option \<times> TypeVarContext option \<times> Store \<Rightarrow>
     bool \<times> (string \<times> entryRef) list \<times> DiagnosticAddendum option \<times> TypeVarContext option \<times> Store \<Rightarrow>
     bool" where
  "keyLoopSpec symbolMap checks acc acc' \<longleftrightarrow>
     (case acc of (m, nar, dg, cx, s) \<Rightarrow>
      case acc' of (m', nar', dg', cx', s') \<Rightarrow>
        m' = (m \<and> list_all isAccepted (map fst checks)) \<and>
        dg' = map_option (appendChildren (concat (map snd checks))) dg \<and>
        nextEntry s \<le> nextEntry s' \<and> classDetails s' = classDetails s \<and>
        (\<forall>a < nextEntry s.
           entryHeap s' a =
             (entryHeap s a)\<lparr> isProvided := isProvided (entryHeap s a) \<or>
                (\<exists>name \<in> providedNames (map fst checks). mapGet symbolMap name = Some a) \<rparr>) \<and>
        fst ` set nar' =
          fst ` set nar \<union>
          {name \<in> providedNames (map fst checks).
             \<exists>ref. mapGet symbolMap name = Some ref \<and> \<not> isRequired (entryHeap s ref)} \<and>
        (\<forall>(name, ref) \<in> set nar'.
           (name, ref) \<in> set nar \<or>
           (nextEntry s \<le> ref \<and> ref < nextEntry s' \<and> isProvided (entryHeap s' ref) \<and>
            \<not> isRequired (entryHeap s' ref))) \<and>
        (cx' = None) = (cx = None))"

section \<open>The sample store\<close>

lemmas sample_defs =
  sampleEnv_def sampleStore_def sampleDetails_def sampleFields_def sampleAnnotation_def
  variableSymbol_def classOf_def pointInstance_def movieInstance_def xyInstance_def
  viewInstance_def boolXYInstance_def optionsClass_def derivedInstance_def baseOptClass_def
  baseTotClass_def intInstance_def strInstance_def
  boolInstance_def objectInstance_def sampleEntry_def storeWith_def

lemmas resolution_defs =
  getTypedDictMembersForClassRecursive.simps isTypedDictClass_def addClassField_def Let_def
  allocEntry_def isCanOmitDictValues_def isRequiredTypedDictVariable_def
  isNotRequiredTypedDictVariable_def isReadOnlyTypedDictVariable_def annotationHas_def mapSet_def

lemmas members_defs =
  getTypedDictMembersForClass_def ensureTypedDictEntries_def specializeEntry_def
  applyNarrowedEntry_def

lemma store_eqI:
  assumes "\<And>a. entryHeap s a = entryHeap t a" and "nextEntry s = nextEntry t"
    and "\<And>r. classDetails s r = classDetails t r" and "reported s = reported t"
  shows "s = (t :: Store)"
proof -
  from assms(1) have "entryHeap s = entryHeap t" by (simp add: fun_eq_iff)
  moreover from assms(3) have "classDetails s = classDetails t" by (simp add: fun_eq_iff)
  ultimately show ?thesis using assms(2,4) by simp
qed

lemma sample_resolution:
  "getTypedDictMembersForClassRecursive sampleEnv sampleStore pointInstance [] 0 =
     Inr (pointEntries, resolvedStore\<lparr> classDetails := sampleDetails \<rparr>)"
  by (simp add: resolution_defs sample_defs pointEntries_def resolvedStore_def)
     (auto simp: fun_eq_iff sample_defs nth_Cons' less_Suc_eq)

lemma movie_resolution:
  "getTypedDictMembersForClassRecursive sampleEnv sampleStore movieInstance [] 0 =
     Inr ([(''title'', 0), (''year'', 1)], movieStore)"
  by (simp add: resolution_defs sample_defs movieStore_def)
     (auto simp: fun_eq_iff sample_defs nth_Cons' less_Suc_eq)

lemma derived_resolution:
  "getTypedDictMembersForClassRecursive sampleEnv sampleStore derivedInstance [] 0 =
     Inr ([(''year'', 2), (''tag'', 1), (''title'', 3)], derivedStore)"
  by (simp add: resolution_defs sample_defs derivedStore_def derivedInstance_def
      isInstantiableClass_def isTypedDictClassType_def classOfType_def)
     (auto simp: fun_eq_iff sample_defs nth_Cons' less_Suc_eq)

lemma options_members:
  "getTypedDictMembersForClass sampleEnv sampleStore optionsClass False =
     Inr ([(''a'', 2), (''b'', 3)], optionsStore1)"
  by (simp add: members_defs resolution_defs sample_defs optionsStore1_def)
     (auto simp: fun_eq_iff sample_defs nth_Cons' less_Suc_eq)

lemma options_xy_members:
  "getTypedDictMembersForClass sampleEnv optionsStore1 xyInstance True =
     Inr ([(''x'', 6), (''y'', 7)], optionsStore2)"
  by (simp add: members_defs resolution_defs sample_defs optionsStore1_def optionsStore2_def)
     (auto simp: fun_eq_iff sample_defs nth_Cons' less_Suc_eq)

lemma xy_members:
  "getTypedDictMembersForClass sampleEnv sampleStore xyInstance False =
     Inr ([(''x'', 2), (''y'', 3)], xyStore1)"
  by (simp add: members_defs resolution_defs sample_defs xyStore1_def)
     (auto simp: fun_eq_iff sample_defs nth_Cons' less_Suc_eq)

lemma xy_bool_members:
  "getTypedDictMembersForClass sampleEnv xyStore1 boolXYInstance True =
     Inr ([(''x'', 6), (''y'', 7)], xyStore2)"
  by (simp add: members_defs resolution_defs sample_defs xyStore1_def xyStore2_def)
     (auto simp: fun_eq_iff sample_defs nth_Cons' less_Suc_eq)

lemma point_members:
  "getTypedDictMembersForClass sampleEnv resolvedStore pointInstance allowNarrowed =
     Inr ([(''x'', 3), (''y'', 4), (''label'', 5)], pointCopies)"
  by (simp add: members_defs resolution_defs sample_defs resolvedStore_def pointCopies_def
      pointEntries_def)
     (auto simp: fun_eq_iff sample_defs nth_Cons' less_Suc_eq)

lemmas construction_defs =
  assignTypedDictKey_def checkRequiredKey_def callAssignType_def sampleResult_def strLiteral_def
  cloneWithLiteral_def isBuiltIn_def isLiteralType_def mapGet_def sampleAssignable_def
  allocEntry_def mapSet_def Let_def

lemma point_construction:
  "assignToTypedDict sampleEnv resolvedStore pointInstance
     [sampleResult (strLiteral ''x'') 40, sampleResult (strLiteral ''y'') 41,
      sampleResult (strLiteral ''label'') 42]
     [sampleResult intInstance 50, sampleResult intInstance 51, sampleResult strInstance 52]
     None =
   Inr (Some (cloneForNarrowedTypedDictEntries pointInstance [(''label'', 6)]), None, pointStore)"
proof -
  have td: "isTypedDictClass resolvedStore pointInstance" "instanceFlag pointInstance"
    "typeParameters (classDetails resolvedStore (details pointInstance)) = []"
    by (simp_all add: isTypedDictClass_def resolvedStore_def sample_defs)
  show ?thesis
    unfolding assignToTypedDict_def
    apply (simp add: td point_members Let_def del: foldl.simps zip.simps)
    apply (simp add: construction_defs pointCopies_def pointStore_def sample_defs)
    apply (auto simp: fun_eq_iff sample_defs nth_Cons' less_Suc_eq)
    apply (simp add: eval_nat_numeral)
    done
qed

section \<open>Stores, maps and entry resolution\<close>

lemma allocOnly_refl [simp]: "allocOnly st st"
  by (simp add: allocOnly_def)

lemma allocOnly_trans: "allocOnly a b \<Longrightarrow> allocOnly b c \<Longrightarrow> allocOnly a c"
  by (auto simp: allocOnly_def)

lemma allocOnly_alloc: "allocOnly st (snd (allocEntry e st))"
  by (simp add: allocOnly_def allocEntry_def)

lemma mapGet_mapSet: "mapGet (mapSet m k v) k' = (if k' = k then Some v else mapGet m k')"
  by (simp add: mapGet_def mapSet_def update_conv')

lemma set_mapSet: "set (mapSet m k v) \<subseteq> insert (k, v) (set m)"
  unfolding mapSet_def by (induction m) auto

lemma mapSet_mem: "(k, v) \<in> set (mapSet m k v)"
  unfolding mapSet_def by (induction m) auto

lemma keys_mapSet: "fst ` set (mapSet m k v) = insert k (fst ` set m)"
  unfolding mapSet_def by (induction m) (auto simp: image_iff)

lemma distinct_mapSet: "distinct (map fst m) \<Longrightarrow> distinct (map fst (mapSet m k v))"
  by (simp add: mapSet_def distinct_update)

lemma entryExplained_mono:
  "allocOnly st st' \<Longrightarrow> entryExplained env st kv \<Longrightarrow> entryExplained env st' kv"
  by (cases kv) (auto simp: allocOnly_def entryExplained_def isCanOmitDictValues_def)

lemma addClassField_frame:
  assumes "addClassField env c ctx (km, st) field = (km', st')"
  shows "allocOnly st st'"
proof -
  obtain name symbol where f: "field = (name, symbol)" by (cases field)
  show ?thesis
    using assms allocOnly_alloc[of st]
    by (auto simp: addClassField_def f Let_def allocEntry_def allocOnly_def
        split: option.splits if_splits prod.splits)
qed

lemma addClassField_explained:
  assumes step: "addClassField env c ctx (km, st) field = (km', st')"
    and mem: "field \<in> set (classFields (classDetails st (details c)))"
    and inv: "\<forall>kv \<in> set km. entryExplained env st kv"
  shows "\<forall>kv \<in> set km'. entryExplained env st' kv"
proof -
  obtain name symbol where f: "field = (name, symbol)" by (cases field)
  note fr = addClassField_frame[OF step]
  show ?thesis
  proof (cases "km' = km \<and> st' = st")
    case True
    with inv show ?thesis by simp
  next
    case False
    with step have el: "eligibleField env symbol"
      by (auto simp: addClassField_def f Let_def eligibleField_def split: option.splits if_splits)
    from False step have km': "km' = mapSet km name (nextEntry st)"
      and st': "st' = snd (allocEntry
          \<lparr> valueType = applySolvedTypeVars env (getEffectiveTypeOfSymbol env symbol) ctx,
            isReadOnly = isReadOnlyTypedDictVariable env symbol,
            isRequired = requirednessOf env (isCanOmitDictValues st c) symbol,
            isProvided = False \<rparr> st)"
      by (auto simp: addClassField_def f Let_def allocEntry_def requirednessOf_def
          split: option.splits if_splits)
    have new: "entryExplained env st' (name, nextEntry st)"
      unfolding entryExplained_def
      using mem f el
      by (auto simp: st' allocEntry_def isCanOmitDictValues_def intro!: exI[of _ c] exI[of _ symbol])
    show ?thesis
    proof
      fix kv assume "kv \<in> set km'"
      with set_mapSet[of km name "nextEntry st"] km'
      have "kv = (name, nextEntry st) \<or> kv \<in> set km" by auto
      then show "entryExplained env st' kv"
        using new inv entryExplained_mono[OF fr] by blast
    qed
  qed
qed

lemma addClassFields_invariant:
  assumes step: "\<And>km st f km' st'. P km st \<Longrightarrow>
      f \<in> set (classFields (classDetails st (details c))) \<Longrightarrow>
      addClassField env c ctx (km, st) f = (km', st') \<Longrightarrow> P km' st'"
    and "foldl (addClassField env c ctx) (km, st) fs = (km', st')"
    and "set fs \<subseteq> set (classFields (classDetails st (details c)))"
    and "P km st"
  shows "allocOnly st st' \<and> P km' st'"
  using assms(2-)
proof (induction fs arbitrary: km st)
  case Nil
  then show ?case by simp
next
  case (Cons f fs)
  obtain km1 st1 where s1: "addClassField env c ctx (km, st) f = (km1, st1)"
    by (cases "addClassField env c ctx (km, st) f")
  note fr = addClassField_frame[OF s1]
  from Cons.prems(2) have fm: "f \<in> set (classFields (classDetails st (details c)))" by simp
  note p1 = step[OF Cons.prems(3) fm s1]
  from fr have cd: "classDetails st1 = classDetails st" by (simp add: allocOnly_def)
  from Cons.prems(1) s1 have r: "foldl (addClassField env c ctx) (km1, st1) fs = (km', st')"
    by simp
  from Cons.prems(2) cd have sub: "set fs \<subseteq> set (classFields (classDetails st1 (details c)))"
    by simp
  from Cons.IH[OF r sub p1] fr show ?case
    using allocOnly_trans by blast
qed

lemma resolution_invariant:
  shows "stepInvariant env P \<Longrightarrow>
      getTypedDictMembersForClassRecursive env st c km rc = Inr (km', st') \<Longrightarrow>
      P km st \<Longrightarrow> allocOnly st st' \<and> P km' st'"
    and "stepInvariant env P \<Longrightarrow>
      gatherBaseClassMembers env st c bases km rc = Inr (km', st') \<Longrightarrow>
      P km st \<Longrightarrow> allocOnly st st' \<and> P km' st'"
proof (induction env st c km rc and env st c bases km rc arbitrary: km' st' and km' st'
    rule: getTypedDictMembersForClassRecursive_gatherBaseClassMembers.induct)
  case (1 env st classType keyMap recursionCount)
  note step = "1.prems"(1) and res = "1.prems"(2) and inv = "1.prems"(3)
  show ?case
  proof (cases "recursionCount > maxTypeRecursionCount env")
    case True
    with res inv show ?thesis
      by (auto simp: getTypedDictMembersForClassRecursive.simps split: if_splits)
  next
    case False
    from res have td: "isTypedDictClass st classType"
      by (auto simp: getTypedDictMembersForClassRecursive.simps split: if_splits)
    from res False td obtain km1 st1 where
      g: "gatherBaseClassMembers env st classType
            (baseClasses (classDetails st (details classType))) keyMap (recursionCount + 1)
          = Inr (km1, st1)"
      and f: "foldl (addClassField env classType
                (buildTypeVarContextFromSpecializedClass env classType))
                (km1, st1) (classFields (classDetails st1 (details classType))) = (km', st')"
      by (auto simp: getTypedDictMembersForClassRecursive.simps split: sum.splits)
    from td False have c1: "\<not> \<not> isTypedDictClass st classType"
      and c2: "\<not> maxTypeRecursionCount env < recursionCount" by simp_all
    from "1.IH"[OF c1 c2 step g inv]
    have a1: "allocOnly st st1" and e1: "P km1 st1"
      by auto
    have "allocOnly st1 st' \<and> P km' st'"
    proof (rule addClassFields_invariant[where P = P and c = classType and env = env,
          OF _ f _ e1])
      fix kma sta fa kmb stb
      assume "P kma sta" "fa \<in> set (classFields (classDetails sta (details classType)))"
        "addClassField env classType (buildTypeVarContextFromSpecializedClass env classType)
           (kma, sta) fa = (kmb, stb)"
      with step show "P kmb stb" unfolding stepInvariant_def by blast
    qed simp
    with a1 show ?thesis using allocOnly_trans by blast
  qed
next
  case (2 env st classType keyMap recursionCount)
  then show ?case by simp
next
  case (3 env st classType baseClassType rest keyMap recursionCount)
  note step = "3.prems"(1) and res = "3.prems"(2) and inv = "3.prems"(3)
  show ?case
  proof (cases "isInstantiableClass baseClassType \<and> isTypedDictClassType st baseClassType")
    case False
    with res have r: "gatherBaseClassMembers env st classType rest keyMap recursionCount
        = Inr (km', st')" by simp
    from "3.IH"(3)[OF False step r inv] show ?thesis .
  next
    case True
    with res obtain sb where
      sb: "classOfType (partiallySpecializeType env baseClassType classType) = Some sb"
      by (auto split: option.splits)
    from res True sb obtain km1 st1 where
      r1: "getTypedDictMembersForClassRecursive env st sb keyMap recursionCount = Inr (km1, st1)"
      and r2: "gatherBaseClassMembers env st1 classType rest km1 recursionCount = Inr (km', st')"
      by (auto split: sum.splits)
    from "3.IH"(1)[OF True sb step r1 inv]
    have a1: "allocOnly st st1" and e1: "P km1 st1"
      by auto
    from "3.IH"(2)[OF True sb r1 refl step r2 e1]
    have "allocOnly st1 st' \<and> P km' st'" .
    with a1 show ?thesis using allocOnly_trans by blast
  qed
qed

lemma resolution_frame:
  "getTypedDictMembersForClassRecursive env st c km rc = Inr (km', st') \<Longrightarrow> allocOnly st st'"
  using resolution_invariant(1)[of env "\<lambda>km st. True" st c km rc km' st']
  by (simp add: stepInvariant_def)

lemma gather_frame:
  "gatherBaseClassMembers env st c bases km rc = Inr (km', st') \<Longrightarrow> allocOnly st st'"
  using resolution_invariant(2)[of env "\<lambda>km st. True" st c bases km rc km' st']
  by (simp add: stepInvariant_def)

lemma resolution_explained:
  assumes "getTypedDictMembersForClassRecursive env st c km rc = Inr (km', st')"
    and "\<forall>kv \<in> set km. entryExplained env st kv"
  shows "\<forall>kv \<in> set km'. entryExplained env st' kv"
proof -
  have "stepInvariant env (\<lambda>km st. \<forall>kv \<in> set km. entryExplained env st kv)"
    unfolding stepInvariant_def using addClassField_explained by blast
  from resolution_invariant(1)[OF this assms] show ?thesis by simp
qed

lemma addClassField_other:
  assumes "addClassField env c ctx (km, st) (n, symbol) = (km', st')" and "n \<noteq> name"
  shows "mapGet km' name = mapGet km name"
  using assms
  by (auto simp: addClassField_def Let_def allocEntry_def mapGet_mapSet
      split: option.splits if_splits)

lemma addClassFields_other:
  assumes "foldl (addClassField env c ctx) (km, st) fs = (km', st')"
    and "name \<notin> fst ` set fs"
  shows "mapGet km' name = mapGet km name \<and> allocOnly st st'"
  using assms
proof (induction fs arbitrary: km st)
  case Nil
  then show ?case by simp
next
  case (Cons f fs)
  obtain n symbol where f: "f = (n, symbol)" by (cases f)
  obtain km1 st1 where s1: "addClassField env c ctx (km, st) f = (km1, st1)"
    by (cases "addClassField env c ctx (km, st) f")
  from Cons.prems(2) f have ne: "n \<noteq> name" by auto
  from addClassField_other[OF s1[unfolded f] ne] have g: "mapGet km1 name = mapGet km name" .
  from Cons.prems(1) s1 have r: "foldl (addClassField env c ctx) (km1, st1) fs = (km', st')"
    by simp
  from Cons.prems(2) have "name \<notin> fst ` set fs" by simp
  from Cons.IH[OF r this] g addClassField_frame[OF s1] show ?case
    using allocOnly_trans by auto
qed

lemma addClassField_eligible:
  assumes "addClassField env c ctx (km, st) (name, symbol) = (km', st')"
    and "eligibleField env symbol"
  shows "mapGet km' name = Some (nextEntry st) \<and> nextEntry st < nextEntry st' \<and>
     isRequired (entryHeap st' (nextEntry st)) =
       requirednessOf env (isCanOmitDictValues st c) symbol \<and>
     isReadOnly (entryHeap st' (nextEntry st)) = isReadOnlyTypedDictVariable env symbol \<and>
     \<not> isProvided (entryHeap st' (nextEntry st))"
  using assms
  by (auto simp: addClassField_def eligibleField_def Let_def allocEntry_def mapGet_mapSet
      requirednessOf_def split: option.splits if_splits)

lemma addClassFields_own:
  assumes "foldl (addClassField env c ctx) (km, st) fs = (km', st')"
    and "distinct (map fst fs)" and "(name, symbol) \<in> set fs" and "eligibleField env symbol"
  shows "\<exists>ref. mapGet km' name = Some ref \<and>
     isRequired (entryHeap st' ref) = requirednessOf env (isCanOmitDictValues st c) symbol \<and>
     isReadOnly (entryHeap st' ref) = isReadOnlyTypedDictVariable env symbol \<and>
     \<not> isProvided (entryHeap st' ref)"
  using assms
proof (induction fs arbitrary: km st)
  case Nil
  then show ?case by simp
next
  case (Cons f fs)
  obtain km1 st1 where s1: "addClassField env c ctx (km, st) f = (km1, st1)"
    by (cases "addClassField env c ctx (km, st) f")
  from Cons.prems(1) s1 have r: "foldl (addClassField env c ctx) (km1, st1) fs = (km', st')"
    by simp
  note fr = addClassField_frame[OF s1]
  then have omit: "isCanOmitDictValues st1 c = isCanOmitDictValues st c"
    by (simp add: allocOnly_def isCanOmitDictValues_def)
  show ?case
  proof (cases "f = (name, symbol)")
    case True
    from addClassField_eligible[OF s1[unfolded True] Cons.prems(4)]
    have a: "mapGet km1 name = Some (nextEntry st)" and lt: "nextEntry st < nextEntry st1"
      and b: "isRequired (entryHeap st1 (nextEntry st)) =
         requirednessOf env (isCanOmitDictValues st c) symbol"
      and c: "isReadOnly (entryHeap st1 (nextEntry st)) = isReadOnlyTypedDictVariable env symbol"
      and d: "\<not> isProvided (entryHeap st1 (nextEntry st))"
      by simp_all
    from Cons.prems(2) True have "name \<notin> fst ` set fs" by auto
    from addClassFields_other[OF r this] have g: "mapGet km' name = mapGet km1 name"
      and fr2: "allocOnly st1 st'" by simp_all
    from fr2 lt have "entryHeap st' (nextEntry st) = entryHeap st1 (nextEntry st)"
      by (simp add: allocOnly_def)
    with a b c d g show ?thesis by simp
  next
    case False
    with Cons.prems(3) have m: "(name, symbol) \<in> set fs" by simp
    from Cons.prems(2) have "distinct (map fst fs)" by simp
    from Cons.IH[OF r this m Cons.prems(4)] omit show ?thesis by simp
  qed
qed

lemma resolution_own_fields:
  assumes "getTypedDictMembersForClassRecursive env st c km rc = Inr (km', st')"
    and "rc \<le> maxTypeRecursionCount env"
    and "distinct (map fst (classFields (classDetails st (details c))))"
    and "(name, symbol) \<in> set (classFields (classDetails st (details c)))"
    and "eligibleField env symbol"
  shows "\<exists>ref. mapGet km' name = Some ref \<and>
     isRequired (entryHeap st' ref) = requirednessOf env (isCanOmitDictValues st c) symbol \<and>
     isReadOnly (entryHeap st' ref) = isReadOnlyTypedDictVariable env symbol \<and>
     \<not> isProvided (entryHeap st' ref)"
proof -
  from assms(1,2) obtain km1 st1 where
    g: "gatherBaseClassMembers env st c (baseClasses (classDetails st (details c))) km (rc + 1)
        = Inr (km1, st1)"
    and f: "foldl (addClassField env c (buildTypeVarContextFromSpecializedClass env c))
              (km1, st1) (classFields (classDetails st1 (details c))) = (km', st')"
    by (auto simp: getTypedDictMembersForClassRecursive.simps split: sum.splits if_splits)
  from gather_frame[OF g] have cd: "classDetails st1 = classDetails st"
    by (simp add: allocOnly_def)
  then have omit: "isCanOmitDictValues st1 c = isCanOmitDictValues st c"
    by (simp add: isCanOmitDictValues_def)
  from addClassFields_own[OF f _ _ assms(5), of name] assms(3,4) cd omit
  show ?thesis by simp
qed

lemma distinct_step: "stepInvariant env (\<lambda>km st. distinct (map fst km))"
  unfolding stepInvariant_def
  by (auto simp: addClassField_def Let_def allocEntry_def distinct_mapSet
      split: if_splits option.splits prod.splits)

lemma resolution_distinct:
  assumes "getTypedDictMembersForClassRecursive env st c [] rc = Inr (km', st')"
  shows "distinct (map fst km')"
  using resolution_invariant(1)[OF distinct_step assms] by simp

section \<open>Properties of the diagnostic sink\<close>

lemma lt10: "(d::nat) < 10 \<Longrightarrow> d \<in> {0,1,2,3,4,5,6,7,8,9}"
  by auto

lemma digitChar_isDigit: "d < 10 \<Longrightarrow> isDigit (digitChar d)"
  by (drule lt10) (auto simp: isDigit_def digitChar_def)

lemma digitChar_inj: "d < 10 \<Longrightarrow> e < 10 \<Longrightarrow> digitChar d = digitChar e \<Longrightarrow> d = e"
  by (drule lt10, drule lt10) (auto simp: digitChar_def)

lemma showNat_digits: "\<forall>c \<in> set (showNat n). isDigit c"
proof (induction n rule: showNat.induct)
  case (1 n)
  show ?case
  proof (cases "n < 10")
    case True
    then show ?thesis by (subst showNat.simps) (simp add: digitChar_isDigit)
  next
    case False
    with 1 show ?thesis by (subst showNat.simps) (simp add: digitChar_isDigit)
  qed
qed

lemma showNat_nonempty: "showNat n \<noteq> []"
  by (subst showNat.simps) simp

lemma showNat_inj: "showNat n = showNat m \<Longrightarrow> n = m"
proof (induction n arbitrary: m rule: showNat.induct)
  case (1 n)
  show ?case
  proof (cases "n < 10")
    case True
    note n = this
    show ?thesis
    proof (cases "m < 10")
      case True
      with n 1(2) show ?thesis
        by (simp add: showNat.simps[of n] showNat.simps[of m] digitChar_inj)
    next
      case False
      with n 1(2) showNat_nonempty[of "m div 10"] show ?thesis
        by (simp add: showNat.simps[of n] showNat.simps[of m])
    qed
  next
    case False
    note n = this
    show ?thesis
    proof (cases "m < 10")
      case True
      with n 1(2) showNat_nonempty[of "n div 10"] show ?thesis
        by (simp add: showNat.simps[of n] showNat.simps[of m])
    next
      case False
      with n 1(2) have e: "showNat (n div 10) = showNat (m div 10)"
        and d: "digitChar (n mod 10) = digitChar (m mod 10)"
        by (simp_all add: showNat.simps[of n] showNat.simps[of m])
      from 1(1)[OF n e] have "n div 10 = m div 10" .
      moreover from d have "n mod 10 = m mod 10" by (simp add: digitChar_inj)
      ultimately show ?thesis by (metis div_mult_mod_eq)
    qed
  qed
qed

lemma digits_sep:
  assumes "\<forall>c \<in> set a. isDigit c" "\<forall>c \<in> set b. isDigit c" "\<not> isDigit x" "\<not> isDigit y"
    and "a @ x # r = b @ y # t"
  shows "a = b \<and> x = y \<and> r = t"
  using assms
proof (induction a arbitrary: b)
  case Nil
  then show ?case by (cases b) auto
next
  case (Cons c a)
  then show ?case by (cases b) auto
qed

lemma showInt_inj: "showInt i = showInt j \<Longrightarrow> i = j"
proof -
  have nd: "\<not> isDigit CHR ''-''" by (simp add: isDigit_def)
  have hd_digit: "isDigit (hd (showNat n))" for n
    using showNat_digits[of n] showNat_nonempty[of n] by (cases "showNat n") auto
  assume e: "showInt i = showInt j"
  show ?thesis
  proof (cases "i < 0")
    case True
    note i = this
    show ?thesis
    proof (cases "j < 0")
      case True
      with i e have "showNat (nat (- i)) = showNat (nat (- j))" by (simp add: showInt_def)
      then have "nat (- i) = nat (- j)" by (rule showNat_inj)
      with i True show ?thesis by simp
    next
      case False
      with i e have "CHR ''-'' # showNat (nat (- i)) = showNat (nat j)" by (simp add: showInt_def)
      with hd_digit[of "nat j"] nd show ?thesis by (metis list.sel(1))
    qed
  next
    case False
    note i = this
    show ?thesis
    proof (cases "j < 0")
      case True
      with i e have "showNat (nat i) = CHR ''-'' # showNat (nat (- j))" by (simp add: showInt_def)
      with hd_digit[of "nat i"] nd show ?thesis by (metis list.sel(1))
    next
      case False
      with i e have "showNat (nat i) = showNat (nat j)" by (simp add: showInt_def)
      then have "nat i = nat j" by (rule showNat_inj)
      with i False show ?thesis by simp
    qed
  qed
qed

lemma sep_showNat:
  assumes "\<not> isDigit x" and "showNat n @ x # r = showNat m @ x # t"
  shows "n = m \<and> r = t"
  using digits_sep[OF showNat_digits showNat_digits assms(1) assms(1) assms(2)] showNat_inj
  by blast

lemma diagnosticKey_eq_iff:
  "diagnosticKey hs d = diagnosticKey hs e \<longleftrightarrow>
     range' d = range' e \<and> hs (message d) = hs (message e)"
proof
  assume k: "diagnosticKey hs d = diagnosticKey hs e"
  have nd: "\<not> isDigit CHR '',''" "\<not> isDigit CHR ''-''" "\<not> isDigit CHR '':''"
    by (simp_all add: isDigit_def)
  have unf: "diagnosticKey hs x =
     showNat (line (rangeStart (range' x))) @ CHR '','' #
     (showNat (character (rangeStart (range' x))) @ CHR ''-'' #
     (showNat (line (rangeEnd (range' x))) @ CHR ''-'' #
     (showNat (character (rangeEnd (range' x))) @ CHR '':'' #
     (showInt (hs (message x)) @ ''}''))))" for x
    by (simp add: diagnosticKey_def)
  from k have k0: "showNat (line (rangeStart (range' d))) @ CHR '','' #
     (showNat (character (rangeStart (range' d))) @ CHR ''-'' #
     (showNat (line (rangeEnd (range' d))) @ CHR ''-'' #
     (showNat (character (rangeEnd (range' d))) @ CHR '':'' #
     (showInt (hs (message d)) @ ''}'')))) =
     showNat (line (rangeStart (range' e))) @ CHR '','' #
     (showNat (character (rangeStart (range' e))) @ CHR ''-'' #
     (showNat (line (rangeEnd (range' e))) @ CHR ''-'' #
     (showNat (character (rangeEnd (range' e))) @ CHR '':'' #
     (showInt (hs (message e)) @ ''}''))))"
    by (simp only: unf)
  note s1 = sep_showNat[OF nd(1) k0]
  note s2 = sep_showNat[OF nd(2) conjunct2[OF s1]]
  note s3 = sep_showNat[OF nd(2) conjunct2[OF s2]]
  note s4 = sep_showNat[OF nd(3) conjunct2[OF s3]]
  from s4 have "showInt (hs (message d)) = showInt (hs (message e))" by simp
  then have 5: "hs (message d) = hs (message e)" by (rule showInt_inj)
  from s1 s2 have "rangeStart (range' d) = rangeStart (range' e)" by simp
  moreover from s3 s4 have "rangeEnd (range' d) = rangeEnd (range' e)" by simp
  ultimately show "range' d = range' e \<and> hs (message d) = hs (message e)" using 5 by simp
next
  assume "range' d = range' e \<and> hs (message d) = hs (message e)"
  then show "diagnosticKey hs d = diagnosticKey hs e" by (simp add: diagnosticKey_def)
qed

lemma addDiagnostic_known:
  "diagnosticMap s (diagnosticKey hs e) \<noteq> None \<Longrightarrow> snd (addDiagnostic hs s e) = s"
  by (auto simp: addDiagnostic_def Let_def)

lemma key_some_iff:
  "diagnosticMap (snd (addDiagnostic hs sink d)) k = None \<longleftrightarrow>
     diagnosticMap sink k = None \<and> k \<noteq> diagnosticKey hs d"
  by (auto simp: addDiagnostic_def Let_def)

text \<open>
  C10 (amended). After a diagnostic \<open>d\<close> has been added to any sink, adding a diagnostic
  with the same range and message changes nothing. A second diagnostic \<open>e\<close> is appended
  exactly when its key was not in the sink's map before and it differs from \<open>d\<close> in range
  or in the hash of its message. After \<open>fetchAndClear\<close> the list and the map are empty,
  so any diagnostic, also one seen before, is added again.
\<close>

theorem addDiagnostic_dedup:
  "(range' e = range' d \<and> message e = message d \<longrightarrow>
      snd (addDiagnostic hs (snd (addDiagnostic hs sink d)) e) = snd (addDiagnostic hs sink d))
   \<and> (diagnosticList (snd (addDiagnostic hs (snd (addDiagnostic hs sink d)) e)) =
         diagnosticList (snd (addDiagnostic hs sink d)) @ [e]
       \<longleftrightarrow> diagnosticMap sink (diagnosticKey hs e) = None \<and>
           \<not> (range' e = range' d \<and> hs (message e) = hs (message d)))
   \<and> snd (addDiagnostic hs (snd (fetchAndClear sink)) d) =
         sink\<lparr> diagnosticList := [d], diagnosticMap := [diagnosticKey hs d \<mapsto> d] \<rparr>"
proof (intro conjI impI)
  assume "range' e = range' d \<and> message e = message d"
  then have "diagnosticKey hs e = diagnosticKey hs d" by (simp add: diagnosticKey_eq_iff)
  then show "snd (addDiagnostic hs (snd (addDiagnostic hs sink d)) e) = snd (addDiagnostic hs sink d)"
    by (simp add: addDiagnostic_def Let_def)
next
  have k: "diagnosticMap (snd (addDiagnostic hs sink d)) (diagnosticKey hs e) = None \<longleftrightarrow>
      diagnosticMap sink (diagnosticKey hs e) = None \<and>
      \<not> (range' e = range' d \<and> hs (message e) = hs (message d))"
    by (simp add: key_some_iff diagnosticKey_eq_iff)
  have "diagnosticList (snd (addDiagnostic hs s e)) = diagnosticList s @ [e] \<longleftrightarrow>
      diagnosticMap s (diagnosticKey hs e) = None" for s
    by (simp add: addDiagnostic_def Let_def)
  with k show "diagnosticList (snd (addDiagnostic hs (snd (addDiagnostic hs sink d)) e)) =
         diagnosticList (snd (addDiagnostic hs sink d)) @ [e]
       \<longleftrightarrow> diagnosticMap sink (diagnosticKey hs e) = None \<and>
           \<not> (range' e = range' d \<and> hs (message e) = hs (message d))"
    by simp
next
  show "snd (addDiagnostic hs (snd (fetchAndClear sink)) d) =
         sink\<lparr> diagnosticList := [d], diagnosticMap := [diagnosticKey hs d \<mapsto> d] \<rparr>"
    by (simp add: addDiagnostic_def fetchAndClear_def Let_def)
qed

lemma showNat_small: "n < 10 \<Longrightarrow> showNat n = [digitChar n]"
  by (subst showNat.simps) simp

lemma sample_keys:
  "diagnosticKey sampleHash sampleDiagA = ''0,0-0-1:97}''"
  "diagnosticKey sampleHash sampleDiagB = ''1,0-1-12:98}''"
  by (simp_all add: diagnosticKey_def sampleDiagA_def sampleDiagB_def sampleHash_def showInt_def
      showNat.simps[of 97] showNat.simps[of 98] showNat.simps[of 12] showNat_small digitChar_def)

text \<open>The theorem on the empty sink and the two sample diagnostics.\<close>

theorem addDiagnostic_dedup_witness:
  "snd (addDiagnostic sampleHash (snd (addDiagnostic sampleHash (newDiagnosticSink None) sampleDiagA))
      sampleDiagA) = snd (addDiagnostic sampleHash (newDiagnosticSink None) sampleDiagA)
   \<and> diagnosticList (snd (addDiagnostic sampleHash
        (snd (addDiagnostic sampleHash (newDiagnosticSink None) sampleDiagA)) sampleDiagB)) =
      [sampleDiagA, sampleDiagB]"
proof -
  have a: "diagnosticMap (newDiagnosticSink None) (diagnosticKey sampleHash sampleDiagB) = None"
    by (simp add: newDiagnosticSink_def)
  have b: "\<not> (range' sampleDiagB = range' sampleDiagA \<and>
              sampleHash (message sampleDiagB) = sampleHash (message sampleDiagA))"
    by (simp add: sampleDiagA_def sampleDiagB_def)
  have c: "diagnosticList (snd (addDiagnostic sampleHash (newDiagnosticSink None) sampleDiagA)) = [sampleDiagA]"
    by (simp add: addDiagnostic_def newDiagnosticSink_def Let_def)
  from addDiagnostic_dedup[of sampleDiagA sampleDiagA sampleHash "newDiagnosticSink None"]
  have 1: "snd (addDiagnostic sampleHash (snd (addDiagnostic sampleHash (newDiagnosticSink None) sampleDiagA))
      sampleDiagA) = snd (addDiagnostic sampleHash (newDiagnosticSink None) sampleDiagA)"
    by simp
  from addDiagnostic_dedup[of sampleDiagB sampleDiagA sampleHash "newDiagnosticSink None"] a b c
  have 2: "diagnosticList (snd (addDiagnostic sampleHash
        (snd (addDiagnostic sampleHash (newDiagnosticSink None) sampleDiagA)) sampleDiagB)) =
      [sampleDiagA, sampleDiagB]"
    by simp
  from 1 2 show ?thesis by simp
qed

lemma collision_hash: "sampleHash ''Aa'' = 2112" "sampleHash ''BB'' = 2112"
  by (simp_all add: sampleHash_def)

text \<open>
  C10 as stated fails: \<open>sampleDiagBB\<close> has the range of \<open>sampleDiagAa\<close> and another
  message, the two messages have the same hash, and \<open>sampleDiagBB\<close> is not appended to
  the new sink that holds \<open>sampleDiagAa\<close> only.
\<close>

theorem addDiagnostic_collision_counterexample:
  "range' sampleDiagBB = range' sampleDiagAa \<and> message sampleDiagBB \<noteq> message sampleDiagAa
   \<and> diagnosticList (newDiagnosticSink None) = []
   \<and> diagnosticList (snd (addDiagnostic sampleHash (newDiagnosticSink None) sampleDiagAa)) =
       [sampleDiagAa]
   \<and> diagnosticList (snd (addDiagnostic sampleHash
         (snd (addDiagnostic sampleHash (newDiagnosticSink None) sampleDiagAa)) sampleDiagBB)) =
       [sampleDiagAa]"
proof -
  have r: "range' sampleDiagBB = range' sampleDiagAa" "message sampleDiagBB \<noteq> message sampleDiagAa"
    "sampleHash (message sampleDiagBB) = sampleHash (message sampleDiagAa)"
    by (simp_all add: sampleDiagAa_def sampleDiagBB_def collision_hash)
  then have k: "diagnosticKey sampleHash sampleDiagBB = diagnosticKey sampleHash sampleDiagAa"
    by (simp add: diagnosticKey_eq_iff)
  have a: "diagnosticList (snd (addDiagnostic sampleHash (newDiagnosticSink None) sampleDiagAa)) =
       [sampleDiagAa]"
    by (simp add: addDiagnostic_def newDiagnosticSink_def Let_def)
  have "diagnosticMap (snd (addDiagnostic sampleHash (newDiagnosticSink None) sampleDiagAa))
      (diagnosticKey sampleHash sampleDiagBB) \<noteq> None"
    by (simp add: k addDiagnostic_def newDiagnosticSink_def Let_def)
  then have "snd (addDiagnostic sampleHash
         (snd (addDiagnostic sampleHash (newDiagnosticSink None) sampleDiagAa)) sampleDiagBB) =
       snd (addDiagnostic sampleHash (newDiagnosticSink None) sampleDiagAa)"
    by (rule addDiagnostic_known)
  with r a show ?thesis by (simp add: newDiagnosticSink_def)
qed

section \<open>Properties of the type walker\<close>

text \<open>Enough fuel: \<open>walk\<close> returns, and leaves the recursion count as it found it.\<close>

lemma walk_limit:
  "walkerRecursionCount w > mx \<Longrightarrow>
     walk fuel mx cancels g h w = Some (w\<lparr> isRecursionLimitHit := True \<rparr>)"
  by (simp add: walk.simps)

lemma walk_canceled:
  "isWalkCanceled w \<Longrightarrow> walkerRecursionCount w \<le> mx \<Longrightarrow> walk fuel mx cancels g h w = Some w"
  by (simp add: walk.simps)

lemma walkEach_total:
  assumes ih: "\<And>h w. f + walkerRecursionCount w > mx \<Longrightarrow>
      \<exists>w'. walk f mx cancels g h w = Some w' \<and> walkerRecursionCount w' = walkerRecursionCount w"
    and "f + walkerRecursionCount w > mx"
  shows "\<exists>w'. walkEach f mx cancels g hs w = Some w' \<and> walkerRecursionCount w' = walkerRecursionCount w"
  using assms(2)
proof (induction hs arbitrary: w)
  case Nil
  then show ?case by simp
next
  case (Cons c cs)
  from ih[OF Cons.prems, of c] obtain w1 where
    w1: "walk f mx cancels g c w = Some w1" "walkerRecursionCount w1 = walkerRecursionCount w"
    by blast
  show ?case
  proof (cases "isWalkCanceled w1")
    case True
    with w1 show ?thesis by simp
  next
    case False
    from Cons.prems w1 have "f + walkerRecursionCount w1 > mx" by simp
    from Cons.IH[OF this] w1 False show ?thesis by simp
  qed
qed

lemma visitShape_total:
  assumes ih: "\<And>h w. f + walkerRecursionCount w > mx \<Longrightarrow>
      \<exists>w'. walk f mx cancels g h w = Some w' \<and> walkerRecursionCount w' = walkerRecursionCount w"
    and c: "f + walkerRecursionCount w > mx"
  shows "\<exists>w'. visitShape f mx cancels g sh w = Some w' \<and> walkerRecursionCount w' = walkerRecursionCount w"
proof (cases sh)
  case (FunctionShape ps psv declared inferred)
  from walkEach_total[OF ih c, of "namedParameterTypes ps"] obtain w1 where
    w1: "walkEach f mx cancels g (namedParameterTypes ps) w = Some w1"
        "walkerRecursionCount w1 = walkerRecursionCount w"
    by blast
  from c w1 have c1: "f + walkerRecursionCount w1 > mx" by simp
  show ?thesis
  proof (cases "\<not> isWalkCanceled w1 \<and> \<not> psv")
    case False
    with FunctionShape w1 show ?thesis by auto
  next
    case True
    show ?thesis
    proof (cases "case declared of Some r \<Rightarrow> Some r | None \<Rightarrow> inferred")
      case None
      with True FunctionShape w1 show ?thesis by simp
    next
      case (Some r)
      from ih[OF c1, of r] obtain w2 where
        "walk f mx cancels g r w1 = Some w2" "walkerRecursionCount w2 = walkerRecursionCount w1"
        by blast
      with Some True FunctionShape w1 show ?thesis by simp
    qed
  qed
next
  case (OverloadedFunctionShape os)
  with walkEach_total[OF ih c, of os] show ?thesis by simp
next
  case (ClassShape pseudo tupleArgs typeArgs)
  show ?thesis
  proof (cases "case tupleArgs of Some ts \<Rightarrow> Some ts | None \<Rightarrow> typeArgs")
    case None
    with ClassShape show ?thesis by simp
  next
    case (Some args)
    with ClassShape walkEach_total[OF ih c, of args] show ?thesis by simp
  qed
next
  case (UnionShape ts)
  with walkEach_total[OF ih c, of ts] show ?thesis by simp
next
  case (IntersectionShape ts)
  with walkEach_total[OF ih c, of ts] show ?thesis by simp
qed simp_all

lemma enterVisit_count [simp]:
  "walkerRecursionCount (enterVisit cancels h w) = walkerRecursionCount w"
  by (simp add: enterVisit_def cancelWalk_def Let_def)

lemma walk_total:
  "fuel + walkerRecursionCount w > mx \<Longrightarrow>
     \<exists>w'. walk fuel mx cancels g h w = Some w' \<and> walkerRecursionCount w' = walkerRecursionCount w"
proof (induction fuel arbitrary: h w)
  case 0
  then show ?case by (simp add: walk.simps)
next
  case (Suc f)
  show ?case
  proof (cases "walkerRecursionCount w > mx \<or> isWalkCanceled w")
    case True
    then show ?thesis by (auto simp: walk.simps)
  next
    case False
    define w1 where "w1 = w\<lparr> walkerRecursionCount := Suc (walkerRecursionCount w) \<rparr>"
    from Suc.prems have c1: "f + walkerRecursionCount w1 > mx" by (simp add: w1_def)
    have "\<exists>w2. (case typeAliasInfo (g h) of
                  None \<Rightarrow> Some w1
                | Some info \<Rightarrow>
                    (case aliasTypeArguments info of
                       None \<Rightarrow> Some w1
                     | Some args \<Rightarrow> walkEach f mx cancels g args w1)) = Some w2
             \<and> walkerRecursionCount w2 = walkerRecursionCount w1"
      using walkEach_total[OF Suc.IH c1]
      by (auto split: option.splits)
    then obtain w2 where w2: "(case typeAliasInfo (g h) of
                  None \<Rightarrow> Some w1
                | Some info \<Rightarrow>
                    (case aliasTypeArguments info of
                       None \<Rightarrow> Some w1
                     | Some args \<Rightarrow> walkEach f mx cancels g args w1)) = Some w2"
      and c2: "walkerRecursionCount w2 = walkerRecursionCount w1"
      by blast
    from c1 c2 have "f + walkerRecursionCount (enterVisit cancels h w2) > mx" by simp
    from visitShape_total[OF Suc.IH this, of "shape (g h)"] obtain w3 where
      w3: "visitShape f mx cancels g (shape (g h)) (enterVisit cancels h w2) = Some w3"
      and c3: "walkerRecursionCount w3 = walkerRecursionCount w2"
      by auto
    have "walk (Suc f) mx cancels g h w = Some (w3\<lparr> walkerRecursionCount := walkerRecursionCount w3 - 1 \<rparr>)"
      using False w2 w3 unfolding w1_def
      by (subst walk.simps) (simp add: Let_def)
    with c3 c2 show ?thesis by (simp add: w1_def)
  qed
qed

lemma walkEach_limit:
  "mx < walkerRecursionCount w \<Longrightarrow> \<not> isWalkCanceled w \<Longrightarrow>
     walkEach fuel mx cancels g (h # hs) w =
     walkEach fuel mx cancels g hs (w\<lparr> isRecursionLimitHit := True \<rparr>)"
  by (simp add: walk.simps)

lemma walkEach_cancel:
  "walk fuel mx cancels g h w = Some w1 \<Longrightarrow> isWalkCanceled w1 \<Longrightarrow>
     walkEach fuel mx cancels g (h # hs) w = Some w1"
  by simp

lemma visitFunction_cancel:
  "walkEach fuel mx cancels g (namedParameterTypes ps) w = Some w1 \<Longrightarrow> isWalkCanceled w1 \<Longrightarrow>
     visitShape fuel mx cancels g (FunctionShape ps psv declared inferred) w = Some w1"
  by simp

text \<open>
  C7. On every type graph, cyclic or not, \<open>walk\<close> returns as soon as the fuel exceeds
  \<open>maxTypeRecursionCount\<close>. When the recursion count exceeds the maximum, \<open>walk\<close>
  sets \<open>isRecursionLimitHit\<close> and returns without any other effect, and the loop that
  called it goes on with the next child. Once the walk is cancelled, \<open>walk\<close> returns
  at once, and a loop whose child walk ends cancelled skips the remaining children; a
  function's return type is not walked either.
\<close>

theorem walk_terminates_limit_cancel:
  "(mx < fuel \<longrightarrow>
      (\<exists>w'. walk fuel mx cancels g h w = Some w' \<and>
            walkerRecursionCount w' = walkerRecursionCount w))
   \<and> (mx < walkerRecursionCount w \<longrightarrow>
        walk fuel mx cancels g h w = Some (w\<lparr> isRecursionLimitHit := True \<rparr>))
   \<and> (mx < walkerRecursionCount w \<and> \<not> isWalkCanceled w \<longrightarrow>
        walkEach fuel mx cancels g (h # hs) w =
        walkEach fuel mx cancels g hs (w\<lparr> isRecursionLimitHit := True \<rparr>))
   \<and> (isWalkCanceled w \<longrightarrow>
        walk fuel mx cancels g h w =
        Some (if mx < walkerRecursionCount w then w\<lparr> isRecursionLimitHit := True \<rparr> else w))
   \<and> (\<forall>w1. walk fuel mx cancels g h w = Some w1 \<and> isWalkCanceled w1 \<longrightarrow>
        walkEach fuel mx cancels g (h # hs) w = Some w1)
   \<and> (\<forall>w1. walkEach fuel mx cancels g (namedParameterTypes ps) w = Some w1 \<and> isWalkCanceled w1 \<longrightarrow>
        visitShape fuel mx cancels g (FunctionShape ps psv declared inferred) w = Some w1)"
proof (intro conjI impI allI)
  assume "mx < fuel"
  then have "fuel + walkerRecursionCount w > mx" by simp
  then show "\<exists>w'. walk fuel mx cancels g h w = Some w' \<and>
      walkerRecursionCount w' = walkerRecursionCount w"
    by (rule walk_total)
next
  assume "mx < walkerRecursionCount w"
  then show "walk fuel mx cancels g h w = Some (w\<lparr> isRecursionLimitHit := True \<rparr>)"
    by (rule walk_limit)
next
  assume "mx < walkerRecursionCount w \<and> \<not> isWalkCanceled w"
  then show "walkEach fuel mx cancels g (h # hs) w =
        walkEach fuel mx cancels g hs (w\<lparr> isRecursionLimitHit := True \<rparr>)"
    by (simp add: walkEach_limit del: walkEach.simps)
next
  assume "isWalkCanceled w"
  then show "walk fuel mx cancels g h w =
        Some (if mx < walkerRecursionCount w then w\<lparr> isRecursionLimitHit := True \<rparr> else w)"
    by (simp add: walk.simps)
next
  fix w1
  assume "walk fuel mx cancels g h w = Some w1 \<and> isWalkCanceled w1"
  then show "walkEach fuel mx cancels g (h # hs) w = Some w1"
    by (simp add: walkEach_cancel del: walkEach.simps)
next
  fix w1
  assume "walkEach fuel mx cancels g (namedParameterTypes ps) w = Some w1 \<and> isWalkCanceled w1"
  then show "visitShape fuel mx cancels g (FunctionShape ps psv declared inferred) w = Some w1"
    by (simp add: visitFunction_cancel del: walkEach.simps visitShape.simps)
qed

lemma sample_walk:
  "walk 2 1 (\<lambda>h. False) selfUnionGraph 0 newTypeWalker =
     Some \<lparr> walkerRecursionCount = 0, isWalkCanceled = False, isRecursionLimitHit = True,
            visitLog = [0, 0, 1] \<rparr>"
  by (simp add: walk.simps selfUnionGraph_def newTypeWalker_def enterVisit_def Let_def)

lemma sample_walk_cancel:
  "walk 2 1 (\<lambda>h. h = 0) selfUnionGraph 0 newTypeWalker =
     Some \<lparr> walkerRecursionCount = 0, isWalkCanceled = True, isRecursionLimitHit = False,
            visitLog = [0] \<rparr>"
  by (simp add: walk.simps selfUnionGraph_def newTypeWalker_def enterVisit_def cancelWalk_def Let_def)

text \<open>
  The theorem on the self-referential union \<open>selfUnionGraph\<close>, with maximum 1: the walk
  from node 0 returns with the limit hit, and with a visitor that cancels at node 0 the
  second child is never visited.
\<close>

theorem walk_terminates_limit_cancel_witness:
  "(\<exists>w'. walk 2 1 (\<lambda>h. False) selfUnionGraph 0 newTypeWalker = Some w' \<and>
          walkerRecursionCount w' = 0 \<and> isRecursionLimitHit w' \<and> visitLog w' = [0, 0, 1])
   \<and> walk 0 1 (\<lambda>h. False) selfUnionGraph 0 (newTypeWalker\<lparr> walkerRecursionCount := 2 \<rparr>) =
       Some (newTypeWalker\<lparr> walkerRecursionCount := 2, isRecursionLimitHit := True \<rparr>)
   \<and> walk 2 1 (\<lambda>h. False) selfUnionGraph 0 (cancelWalk newTypeWalker) =
       Some (cancelWalk newTypeWalker)
   \<and> walkEach 2 1 (\<lambda>h. h = 0) selfUnionGraph [0, 1] newTypeWalker =
       Some \<lparr> walkerRecursionCount = 0, isWalkCanceled = True, isRecursionLimitHit = False,
              visitLog = [0] \<rparr>"
proof -
  note thm1 = walk_terminates_limit_cancel[of 1 2 "\<lambda>h. False" selfUnionGraph 0 newTypeWalker "[]" "[]"]
  have "\<exists>w'. walk 2 1 (\<lambda>h. False) selfUnionGraph 0 newTypeWalker = Some w' \<and>
          walkerRecursionCount w' = walkerRecursionCount newTypeWalker"
    using thm1 by simp
  with sample_walk have a: "\<exists>w'. walk 2 1 (\<lambda>h. False) selfUnionGraph 0 newTypeWalker = Some w' \<and>
          walkerRecursionCount w' = 0 \<and> isRecursionLimitHit w' \<and> visitLog w' = [0, 0, 1]"
    by simp
  have b: "walk 0 1 (\<lambda>h. False) selfUnionGraph 0 (newTypeWalker\<lparr> walkerRecursionCount := 2 \<rparr>) =
       Some (newTypeWalker\<lparr> walkerRecursionCount := 2, isRecursionLimitHit := True \<rparr>)"
    using walk_terminates_limit_cancel[of 1 0 "\<lambda>h. False" selfUnionGraph 0
        "newTypeWalker\<lparr> walkerRecursionCount := 2 \<rparr>" "[]" "[]"]
    by simp
  have c: "walk 2 1 (\<lambda>h. False) selfUnionGraph 0 (cancelWalk newTypeWalker) =
       Some (cancelWalk newTypeWalker)"
    using walk_terminates_limit_cancel[of 1 2 "\<lambda>h. False" selfUnionGraph 0
        "cancelWalk newTypeWalker" "[]" "[]"]
    by (simp add: cancelWalk_def newTypeWalker_def)
  have d: "walkEach 2 1 (\<lambda>h. h = 0) selfUnionGraph [0, 1] newTypeWalker =
       Some \<lparr> walkerRecursionCount = 0, isWalkCanceled = True, isRecursionLimitHit = False,
              visitLog = [0] \<rparr>"
    using walk_terminates_limit_cancel[of 1 2 "\<lambda>h. h = 0" selfUnionGraph 0 newTypeWalker "[1]" "[]"]
      sample_walk_cancel
    by (simp del: walkEach.simps)
  from a b c d show ?thesis by (simp del: walkEach.simps)
qed

section \<open>Properties of narrowing on key assignment\<close>

lemma narrow_unchanged:
  "\<not> isTypedDictClass st c \<or> typedDictEntries (classDetails st (details c)) = None
   \<or> (\<exists>cached. typedDictEntries (classDetails st (details c)) = Some cached \<and>
         (mapGet cached k = None \<or>
          (\<exists>r. mapGet cached k = Some r \<and> isRequired (entryHeap st r))))
   \<Longrightarrow> narrowForKeyAssignment st c k = (c, st)"
  by (auto simp: narrowForKeyAssignment_def Let_def split: option.splits)

lemma narrow_fresh:
  assumes "isTypedDictClass st c"
    and "typedDictEntries (classDetails st (details c)) = Some cached"
    and "mapGet cached k = Some r" and "\<not> isRequired (entryHeap st r)"
    and "\<not> (case typedDictNarrowedEntries c of None \<Rightarrow> False
            | Some narrowed \<Rightarrow> (case mapGet narrowed k of None \<Rightarrow> False
                | Some nr \<Rightarrow> isProvided (entryHeap st nr)))"
  shows "narrowForKeyAssignment st c k =
    (cloneForNarrowedTypedDictEntries c
       (mapSet (case typedDictNarrowedEntries c of Some narrowed \<Rightarrow> narrowed | None \<Rightarrow> []) k
          (nextEntry st)),
     st\<lparr> entryHeap := (entryHeap st)(nextEntry st :=
            \<lparr> valueType = valueType (entryHeap st r), isReadOnly = isReadOnly (entryHeap st r),
              isRequired = False, isProvided = True \<rparr>),
         nextEntry := Suc (nextEntry st) \<rparr>)"
  using assms
  by (simp add: narrowForKeyAssignment_def Let_def allocEntry_def split: option.splits)

lemma narrow_again:
  assumes "isTypedDictClass st c"
    and "typedDictEntries (classDetails st (details c)) = Some cached"
    and "mapGet cached k = Some r"
    and "typedDictNarrowedEntries c = Some narrowed" and "mapGet narrowed k = Some nr"
    and "isProvided (entryHeap st nr)"
  shows "narrowForKeyAssignment st c k = (c, st)"
  using assms by (simp add: narrowForKeyAssignment_def Let_def)

text \<open>
  C6. Applying \<open>narrowForKeyAssignment\<close> for a key to its own result returns that
  result unchanged, the class type and the store alike. The class type comes back
  unchanged for a class that is not a TypedDict, for a class without cached entries, for a
  key that names no entry, and for a key that names a required entry.
\<close>

theorem narrowForKeyAssignment_idempotent:
  "(narrowForKeyAssignment st c k = (c1, st1) \<longrightarrow> narrowForKeyAssignment st1 c1 k = (c1, st1))
   \<and> (\<not> isTypedDictClass st c \<or> typedDictEntries (classDetails st (details c)) = None
       \<or> (\<exists>cached. typedDictEntries (classDetails st (details c)) = Some cached \<and>
             (mapGet cached k = None \<or>
              (\<exists>r. mapGet cached k = Some r \<and> isRequired (entryHeap st r))))
       \<longrightarrow> narrowForKeyAssignment st c k = (c, st))"
proof (intro conjI impI)
  assume first: "narrowForKeyAssignment st c k = (c1, st1)"
  show "narrowForKeyAssignment st1 c1 k = (c1, st1)"
  proof (cases "narrowForKeyAssignment st c k = (c, st)")
    case True
    with first show ?thesis by simp
  next
    case False
    have td: "isTypedDictClass st c"
    proof (rule ccontr)
      assume "\<not> isTypedDictClass st c"
      then have "narrowForKeyAssignment st c k = (c, st)"
        by (simp add: narrowForKeyAssignment_def)
      with False show False by simp
    qed
    have "typedDictEntries (classDetails st (details c)) \<noteq> None"
    proof
      assume "typedDictEntries (classDetails st (details c)) = None"
      then have "narrowForKeyAssignment st c k = (c, st)"
        by (simp add: narrowForKeyAssignment_def)
      with False show False by simp
    qed
    then obtain cached where cached: "typedDictEntries (classDetails st (details c)) = Some cached"
      by blast
    have "\<exists>r. mapGet cached k = Some r \<and> \<not> isRequired (entryHeap st r)"
    proof (rule ccontr)
      assume "\<not> (\<exists>r. mapGet cached k = Some r \<and> \<not> isRequired (entryHeap st r))"
      with cached have "narrowForKeyAssignment st c k = (c, st)"
        by (auto simp: narrowForKeyAssignment_def Let_def split: option.splits)
      with False show False by simp
    qed
    then obtain r where
      r: "mapGet cached k = Some r" and nr: "\<not> isRequired (entryHeap st r)"
      by blast
    have notyet: "\<not> (case typedDictNarrowedEntries c of None \<Rightarrow> False
            | Some narrowed \<Rightarrow> (case mapGet narrowed k of None \<Rightarrow> False
                | Some nr \<Rightarrow> isProvided (entryHeap st nr)))"
      using False td cached r nr
      by (auto simp: narrowForKeyAssignment_def Let_def split: option.splits)
    note eq = narrow_fresh[OF td cached r nr notyet]
    with first have c1: "c1 = cloneForNarrowedTypedDictEntries c
       (mapSet (case typedDictNarrowedEntries c of Some narrowed \<Rightarrow> narrowed | None \<Rightarrow> []) k
          (nextEntry st))"
      and st1: "st1 = st\<lparr> entryHeap := (entryHeap st)(nextEntry st :=
            \<lparr> valueType = valueType (entryHeap st r), isReadOnly = isReadOnly (entryHeap st r),
              isRequired = False, isProvided = True \<rparr>),
         nextEntry := Suc (nextEntry st) \<rparr>"
      by simp_all
    have d: "details c1 = details c" by (simp add: c1 cloneForNarrowedTypedDictEntries_def)
    have 1: "isTypedDictClass st1 c1" using td by (simp add: isTypedDictClass_def d st1)
    have 2: "typedDictEntries (classDetails st1 (details c1)) = Some cached"
      using cached by (simp add: d st1)
    have 3: "typedDictNarrowedEntries c1 = Some (mapSet
        (case typedDictNarrowedEntries c of Some narrowed \<Rightarrow> narrowed | None \<Rightarrow> []) k (nextEntry st))"
      by (simp add: c1 cloneForNarrowedTypedDictEntries_def)
    have 4: "mapGet (mapSet
        (case typedDictNarrowedEntries c of Some narrowed \<Rightarrow> narrowed | None \<Rightarrow> []) k (nextEntry st)) k
        = Some (nextEntry st)"
      by (simp add: mapGet_mapSet)
    have 5: "isProvided (entryHeap st1 (nextEntry st))" by (simp add: st1)
    from narrow_again[OF 1 2 r 3 4 5] show ?thesis .
  qed
next
  assume "\<not> isTypedDictClass st c \<or> typedDictEntries (classDetails st (details c)) = None
       \<or> (\<exists>cached. typedDictEntries (classDetails st (details c)) = Some cached \<and>
             (mapGet cached k = None \<or>
              (\<exists>r. mapGet cached k = Some r \<and> isRequired (entryHeap st r))))"
  then show "narrowForKeyAssignment st c k = (c, st)" by (rule narrow_unchanged)
qed

text \<open>
  The theorem on \<open>Point\<close> with its entries resolved: narrowing \<open>label\<close> twice is
  narrowing it once, and narrowing the required key \<open>x\<close> changes nothing.
\<close>

theorem narrowForKeyAssignment_idempotent_witness:
  "narrowForKeyAssignment (snd (narrowForKeyAssignment resolvedStore pointInstance ''label''))
      (fst (narrowForKeyAssignment resolvedStore pointInstance ''label'')) ''label'' =
     narrowForKeyAssignment resolvedStore pointInstance ''label''
   \<and> typedDictNarrowedEntries (fst (narrowForKeyAssignment resolvedStore pointInstance ''label''))
       = Some [(''label'', 3)]
   \<and> narrowForKeyAssignment resolvedStore pointInstance ''x'' = (pointInstance, resolvedStore)"
proof -
  have n: "typedDictNarrowedEntries (fst (narrowForKeyAssignment resolvedStore pointInstance ''label''))
       = Some [(''label'', 3)]"
    by (simp add: narrowForKeyAssignment_def isTypedDictClass_def resolvedStore_def sample_defs
        pointEntries_def mapGet_def mapSet_def Let_def allocEntry_def
        cloneForNarrowedTypedDictEntries_def)
  have a: "narrowForKeyAssignment (snd (narrowForKeyAssignment resolvedStore pointInstance ''label''))
      (fst (narrowForKeyAssignment resolvedStore pointInstance ''label'')) ''label'' =
     narrowForKeyAssignment resolvedStore pointInstance ''label''"
    using narrowForKeyAssignment_idempotent[of resolvedStore pointInstance "''label''"
        "fst (narrowForKeyAssignment resolvedStore pointInstance ''label'')"
        "snd (narrowForKeyAssignment resolvedStore pointInstance ''label'')"]
    by simp
  have "\<exists>cached. typedDictEntries (classDetails resolvedStore (details pointInstance)) = Some cached \<and>
      (mapGet cached ''x'' = None \<or>
       (\<exists>r. mapGet cached ''x'' = Some r \<and> isRequired (entryHeap resolvedStore r)))"
    by (simp add: resolvedStore_def sample_defs pointEntries_def mapGet_def)
  with narrowForKeyAssignment_idempotent[of resolvedStore pointInstance "''x''"]
  have b: "narrowForKeyAssignment resolvedStore pointInstance ''x'' = (pointInstance, resolvedStore)"
    by blast
  from a n b show ?thesis by simp
qed

section \<open>Properties of entry resolution\<close>

lemma resolutionOrder_cong:
  shows "classDetails st1 = classDetails st \<Longrightarrow>
      resolutionOrder env st1 c rc = resolutionOrder env st c rc"
    and "classDetails st1 = classDetails st \<Longrightarrow>
      baseResolutionOrder env st1 c bases rc = baseResolutionOrder env st c bases rc"
proof (induction env st c rc and env st c bases rc arbitrary: st1 and st1
    rule: resolutionOrder_baseResolutionOrder.induct)
  case (1 env st classType recursionCount)
  show ?case
  proof (cases "recursionCount > maxTypeRecursionCount env")
    case True
    then show ?thesis by (simp add: resolutionOrder.simps)
  next
    case False
    from "1.IH"[OF False "1.prems"] "1.prems" False show ?thesis
      by (simp add: resolutionOrder.simps[of env st1] resolutionOrder.simps[of env st])
  qed
next
  case (2 env st classType recursionCount)
  show ?case by simp
next
  case (3 env st classType baseClassType rest recursionCount)
  have t: "isTypedDictClassType st1 baseClassType = isTypedDictClassType st baseClassType"
    using "3.prems"
    by (cases baseClassType) (simp_all add: isTypedDictClassType_def isTypedDictClass_def)
  show ?case
  proof (cases "isInstantiableClass baseClassType \<and> isTypedDictClassType st baseClassType")
    case False
    with "3.IH"(2)[OF "3.prems"] t show ?thesis by auto
  next
    case True
    show ?thesis
    proof (cases "classOfType (partiallySpecializeType env baseClassType classType)")
      case None
      with True "3.IH"(2)[OF "3.prems"] t show ?thesis by simp
    next
      case (Some sb)
      with True "3.IH"(1)[OF True Some "3.prems"] "3.IH"(2)[OF "3.prems"] t show ?thesis
        by simp
    qed
  qed
qed

lemma declaredIn_cong:
  "classDetails st1 = classDetails st \<Longrightarrow> declaredIn env st1 name c = declaredIn env st name c"
  by (simp add: declaredIn_def)

lemma entryFrom_cong:
  "classDetails st1 = classDetails st \<Longrightarrow> entryFrom env st1 d e = entryFrom env st d e"
  by (simp add: entryFrom_def isCanOmitDictValues_def)

lemma written_store:
  assumes "classDetails st1 = classDetails st"
  shows "written env st1 decls km km' s = written env st decls km km' s"
  by (simp add: written_def entryFrom_cong[OF assms] cong: list.case_cong)

lemma written_none: "written env st (\<lambda>name. []) km km s"
  by (simp add: written_def)

lemma written_compose:
  assumes one: "written env st d1 km km1 s1" and two: "written env st d2 km1 km2 s2"
    and fr: "allocOnly s1 s2"
  shows "written env st (\<lambda>name. d1 name @ d2 name) km km2 s2"
  unfolding written_def
proof
  fix name
  from one have a: "case d1 name of
        [] \<Rightarrow> mapGet km1 name = mapGet km name
      | d # ds \<Rightarrow> (\<exists>ref. mapGet km1 name = Some ref \<and> ref < nextEntry s1 \<and>
             entryFrom env st (last (d # ds)) (entryHeap s1 ref))"
    by (simp add: written_def)
  from two have b: "case d2 name of
        [] \<Rightarrow> mapGet km2 name = mapGet km1 name
      | d # ds \<Rightarrow> (\<exists>ref. mapGet km2 name = Some ref \<and> ref < nextEntry s2 \<and>
             entryFrom env st (last (d # ds)) (entryHeap s2 ref))"
    by (simp add: written_def)
  show "case d1 name @ d2 name of
        [] \<Rightarrow> mapGet km2 name = mapGet km name
      | d # ds \<Rightarrow> (\<exists>ref. mapGet km2 name = Some ref \<and> ref < nextEntry s2 \<and>
             entryFrom env st (last (d # ds)) (entryHeap s2 ref))"
  proof (cases "d2 name")
    case (Cons y ys)
    with b obtain ref where r: "mapGet km2 name = Some ref" "ref < nextEntry s2"
      "entryFrom env st (last (y # ys)) (entryHeap s2 ref)" by auto
    have "d1 name @ d2 name \<noteq> []" using Cons by simp
    then obtain z zs where z: "d1 name @ d2 name = z # zs" by (cases "d1 name @ d2 name") auto
    have "last (z # zs) = last (y # ys)" using z[symmetric] Cons by simp
    with r z show ?thesis by auto
  next
    case Nil
    with b have e: "mapGet km2 name = mapGet km1 name" by simp
    show ?thesis
    proof (cases "d1 name")
      case Nil
      with a e \<open>d2 name = []\<close> show ?thesis by simp
    next
      case (Cons y ys)
      with a obtain ref where r: "mapGet km1 name = Some ref" "ref < nextEntry s1"
        "entryFrom env st (last (y # ys)) (entryHeap s1 ref)" by auto
      from fr r(2) have "entryHeap s2 ref = entryHeap s1 ref" "ref < nextEntry s2"
        by (simp_all add: allocOnly_def)
      with r e Cons \<open>d2 name = []\<close> show ?thesis by auto
    qed
  qed
qed

lemma addClassField_ineligible:
  "\<not> eligibleField env symbol \<Longrightarrow> addClassField env c ctx (km, st) (n, symbol) = (km, st)"
  by (auto simp: addClassField_def eligibleField_def split: option.splits)

lemma written_field:
  assumes step: "addClassField env c ctx (km, s) (n, symbol) = (km', s')"
    and cd: "classDetails s = classDetails st"
  shows "written env st
     (\<lambda>name. if name = n \<and> eligibleField env symbol then [(c, symbol)] else []) km km' s'"
proof (cases "eligibleField env symbol")
  case False
  with step addClassField_ineligible[OF False, of c ctx km s n] show ?thesis
    by (simp add: written_def)
next
  case True
  from cd have omit: "isCanOmitDictValues s c = isCanOmitDictValues st c"
    by (simp add: isCanOmitDictValues_def)
  note e = addClassField_eligible[OF step True]
  show ?thesis
    unfolding written_def
  proof
    fix name
    show "case if name = n \<and> eligibleField env symbol then [(c, symbol)] else [] of
        [] \<Rightarrow> mapGet km' name = mapGet km name
      | d # ds \<Rightarrow> (\<exists>ref. mapGet km' name = Some ref \<and> ref < nextEntry s' \<and>
             entryFrom env st (last (d # ds)) (entryHeap s' ref))"
    proof (cases "name = n")
      case False
      with addClassField_other[OF step] show ?thesis by auto
    next
      case eq: True
      from e omit have "mapGet km' n = Some (nextEntry s) \<and> nextEntry s < nextEntry s' \<and>
          entryFrom env st (c, symbol) (entryHeap s' (nextEntry s))"
        by (simp add: entryFrom_def)
      with eq True show ?thesis by auto
    qed
  qed
qed

lemma addClassFields_frame:
  "foldl (addClassField env c ctx) (km, s) fs = (km', s') \<Longrightarrow> allocOnly s s'"
proof (induction fs arbitrary: km s)
  case Nil
  then show ?case by simp
next
  case (Cons f fs km s)
  obtain km1 s1 where s1: "addClassField env c ctx (km, s) f = (km1, s1)"
    by (cases "addClassField env c ctx (km, s) f")
  with Cons.prems have "foldl (addClassField env c ctx) (km1, s1) fs = (km', s')" by simp
  from Cons.IH[OF this] addClassField_frame[OF s1] show ?case
    using allocOnly_trans by blast
qed

lemma written_fields:
  assumes "foldl (addClassField env c ctx) (km, s) fs = (km', s')"
    and "classDetails s = classDetails st"
  shows "written env st
     (\<lambda>name. map (\<lambda>(n, symbol). (c, symbol))
        (filter (\<lambda>(n, symbol). n = name \<and> eligibleField env symbol) fs)) km km' s'"
  using assms
proof (induction fs arbitrary: km s)
  case Nil
  then show ?case by (simp add: written_none)
next
  case (Cons f fs km s)
  obtain n symbol where f: "f = (n, symbol)" by (cases f)
  obtain km1 s1 where s1: "addClassField env c ctx (km, s) (n, symbol) = (km1, s1)"
    by (cases "addClassField env c ctx (km, s) (n, symbol)")
  note fr = addClassField_frame[OF s1]
  with Cons.prems(2) have cd1: "classDetails s1 = classDetails st" by (simp add: allocOnly_def)
  from Cons.prems(1) s1 f have r: "foldl (addClassField env c ctx) (km1, s1) fs = (km', s')"
    by simp
  have fr2: "allocOnly s1 s'" using addClassFields_frame[OF r] .
  have eq: "(\<lambda>name. (if name = n \<and> eligibleField env symbol then [(c, symbol)] else []) @
        map (\<lambda>(n, symbol). (c, symbol))
          (filter (\<lambda>(n, symbol). n = name \<and> eligibleField env symbol) fs)) =
      (\<lambda>name. map (\<lambda>(n, symbol). (c, symbol))
          (filter (\<lambda>(n, symbol). n = name \<and> eligibleField env symbol) (f # fs)))"
    by (auto simp: fun_eq_iff f)
  from written_compose[OF written_field[OF s1 Cons.prems(2)] Cons.IH[OF r cd1] fr2]
  show ?case unfolding eq .
qed

lemma resolution_written:
  shows "getTypedDictMembersForClassRecursive env st c km rc = Inr (km', st') \<Longrightarrow>
      written env st
        (\<lambda>name. concat (map (declaredIn env st name) (resolutionOrder env st c rc))) km km' st'"
    and "gatherBaseClassMembers env st c bases km rc = Inr (km', st') \<Longrightarrow>
      written env st
        (\<lambda>name. concat (map (declaredIn env st name) (baseResolutionOrder env st c bases rc)))
        km km' st'"
proof (induction env st c km rc and env st c bases km rc arbitrary: km' st' and km' st'
    rule: getTypedDictMembersForClassRecursive_gatherBaseClassMembers.induct)
  case (1 env st classType keyMap recursionCount)
  note res = "1.prems"
  show ?case
  proof (cases "recursionCount > maxTypeRecursionCount env")
    case True
    with res have "km' = keyMap" "st' = st"
      by (auto simp: getTypedDictMembersForClassRecursive.simps split: if_splits)
    with True show ?thesis by (simp add: resolutionOrder.simps written_none)
  next
    case False
    from res have td: "isTypedDictClass st classType"
      by (auto simp: getTypedDictMembersForClassRecursive.simps split: if_splits)
    from res False td obtain km1 st1 where
      g: "gatherBaseClassMembers env st classType
            (baseClasses (classDetails st (details classType))) keyMap (recursionCount + 1)
          = Inr (km1, st1)"
      and f: "foldl (addClassField env classType
                (buildTypeVarContextFromSpecializedClass env classType))
                (km1, st1) (classFields (classDetails st1 (details classType))) = (km', st')"
      by (auto simp: getTypedDictMembersForClassRecursive.simps split: sum.splits)
    from td False have c1: "\<not> \<not> isTypedDictClass st classType"
      and c2: "\<not> maxTypeRecursionCount env < recursionCount" by simp_all
    note w1 = "1.IH"[OF c1 c2 g]
    from gather_frame[OF g] have cd: "classDetails st1 = classDetails st"
      by (simp add: allocOnly_def)
    have fr2: "allocOnly st1 st'" using addClassFields_frame[OF f] .
    note w2 = written_fields[OF f cd]
    have eq: "(\<lambda>name. concat (map (declaredIn env st name)
          (baseResolutionOrder env st classType
             (baseClasses (classDetails st (details classType))) (recursionCount + 1))) @
        map (\<lambda>(n, symbol). (classType, symbol))
          (filter (\<lambda>(n, symbol). n = name \<and> eligibleField env symbol)
             (classFields (classDetails st1 (details classType))))) =
      (\<lambda>name. concat (map (declaredIn env st name)
          (resolutionOrder env st classType recursionCount)))"
      using False by (simp add: fun_eq_iff resolutionOrder.simps declaredIn_def cd)
    from written_compose[OF w1 w2 fr2] show ?thesis unfolding eq .
  qed
next
  case (2 env st classType keyMap recursionCount)
  then show ?case by (simp add: written_none)
next
  case (3 env st classType baseClassType rest keyMap recursionCount)
  note res = "3.prems"
  show ?case
  proof (cases "isInstantiableClass baseClassType \<and> isTypedDictClassType st baseClassType")
    case False
    with res have r: "gatherBaseClassMembers env st classType rest keyMap recursionCount
        = Inr (km', st')" by simp
    have o: "baseResolutionOrder env st classType (baseClassType # rest) recursionCount =
        baseResolutionOrder env st classType rest recursionCount"
      using False by auto
    from "3.IH"(3)[OF False r] show ?thesis unfolding o .
  next
    case True
    with res obtain sb where
      sb: "classOfType (partiallySpecializeType env baseClassType classType) = Some sb"
      by (auto split: option.splits)
    from res True sb obtain km1 st1 where
      r1: "getTypedDictMembersForClassRecursive env st sb keyMap recursionCount = Inr (km1, st1)"
      and r2: "gatherBaseClassMembers env st1 classType rest km1 recursionCount = Inr (km', st')"
      by (auto split: sum.splits)
    note w1 = "3.IH"(1)[OF True sb r1]
    from resolution_frame[OF r1] have cd: "classDetails st1 = classDetails st"
      by (simp add: allocOnly_def)
    from "3.IH"(2)[OF True sb r1 refl r2]
    have w2: "written env st
        (\<lambda>name. concat (map (declaredIn env st name)
           (baseResolutionOrder env st classType rest recursionCount))) km1 km' st'"
      by (simp add: written_store[OF cd] declaredIn_cong[OF cd] resolutionOrder_cong(2)[OF cd])
    have eq: "(\<lambda>name. concat (map (declaredIn env st name)
          (resolutionOrder env st sb recursionCount)) @
        concat (map (declaredIn env st name)
          (baseResolutionOrder env st classType rest recursionCount))) =
      (\<lambda>name. concat (map (declaredIn env st name)
          (baseResolutionOrder env st classType (baseClassType # rest) recursionCount)))"
      using True sb by (simp add: fun_eq_iff)
    from written_compose[OF w1 w2 gather_frame[OF r2]] show ?thesis unfolding eq .
  qed
qed

lemma declared_member:
  assumes "(owner, symbol) \<in> set (concat (map (declaredIn env st name) order))"
  shows "owner \<in> set order \<and>
     (name, symbol) \<in> set (classFields (classDetails st (details owner))) \<and>
     eligibleField env symbol"
  using assms by (auto simp: declaredIn_def)

text \<open>
  C5. A name has an entry after entry resolution exactly when a class that resolution
  visits declares it, and every entry has an owning declaration: the last declaration of
  its name in resolution order (the base classes in base-class order, each after its own
  base classes, then the class itself), a field of the owning class. If the symbol of the
  field carries no \<open>Required\<close> and no \<open>NotRequired\<close> annotation, the entry is required
  exactly when the owning class cannot omit values. If it carries \<open>Required\<close>, the
  entry is required, and if it carries \<open>NotRequired\<close> (and not \<open>Required\<close> as well), the
  entry is not required, whatever the totality of the owning class. The fields of the
  resolved class itself get their entries by this rule with the totality of that class.
\<close>

theorem resolved_requiredness:
  assumes "getTypedDictMembersForClassRecursive env st classType [] 0 = Inr (keyMap, st')"
  shows "(\<forall>name. (mapGet keyMap name = None) = (owningDeclaration env st classType name = None))
       \<and> (\<forall>(name, ref) \<in> set keyMap.
            \<exists>owner symbol.
              owningDeclaration env st classType name = Some (owner, symbol) \<and>
              owner \<in> set (resolutionOrder env st classType 0) \<and>
              (name, symbol) \<in> set (classFields (classDetails st (details owner))) \<and>
              eligibleField env symbol \<and>
              (\<not> isRequiredTypedDictVariable env symbol \<and>
               \<not> isNotRequiredTypedDictVariable env symbol \<longrightarrow>
                 isRequired (entryHeap st' ref) = (\<not> isCanOmitDictValues st owner)) \<and>
              (isRequiredTypedDictVariable env symbol \<longrightarrow> isRequired (entryHeap st' ref)) \<and>
              (isNotRequiredTypedDictVariable env symbol \<and>
               \<not> isRequiredTypedDictVariable env symbol \<longrightarrow> \<not> isRequired (entryHeap st' ref)))
       \<and> (distinct (map fst (classFields (classDetails st (details classType)))) \<longrightarrow>
            (\<forall>(name, symbol) \<in> set (classFields (classDetails st (details classType))).
               eligibleField env symbol \<longrightarrow>
               (\<exists>ref. mapGet keyMap name = Some ref \<and>
                  isRequired (entryHeap st' ref) =
                    (if isRequiredTypedDictVariable env symbol then True
                     else if isNotRequiredTypedDictVariable env symbol then False
                     else \<not> isCanOmitDictValues st classType))))"
proof (intro conjI impI allI)
  let ?D = "\<lambda>name. concat (map (declaredIn env st name) (resolutionOrder env st classType 0))"
  from resolution_written(1)[OF assms]
  have w: "case ?D name of
        [] \<Rightarrow> mapGet keyMap name = mapGet [] name
      | d # ds \<Rightarrow> (\<exists>ref. mapGet keyMap name = Some ref \<and> ref < nextEntry st' \<and>
             entryFrom env st (last (d # ds)) (entryHeap st' ref))" for name
    by (simp add: written_def)
  show "(mapGet keyMap name = None) = (owningDeclaration env st classType name = None)" for name
  proof (cases "?D name")
    case Nil
    with w[of name] have "mapGet keyMap name = None" by (simp add: mapGet_def)
    moreover have "owningDeclaration env st classType name = None"
      by (simp only: owningDeclaration_def Nil list.case)
    ultimately show ?thesis by simp
  next
    case (Cons d ds)
    with w[of name] have "mapGet keyMap name \<noteq> None" by auto
    moreover have "owningDeclaration env st classType name \<noteq> None"
      by (simp only: owningDeclaration_def Cons list.case) simp
    ultimately show ?thesis by auto
  qed
  show "\<forall>(name, ref) \<in> set keyMap.
            \<exists>owner symbol.
              owningDeclaration env st classType name = Some (owner, symbol) \<and>
              owner \<in> set (resolutionOrder env st classType 0) \<and>
              (name, symbol) \<in> set (classFields (classDetails st (details owner))) \<and>
              eligibleField env symbol \<and>
              (\<not> isRequiredTypedDictVariable env symbol \<and>
               \<not> isNotRequiredTypedDictVariable env symbol \<longrightarrow>
                 isRequired (entryHeap st' ref) = (\<not> isCanOmitDictValues st owner)) \<and>
              (isRequiredTypedDictVariable env symbol \<longrightarrow> isRequired (entryHeap st' ref)) \<and>
              (isNotRequiredTypedDictVariable env symbol \<and>
               \<not> isRequiredTypedDictVariable env symbol \<longrightarrow> \<not> isRequired (entryHeap st' ref))"
  proof clarify
    fix name ref assume m: "(name, ref) \<in> set keyMap"
    from resolution_distinct[OF assms] m have g: "mapGet keyMap name = Some ref"
      by (simp add: mapGet_def)
    with w[of name] obtain d ds where D: "?D name = d # ds"
      by (cases "?D name") (auto simp: mapGet_def)
    obtain owner symbol where l: "last (d # ds) = (owner, symbol)" by (cases "last (d # ds)")
    from D l have o: "owningDeclaration env st classType name = Some (owner, symbol)"
      by (simp add: owningDeclaration_def)
    have "last (d # ds) \<in> set (d # ds)" by (rule last_in_set) simp
    with D l have "(owner, symbol) \<in> set (?D name)" by simp
    note mem = declared_member[OF this]
    from w[of name] D l g have e: "entryFrom env st (owner, symbol) (entryHeap st' ref)"
      by auto
    then have r: "isRequired (entryHeap st' ref) =
        requirednessOf env (isCanOmitDictValues st owner) symbol"
      by (simp add: entryFrom_def)
    show "\<exists>owner symbol.
              owningDeclaration env st classType name = Some (owner, symbol) \<and>
              owner \<in> set (resolutionOrder env st classType 0) \<and>
              (name, symbol) \<in> set (classFields (classDetails st (details owner))) \<and>
              eligibleField env symbol \<and>
              (\<not> isRequiredTypedDictVariable env symbol \<and>
               \<not> isNotRequiredTypedDictVariable env symbol \<longrightarrow>
                 isRequired (entryHeap st' ref) = (\<not> isCanOmitDictValues st owner)) \<and>
              (isRequiredTypedDictVariable env symbol \<longrightarrow> isRequired (entryHeap st' ref)) \<and>
              (isNotRequiredTypedDictVariable env symbol \<and>
               \<not> isRequiredTypedDictVariable env symbol \<longrightarrow> \<not> isRequired (entryHeap st' ref))"
      by (rule exI[of _ owner], rule exI[of _ symbol])
         (simp add: o mem r requirednessOf_def)
  qed
next
  assume d: "distinct (map fst (classFields (classDetails st (details classType))))"
  show "\<forall>(name, symbol) \<in> set (classFields (classDetails st (details classType))).
               eligibleField env symbol \<longrightarrow>
               (\<exists>ref. mapGet keyMap name = Some ref \<and>
                  isRequired (entryHeap st' ref) =
                    (if isRequiredTypedDictVariable env symbol then True
                     else if isNotRequiredTypedDictVariable env symbol then False
                     else \<not> isCanOmitDictValues st classType))"
  proof (intro ballI, clarify)
    fix name symbol
    assume m: "(name, symbol) \<in> set (classFields (classDetails st (details classType)))"
      and e: "eligibleField env symbol"
    from resolution_own_fields[OF assms _ d m e]
    show "\<exists>ref. mapGet keyMap name = Some ref \<and>
                  isRequired (entryHeap st' ref) =
                    (if isRequiredTypedDictVariable env symbol then True
                     else if isNotRequiredTypedDictVariable env symbol then False
                     else \<not> isCanOmitDictValues st classType)"
      by (auto simp: requirednessOf_def)
  qed
qed

lemmas order_defs =
  owningDeclaration_def resolutionOrder.simps declaredIn_def eligibleField_def
  isInstantiableClass_def isTypedDictClassType_def isTypedDictClass_def classOfType_def

lemma derived_owners:
  "owningDeclaration sampleEnv sampleStore derivedInstance ''year'' =
     Some (baseTotClass, variableSymbol [10])"
  "owningDeclaration sampleEnv sampleStore derivedInstance ''tag'' =
     Some (baseOptClass, variableSymbol [10])"
  "owningDeclaration sampleEnv sampleStore derivedInstance ''title'' =
     Some (derivedInstance, variableSymbol [12])"
  by (simp_all add: order_defs sample_defs)

lemma movie_owners:
  "owningDeclaration sampleEnv sampleStore movieInstance ''title'' =
     Some (movieInstance, variableSymbol [13])"
  "owningDeclaration sampleEnv sampleStore movieInstance ''year'' =
     Some (movieInstance, variableSymbol [10])"
  by (simp_all add: order_defs sample_defs)

lemma sample_annotations:
  "\<not> isRequiredTypedDictVariable sampleEnv (variableSymbol [10])"
  "\<not> isNotRequiredTypedDictVariable sampleEnv (variableSymbol [10])"
  "\<not> isRequiredTypedDictVariable sampleEnv (variableSymbol [12])"
  "isNotRequiredTypedDictVariable sampleEnv (variableSymbol [12])"
  "isRequiredTypedDictVariable sampleEnv (variableSymbol [13])"
  by (simp_all add: isRequiredTypedDictVariable_def isNotRequiredTypedDictVariable_def
      annotationHas_def sample_defs)

lemma sample_totality:
  "\<not> isCanOmitDictValues sampleStore baseTotClass" "isCanOmitDictValues sampleStore baseOptClass"
  "\<not> isCanOmitDictValues sampleStore derivedInstance"
  "isCanOmitDictValues sampleStore movieInstance"
  by (simp_all add: isCanOmitDictValues_def sample_defs)

text \<open>
  The theorem on \<open>Derived\<close> and on \<open>Movie\<close>. \<open>Derived\<close> is total and has the bases
  \<open>BaseOpt\<close>, which is not total, and \<open>BaseTot\<close>, in this order; both declare
  \<open>year\<close> without a modifier. The owning class of \<open>year\<close> is \<open>BaseTot\<close>, the last
  one, so \<open>year\<close> is required; \<open>tag\<close>, of \<open>BaseOpt\<close> only, is not required; and
  \<open>title\<close>, declared \<open>NotRequired\<close> in \<open>Derived\<close> itself, is not required. In
  \<open>Movie\<close>, which is not total, \<open>title\<close>, declared \<open>Required\<close>, is required, and
  \<open>year\<close>, without a modifier, is not.
\<close>

theorem resolved_requiredness_witness:
  "getTypedDictMembersForClassRecursive sampleEnv sampleStore derivedInstance [] 0 =
     Inr ([(''year'', 2), (''tag'', 1), (''title'', 3)], derivedStore)
   \<and> owningDeclaration sampleEnv sampleStore derivedInstance ''year'' =
       Some (baseTotClass, variableSymbol [10])
   \<and> isRequired (entryHeap derivedStore 2)
   \<and> \<not> isRequired (entryHeap derivedStore 1)
   \<and> \<not> isRequired (entryHeap derivedStore 3)
   \<and> getTypedDictMembersForClassRecursive sampleEnv sampleStore movieInstance [] 0 =
       Inr ([(''title'', 0), (''year'', 1)], movieStore)
   \<and> isRequired (entryHeap movieStore 0)
   \<and> \<not> isRequired (entryHeap movieStore 1)"
proof -
  note d = resolved_requiredness[OF derived_resolution, THEN conjunct2, THEN conjunct1,
      rule_format]
  note m = resolved_requiredness[OF movie_resolution, THEN conjunct2, THEN conjunct1,
      rule_format]
  from d[of "(''year'', 2)"] have a: "isRequired (entryHeap derivedStore 2)"
    by (auto simp: derived_owners sample_annotations sample_totality)
  from d[of "(''tag'', 1)"] have b: "\<not> isRequired (entryHeap derivedStore 1)"
    by (auto simp: derived_owners sample_annotations sample_totality)
  from d[of "(''title'', 3)"] have c: "\<not> isRequired (entryHeap derivedStore 3)"
    by (auto simp: derived_owners sample_annotations sample_totality)
  from m[of "(''title'', 0)"] have e: "isRequired (entryHeap movieStore 0)"
    by (auto simp: movie_owners sample_annotations sample_totality)
  from m[of "(''year'', 1)"] have f: "\<not> isRequired (entryHeap movieStore 1)"
    by (auto simp: movie_owners sample_annotations sample_totality)
  from derived_resolution movie_resolution derived_owners(1) a b c e f show ?thesis by simp
qed

section \<open>Properties of TypedDict assignability\<close>

lemma addendumExtends_refl [simp]: "addendumExtends d d"
  by (simp add: addendumExtends_def)

lemma addendumExtends_trans:
  "addendumExtends a b \<Longrightarrow> addendumExtends b c \<Longrightarrow> addendumExtends a c"
  by (auto simp: addendumExtends_def)

lemma addendumExtends_add [simp]: "addendumExtends d (addAddendum child d)"
  by (simp add: addendumExtends_def addAddendum_def)

lemma addendumExtends_child:
  "addendumExtends d d' \<Longrightarrow> child \<in> set (childAddenda d) \<Longrightarrow> child \<in> set (childAddenda d')"
  by (auto simp: addendumExtends_def)

lemma child_added [simp]: "child \<in> set (childAddenda (addAddendum child d))"
  by (simp add: addAddendum_def)

lemma diagExtends_refl [simp]: "diagExtends d d"
  by (simp add: diagExtends_def split: option.splits)

lemma diagExtends_trans: "diagExtends a b \<Longrightarrow> diagExtends b c \<Longrightarrow> diagExtends a c"
  by (auto simp: diagExtends_def split: option.splits intro: addendumExtends_trans)

lemma diagExtends_add [simp]: "diagExtends diag (map_option (addAddendum child) diag)"
  by (simp add: diagExtends_def split: option.splits)

lemma diagExtends_more:
  "diagExtends diag x \<Longrightarrow> diagExtends diag (map_option (addAddendum c) x)"
  by (cases diag; cases x) (auto simp: diagExtends_def addendumExtends_def addAddendum_def)

lemma diagExtends_if:
  "diagExtends diag x \<Longrightarrow> diagExtends diag (if b then map_option (addAddendum c) x else x)"
  by (simp add: diagExtends_more)

lemma assignTypedDictEntry_step:
  assumes "assignTypedDictEntry env st destType srcType srcEntries flags rc (ok, diag, ctx) kv
      = (ok', diag', ctx')"
  shows "(ok' \<longrightarrow> ok) \<and> diagExtends diag diag'"
proof -
  obtain name destRef where kv: "kv = (name, destRef)" by (cases kv)
  show ?thesis
  proof (cases "mapGet srcEntries name")
    case None
    show ?thesis
    proof (cases "isRequired (entryHeap st destRef) \<or> \<not> isReadOnly (entryHeap st destRef)")
      case True
      with assms None show ?thesis
        by (auto simp: assignTypedDictEntry_def kv Let_def diagExtends_more)
    next
      case False
      with assms None show ?thesis
        by (auto simp: assignTypedDictEntry_def kv Let_def diagExtends_more
            split: prod.splits if_splits)
    qed
  next
    case (Some srcRef)
    define diag1 where "diag1 =
      (if isRequired (entryHeap st destRef) \<noteq> isRequired (entryHeap st srcRef) \<and>
          \<not> isReadOnly (entryHeap st destRef)
       then map_option (addAddendum (addMessage
              ((if isRequired (entryHeap st destRef) then TypedDictFieldRequired
                else TypedDictFieldNotRequired) name (printType env (ClassType destType)))
              emptyAddendum)) diag
       else diag)"
    define diag2 where "diag2 =
      (if \<not> isReadOnly (entryHeap st destRef) \<and> isReadOnly (entryHeap st srcRef)
       then map_option (addAddendum (addMessage
              (TypedDictFieldNotReadOnly name (printType env (ClassType destType)))
              emptyAddendum)) diag1
       else diag1)"
    have e1: "diagExtends diag diag1" unfolding diag1_def by (rule diagExtends_if) simp
    have e2: "diagExtends diag diag2" unfolding diag2_def by (rule diagExtends_if) (rule e1)
    from assms Some obtain sub where d': "diag' = map_option (addAddendum sub) diag2"
      and okk: "ok' \<longrightarrow> ok"
      unfolding diag2_def diag1_def
      by (auto simp: assignTypedDictEntry_def kv Let_def split: prod.splits if_splits)
    from e2 have "diagExtends diag diag'" unfolding d' by (rule diagExtends_more)
    with okk show ?thesis by simp
  qed
qed

lemma assignTypedDictEntries_fold:
  assumes "foldl (assignTypedDictEntry env st destType srcType srcEntries flags rc)
      (ok, diag, ctx) xs = (ok', diag', ctx')"
  shows "(ok' \<longrightarrow> ok) \<and> diagExtends diag diag'"
  using assms
proof (induction xs arbitrary: ok diag ctx)
  case Nil
  then show ?case by simp
next
  case (Cons x xs)
  obtain ok1 diag1 ctx1 where s: "assignTypedDictEntry env st destType srcType srcEntries flags rc
      (ok, diag, ctx) x = (ok1, diag1, ctx1)"
    by (cases "assignTypedDictEntry env st destType srcType srcEntries flags rc (ok, diag, ctx) x")
  from Cons.prems s have "foldl (assignTypedDictEntry env st destType srcType srcEntries flags rc)
      (ok1, diag1, ctx1) xs = (ok', diag', ctx')" by simp
  from Cons.IH[OF this] assignTypedDictEntry_step[OF s] show ?case
    using diagExtends_trans by blast
qed

lemma diagExtends_child:
  "diagExtends (Some d) diag' \<Longrightarrow> child \<in> set (childAddenda d) \<Longrightarrow>
     \<exists>d'. diag' = Some d' \<and> child \<in> set (childAddenda d')"
  by (auto simp: diagExtends_def intro: addendumExtends_child)

text \<open>A field on which the step fails whatever came before makes the whole check fail.\<close>

lemma assignTypedDictEntries_fail:
  assumes "foldl (assignTypedDictEntry env st destType srcType srcEntries flags rc)
      (ok, diag, ctx) xs = (ok', diag', ctx')"
    and "x \<in> set xs"
    and "\<And>ok0 diag0 ctx0. \<not> fst (assignTypedDictEntry env st destType srcType srcEntries flags rc
        (ok0, diag0, ctx0) x)"
  shows "\<not> ok'"
  using assms(1,2)
proof (induction xs arbitrary: ok diag ctx)
  case Nil
  then show ?case by simp
next
  case (Cons y xs)
  obtain ok1 diag1 ctx1 where s: "assignTypedDictEntry env st destType srcType srcEntries flags rc
      (ok, diag, ctx) y = (ok1, diag1, ctx1)"
    by (cases "assignTypedDictEntry env st destType srcType srcEntries flags rc (ok, diag, ctx) y")
  from Cons.prems(1) s have r: "foldl (assignTypedDictEntry env st destType srcType srcEntries flags rc)
      (ok1, diag1, ctx1) xs = (ok', diag', ctx')" by simp
  show ?case
  proof (cases "x = y")
    case True
    with assms(3)[of ok diag ctx] s have "\<not> ok1" by simp
    with assignTypedDictEntries_fold[OF r] show ?thesis by simp
  next
    case False
    with Cons.prems(2) have "x \<in> set xs" by simp
    from Cons.IH[OF r this] show ?thesis .
  qed
qed

text \<open>A child addendum that the step adds whatever came before is in the final addendum.\<close>

lemma assignTypedDictEntries_child:
  assumes "foldl (assignTypedDictEntry env st destType srcType srcEntries flags rc)
      (ok, Some d, ctx) xs = (ok', diag', ctx')"
    and "x \<in> set xs"
    and "\<And>ok0 d0 ctx0. \<exists>d1. fst (snd (assignTypedDictEntry env st destType srcType srcEntries flags rc
        (ok0, Some d0, ctx0) x)) = Some d1 \<and> child \<in> set (childAddenda d1)"
  shows "\<exists>d'. diag' = Some d' \<and> child \<in> set (childAddenda d')"
  using assms(1,2)
proof (induction xs arbitrary: ok d ctx)
  case Nil
  then show ?case by simp
next
  case (Cons y xs)
  obtain ok1 diag1 ctx1 where s: "assignTypedDictEntry env st destType srcType srcEntries flags rc
      (ok, Some d, ctx) y = (ok1, diag1, ctx1)"
    by (cases "assignTypedDictEntry env st destType srcType srcEntries flags rc (ok, Some d, ctx) y")
  from assignTypedDictEntry_step[OF s] obtain d1 where d1: "diag1 = Some d1"
    by (auto simp: diagExtends_def)
  from Cons.prems(1) s d1 have r: "foldl (assignTypedDictEntry env st destType srcType srcEntries flags rc)
      (ok1, Some d1, ctx1) xs = (ok', diag', ctx')" by simp
  show ?case
  proof (cases "x = y")
    case True
    with assms(3)[of ok d ctx] s d1 have "child \<in> set (childAddenda d1)" by simp
    with assignTypedDictEntries_fold[OF r] show ?thesis
      using diagExtends_child by blast
  next
    case False
    with Cons.prems(2) have "x \<in> set xs" by simp
    from Cons.IH[OF r this] show ?thesis .
  qed
qed

lemma assignTypedDictToTypedDict_unfold:
  assumes "getTypedDictMembersForClass env st destType False = Inr (destEntries, st1)"
    and "getTypedDictMembersForClass env st1 srcType True = Inr (srcEntries, st2)"
  shows "assignTypedDictToTypedDict env st destType srcType diag ctx flags rc =
     Inr (foldl (assignTypedDictEntry env st2 destType srcType srcEntries flags rc)
            (True, diag, ctx) destEntries, st2)"
  using assms by (simp add: assignTypedDictToTypedDict_def)

lemma missing_step_fail:
  assumes "mapGet srcEntries name = None"
    and "isRequired (entryHeap st destRef) \<or> \<not> isReadOnly (entryHeap st destRef)"
  shows "assignTypedDictEntry env st destType srcType srcEntries flags rc (ok, diag, ctx)
      (name, destRef) =
    (False, map_option (addAddendum (missingFieldAddendum env srcType name)) diag, ctx)"
  using assms by (auto simp: assignTypedDictEntry_def missingFieldAddendum_def Let_def)

lemma missing_step_object:
  assumes "mapGet srcEntries name = None"
    and "\<not> isRequired (entryHeap st destRef)" and "isReadOnly (entryHeap st destRef)"
  shows "fst (assignTypedDictEntry env st destType srcType srcEntries flags rc (True, diag, ctx)
      (name, destRef)) =
    (isClassInstance (getObjectType env) \<longrightarrow>
       fst (callAssignType env (valueType (entryHeap st destRef)) (getObjectType env)
              (map_option (\<lambda>d. emptyAddendum) diag) ctx flags rc))"
  using assms by (auto simp: assignTypedDictEntry_def Let_def split: prod.splits)

lemma const_map_option [simp]:
  "map_option (\<lambda>d. c) (map_option f x) = map_option (\<lambda>d. c) x"
  by (cases x) simp_all

lemma present_step:
  assumes "mapGet srcEntries name = Some srcRef"
  shows "fst (assignTypedDictEntry env st destType srcType srcEntries flags rc (True, diag, ctx)
      (name, destRef)) =
    (\<not> (isRequired (entryHeap st destRef) \<noteq> isRequired (entryHeap st srcRef) \<and>
          \<not> isReadOnly (entryHeap st destRef)) \<and>
     \<not> (\<not> isReadOnly (entryHeap st destRef) \<and> isReadOnly (entryHeap st srcRef)) \<and>
     fst (callAssignType env (valueType (entryHeap st destRef)) (valueType (entryHeap st srcRef))
            (map_option (\<lambda>d. emptyAddendum) diag) ctx
            (if isReadOnly (entryHeap st destRef) then flags else insert EnforceInvariance flags)
            rc))"
  using assms
  by (simp add: assignTypedDictEntry_def Let_def if_distrib[of "map_option (\<lambda>d. emptyAddendum)"]
      split: prod.splits)

lemma present_step_any:
  assumes "mapGet srcEntries name = Some srcRef"
    and "\<not> fst (callAssignType env (valueType (entryHeap st destRef)) (valueType (entryHeap st srcRef))
            (map_option (\<lambda>d. emptyAddendum) diag) ctx
            (if isReadOnly (entryHeap st destRef) then flags else insert EnforceInvariance flags)
            rc)"
  shows "\<not> fst (assignTypedDictEntry env st destType srcType srcEntries flags rc (ok, diag, ctx)
      (name, destRef))"
proof (cases "isReadOnly (entryHeap st destRef)")
  case True
  obtain okc inner ctx1 where c: "callAssignType env (valueType (entryHeap st destRef))
      (valueType (entryHeap st srcRef)) (map_option (\<lambda>d. emptyAddendum) diag) ctx flags rc
      = (okc, inner, ctx1)"
    by (cases "callAssignType env (valueType (entryHeap st destRef))
      (valueType (entryHeap st srcRef)) (map_option (\<lambda>d. emptyAddendum) diag) ctx flags rc")
  with assms(2) True have "\<not> okc" by simp
  with assms(1) True c show ?thesis
    by (simp add: assignTypedDictEntry_def Let_def)
next
  case False
  obtain okc inner ctx1 where c: "callAssignType env (valueType (entryHeap st destRef))
      (valueType (entryHeap st srcRef)) (map_option (\<lambda>d. emptyAddendum) diag) ctx
      (insert EnforceInvariance flags) rc = (okc, inner, ctx1)"
    by (cases "callAssignType env (valueType (entryHeap st destRef))
      (valueType (entryHeap st srcRef)) (map_option (\<lambda>d. emptyAddendum) diag) ctx
      (insert EnforceInvariance flags) rc")
  with assms(2) False have "\<not> okc" by simp
  with assms(1) False c show ?thesis
    by (simp add: assignTypedDictEntry_def Let_def if_distrib[of "map_option (\<lambda>d. emptyAddendum)"])
qed

lemma fst_callAssignType [simp]:
  "fst (callAssignType env d s diag ctx flags rc) = fst (assignType env d s diag ctx flags rc)"
  by (simp add: callAssignType_def split: prod.splits)

text \<open>
  C2. For a field that the destination and the source both declare, take a source value
  type that the evaluator accepts under the caller's flags (ordinary assignability) and
  rejects whenever invariance is enforced: a strict subtype. If the destination field is
  writable, \<open>assignTypedDictToTypedDict\<close> returns false; if it is read-only, the check
  of that field succeeds, and the whole check succeeds when it is the only destination
  field. The value types are compared with \<open>EnforceInvariance\<close> added to the caller's
  flags exactly when the destination field is writable.
\<close>

theorem common_field_variance:
  assumes "getTypedDictMembersForClass env st destType False = Inr (destEntries, st1)"
    and "getTypedDictMembersForClass env st1 srcType True = Inr (srcEntries, st2)"
    and "(name, destRef) \<in> set destEntries" and "mapGet srcEntries name = Some srcRef"
    and "\<forall>dg cx fl. EnforceInvariance \<in> fl \<longrightarrow>
           \<not> fst (assignType env (valueType (entryHeap st2 destRef))
                     (valueType (entryHeap st2 srcRef)) dg cx fl rc)"
    and "\<forall>dg cx. fst (assignType env (valueType (entryHeap st2 destRef))
                     (valueType (entryHeap st2 srcRef)) dg cx flags rc)"
  shows "\<exists>ok diag' ctx'.
      assignTypedDictToTypedDict env st destType srcType diag ctx flags rc =
        Inr ((ok, diag', ctx'), st2) \<and>
      (\<not> isReadOnly (entryHeap st2 destRef) \<longrightarrow> \<not> ok) \<and>
      (isReadOnly (entryHeap st2 destRef) \<longrightarrow>
         (\<forall>dg cx. fst (assignTypedDictEntry env st2 destType srcType srcEntries flags rc
                         (True, dg, cx) (name, destRef)))) \<and>
      (isReadOnly (entryHeap st2 destRef) \<and> destEntries = [(name, destRef)] \<longrightarrow> ok) \<and>
      (\<forall>dg cx. fst (assignTypedDictEntry env st2 destType srcType srcEntries flags rc
                      (True, dg, cx) (name, destRef)) =
         (\<not> (isRequired (entryHeap st2 destRef) \<noteq> isRequired (entryHeap st2 srcRef) \<and>
               \<not> isReadOnly (entryHeap st2 destRef)) \<and>
          \<not> (\<not> isReadOnly (entryHeap st2 destRef) \<and> isReadOnly (entryHeap st2 srcRef)) \<and>
          fst (assignType env (valueType (entryHeap st2 destRef))
                 (valueType (entryHeap st2 srcRef)) (map_option (\<lambda>d. emptyAddendum) dg) cx
                 (if isReadOnly (entryHeap st2 destRef) then flags
                  else insert EnforceInvariance flags) rc)))"
proof -
  obtain ok diag' ctx' where f: "foldl (assignTypedDictEntry env st2 destType srcType srcEntries
      flags rc) (True, diag, ctx) destEntries = (ok, diag', ctx')"
    by (cases "foldl (assignTypedDictEntry env st2 destType srcType srcEntries
      flags rc) (True, diag, ctx) destEntries")
  with assignTypedDictToTypedDict_unfold[OF assms(1,2)]
  have r: "assignTypedDictToTypedDict env st destType srcType diag ctx flags rc =
      Inr ((ok, diag', ctx'), st2)" by simp
  have step: "fst (assignTypedDictEntry env st2 destType srcType srcEntries flags rc
                      (True, dg, cx) (name, destRef)) =
         (\<not> (isRequired (entryHeap st2 destRef) \<noteq> isRequired (entryHeap st2 srcRef) \<and>
               \<not> isReadOnly (entryHeap st2 destRef)) \<and>
          \<not> (\<not> isReadOnly (entryHeap st2 destRef) \<and> isReadOnly (entryHeap st2 srcRef)) \<and>
          fst (assignType env (valueType (entryHeap st2 destRef))
                 (valueType (entryHeap st2 srcRef)) (map_option (\<lambda>d. emptyAddendum) dg) cx
                 (if isReadOnly (entryHeap st2 destRef) then flags
                  else insert EnforceInvariance flags) rc))" for dg cx
    using present_step[OF assms(4), of env st2 destType srcType flags rc dg cx destRef] by simp
  have w: "\<not> isReadOnly (entryHeap st2 destRef) \<longrightarrow> \<not> ok"
  proof
    assume w: "\<not> isReadOnly (entryHeap st2 destRef)"
    show "\<not> ok"
    proof (rule assignTypedDictEntries_fail[OF f assms(3)])
      fix ok0 diag0 ctx0
      show "\<not> fst (assignTypedDictEntry env st2 destType srcType srcEntries flags rc
          (ok0, diag0, ctx0) (name, destRef))"
        using assms(5) w by (intro present_step_any[OF assms(4)]) simp
    qed
  qed
  have ro: "isReadOnly (entryHeap st2 destRef) \<longrightarrow>
      (\<forall>dg cx. fst (assignTypedDictEntry env st2 destType srcType srcEntries flags rc
                         (True, dg, cx) (name, destRef)))"
    using step assms(6) by simp
  have single: "isReadOnly (entryHeap st2 destRef) \<and> destEntries = [(name, destRef)] \<longrightarrow> ok"
  proof
    assume a: "isReadOnly (entryHeap st2 destRef) \<and> destEntries = [(name, destRef)]"
    with f have "ok = fst (assignTypedDictEntry env st2 destType srcType srcEntries flags rc
        (True, diag, ctx) (name, destRef))" by simp
    with ro a show ok by simp
  qed
  have stepall: "\<forall>dg cx. fst (assignTypedDictEntry env st2 destType srcType srcEntries flags rc
                      (True, dg, cx) (name, destRef)) =
         (\<not> (isRequired (entryHeap st2 destRef) \<noteq> isRequired (entryHeap st2 srcRef) \<and>
               \<not> isReadOnly (entryHeap st2 destRef)) \<and>
          \<not> (\<not> isReadOnly (entryHeap st2 destRef) \<and> isReadOnly (entryHeap st2 srcRef)) \<and>
          fst (assignType env (valueType (entryHeap st2 destRef))
                 (valueType (entryHeap st2 srcRef)) (map_option (\<lambda>d. emptyAddendum) dg) cx
                 (if isReadOnly (entryHeap st2 destRef) then flags
                  else insert EnforceInvariance flags) rc))"
    using step by blast
  show ?thesis
    by (rule exI[of _ ok], rule exI[of _ diag'], rule exI[of _ ctx'])
       (intro conjI r w ro single stepall)
qed

text \<open>
  C3. For a field of the destination that the source does not have:
  \<open>assignTypedDictToTypedDict\<close> can only return true if the destination field is not
  required and read-only. If it is required or writable, the result is false and, when an
  addendum is given, the "field missing" addendum for the field is among its children.
  If it is not required and read-only, the field is checked against the object type:
  the check of the field succeeds exactly when the destination value type accepts
  \<open>object\<close> (or the object type is not a class instance), and the result is false when
  it does not.
\<close>

theorem missing_source_field:
  assumes "getTypedDictMembersForClass env st destType False = Inr (destEntries, st1)"
    and "getTypedDictMembersForClass env st1 srcType True = Inr (srcEntries, st2)"
    and "(name, destRef) \<in> set destEntries" and "mapGet srcEntries name = None"
  shows "\<exists>ok diag' ctx'.
      assignTypedDictToTypedDict env st destType srcType diag ctx flags rc =
        Inr ((ok, diag', ctx'), st2) \<and>
      (ok \<longrightarrow> \<not> isRequired (entryHeap st2 destRef) \<and> isReadOnly (entryHeap st2 destRef)) \<and>
      (isRequired (entryHeap st2 destRef) \<or> \<not> isReadOnly (entryHeap st2 destRef) \<longrightarrow>
         \<not> ok \<and>
         (\<forall>d. diag = Some d \<longrightarrow>
            (\<exists>d'. diag' = Some d' \<and>
               missingFieldAddendum env srcType name \<in> set (childAddenda d')))) \<and>
      (\<not> isRequired (entryHeap st2 destRef) \<and> isReadOnly (entryHeap st2 destRef) \<longrightarrow>
         (\<forall>dg cx. fst (assignTypedDictEntry env st2 destType srcType srcEntries flags rc
                         (True, dg, cx) (name, destRef)) =
            (isClassInstance (getObjectType env) \<longrightarrow>
               fst (assignType env (valueType (entryHeap st2 destRef)) (getObjectType env)
                      (map_option (\<lambda>d. emptyAddendum) dg) cx flags rc)))) \<and>
      (\<not> isRequired (entryHeap st2 destRef) \<and> isReadOnly (entryHeap st2 destRef) \<and>
       isClassInstance (getObjectType env) \<and>
       (\<forall>dg cx. \<not> fst (assignType env (valueType (entryHeap st2 destRef)) (getObjectType env)
                         dg cx flags rc)) \<longrightarrow> \<not> ok)"
proof -
  obtain ok diag' ctx' where f: "foldl (assignTypedDictEntry env st2 destType srcType srcEntries
      flags rc) (True, diag, ctx) destEntries = (ok, diag', ctx')"
    by (cases "foldl (assignTypedDictEntry env st2 destType srcType srcEntries
      flags rc) (True, diag, ctx) destEntries")
  with assignTypedDictToTypedDict_unfold[OF assms(1,2)]
  have r: "assignTypedDictToTypedDict env st destType srcType diag ctx flags rc =
      Inr ((ok, diag', ctx'), st2)" by simp
  have bad: "isRequired (entryHeap st2 destRef) \<or> \<not> isReadOnly (entryHeap st2 destRef) \<longrightarrow>
         \<not> ok \<and>
         (\<forall>d. diag = Some d \<longrightarrow>
            (\<exists>d'. diag' = Some d' \<and>
               missingFieldAddendum env srcType name \<in> set (childAddenda d')))"
  proof (intro impI conjI allI)
    assume b: "isRequired (entryHeap st2 destRef) \<or> \<not> isReadOnly (entryHeap st2 destRef)"
    show "\<not> ok"
      by (rule assignTypedDictEntries_fail[OF f assms(3)])
         (simp add: missing_step_fail[OF assms(4) b])
    fix d assume d: "diag = Some d"
    show "\<exists>d'. diag' = Some d' \<and> missingFieldAddendum env srcType name \<in> set (childAddenda d')"
      by (rule assignTypedDictEntries_child[OF f[unfolded d] assms(3)])
         (simp add: missing_step_fail[OF assms(4) b])
  qed
  have obj: "\<not> isRequired (entryHeap st2 destRef) \<and> isReadOnly (entryHeap st2 destRef) \<longrightarrow>
         (\<forall>dg cx. fst (assignTypedDictEntry env st2 destType srcType srcEntries flags rc
                         (True, dg, cx) (name, destRef)) =
            (isClassInstance (getObjectType env) \<longrightarrow>
               fst (assignType env (valueType (entryHeap st2 destRef)) (getObjectType env)
                      (map_option (\<lambda>d. emptyAddendum) dg) cx flags rc)))"
    using missing_step_object[OF assms(4), of st2 destRef env destType srcType flags rc] by simp
  have rej: "\<not> isRequired (entryHeap st2 destRef) \<and> isReadOnly (entryHeap st2 destRef) \<and>
       isClassInstance (getObjectType env) \<and>
       (\<forall>dg cx. \<not> fst (assignType env (valueType (entryHeap st2 destRef)) (getObjectType env)
                         dg cx flags rc)) \<longrightarrow> \<not> ok"
  proof
    assume a: "\<not> isRequired (entryHeap st2 destRef) \<and> isReadOnly (entryHeap st2 destRef) \<and>
       isClassInstance (getObjectType env) \<and>
       (\<forall>dg cx. \<not> fst (assignType env (valueType (entryHeap st2 destRef)) (getObjectType env)
                         dg cx flags rc))"
    show "\<not> ok"
    proof (rule assignTypedDictEntries_fail[OF f assms(3)])
      fix ok0 diag0 ctx0
      show "\<not> fst (assignTypedDictEntry env st2 destType srcType srcEntries flags rc
          (ok0, diag0, ctx0) (name, destRef))"
      proof -
        obtain okc inner ctx1 where c: "callAssignType env (valueType (entryHeap st2 destRef))
            (getObjectType env) (map_option (\<lambda>d. emptyAddendum) diag0) ctx0 flags rc
            = (okc, inner, ctx1)"
          by (cases "callAssignType env (valueType (entryHeap st2 destRef))
            (getObjectType env) (map_option (\<lambda>d. emptyAddendum) diag0) ctx0 flags rc")
        from a have "\<not> fst (callAssignType env (valueType (entryHeap st2 destRef))
            (getObjectType env) (map_option (\<lambda>d. emptyAddendum) diag0) ctx0 flags rc)"
          by simp
        with c have "\<not> okc" by simp
        with a assms(4) c show ?thesis
          by (simp add: assignTypedDictEntry_def Let_def)
      qed
    qed
  qed
  have only: "ok \<longrightarrow> \<not> isRequired (entryHeap st2 destRef) \<and> isReadOnly (entryHeap st2 destRef)"
    using bad by blast
  show ?thesis
    by (rule exI[of _ ok], rule exI[of _ diag'], rule exI[of _ ctx'])
       (intro conjI r only bad obj rej)
qed

lemma sample_assignType [simp]:
  "fst (assignType sampleEnv d s dg cx fl rc) = sampleAssignable d s fl"
  by (simp add: sampleEnv_def)

text \<open>
  The theorem on the destination \<open>XY\<close> and the source \<open>BoolXY\<close>: for the writable
  field \<open>x\<close> the value type \<open>bool\<close> is rejected against \<open>int\<close>, and for the
  read-only field \<open>y\<close> the same value type is accepted.
\<close>

theorem common_field_variance_witness:
  "(\<exists>diag' ctx'. assignTypedDictToTypedDict sampleEnv sampleStore xyInstance boolXYInstance
        None None {} 0 = Inr ((False, diag', ctx'), xyStore2))
   \<and> \<not> isReadOnly (entryHeap xyStore2 2) \<and> isReadOnly (entryHeap xyStore2 3)
   \<and> fst (assignTypedDictEntry sampleEnv xyStore2 xyInstance boolXYInstance
            [(''x'', 6), (''y'', 7)] {} 0 (True, None, None) (''y'', 3))"
proof -
  have hx: "\<forall>dg cx fl. EnforceInvariance \<in> fl \<longrightarrow>
           \<not> fst (assignType sampleEnv (valueType (entryHeap xyStore2 2))
                     (valueType (entryHeap xyStore2 6)) dg cx fl 0)"
    and hy: "\<forall>dg cx fl. EnforceInvariance \<in> fl \<longrightarrow>
           \<not> fst (assignType sampleEnv (valueType (entryHeap xyStore2 3))
                     (valueType (entryHeap xyStore2 7)) dg cx fl 0)"
    and cx: "\<forall>dg cx. fst (assignType sampleEnv (valueType (entryHeap xyStore2 2))
                     (valueType (entryHeap xyStore2 6)) dg cx {} 0)"
    and cy: "\<forall>dg cx. fst (assignType sampleEnv (valueType (entryHeap xyStore2 3))
                     (valueType (entryHeap xyStore2 7)) dg cx {} 0)"
    by (simp_all add: xyStore2_def sampleAssignable_def sample_defs)
  have mx: "(''x'', 2) \<in> set [(''x'', 2 :: nat), (''y'', 3)]"
    and my: "(''y'', 3) \<in> set [(''x'', 2 :: nat), (''y'', 3)]" by simp_all
  have gx: "mapGet [(''x'', 6 :: nat), (''y'', 7)] ''x'' = Some 6"
    and gy: "mapGet [(''x'', 6 :: nat), (''y'', 7)] ''y'' = Some 7" by (simp_all add: mapGet_def)
  have ro: "\<not> isReadOnly (entryHeap xyStore2 2)" "isReadOnly (entryHeap xyStore2 3)"
    by (simp_all add: xyStore2_def sample_defs)
  from common_field_variance[OF xy_members xy_bool_members mx gx hx cx, of None None] ro
  have a: "\<exists>diag' ctx'. assignTypedDictToTypedDict sampleEnv sampleStore xyInstance boolXYInstance
        None None {} 0 = Inr ((False, diag', ctx'), xyStore2)"
    by auto
  from common_field_variance[OF xy_members xy_bool_members my gy hy cy, of None None] ro
  have b: "fst (assignTypedDictEntry sampleEnv xyStore2 xyInstance boolXYInstance
            [(''x'', 6), (''y'', 7)] {} 0 (True, None, None) (''y'', 3))"
    by auto
  from a b ro show ?thesis by simp
qed

text \<open>
  The theorem on the destination \<open>Options\<close> and the source \<open>XY\<close>, which has neither
  field of the destination: the writable field \<open>a\<close> makes the check fail and puts its
  "field missing" addendum into the addendum given; the check of the read-only, not
  required field \<open>b\<close>, whose value type is \<open>object\<close>, succeeds.
\<close>

theorem missing_source_field_witness:
  "(\<exists>d' ctx'. assignTypedDictToTypedDict sampleEnv sampleStore optionsClass xyInstance
        (Some emptyAddendum) None {} 0 = Inr ((False, Some d', ctx'), optionsStore2) \<and>
        missingFieldAddendum sampleEnv xyInstance ''a'' \<in> set (childAddenda d'))
   \<and> \<not> isReadOnly (entryHeap optionsStore2 2)
   \<and> \<not> isRequired (entryHeap optionsStore2 3) \<and> isReadOnly (entryHeap optionsStore2 3)
   \<and> fst (assignTypedDictEntry sampleEnv optionsStore2 optionsClass xyInstance
            [(''x'', 6), (''y'', 7)] {} 0 (True, None, None) (''b'', 3))"
proof -
  have ma: "(''a'', 2) \<in> set [(''a'', 2 :: nat), (''b'', 3)]"
    and mb: "(''b'', 3) \<in> set [(''a'', 2 :: nat), (''b'', 3)]" by simp_all
  have ga: "mapGet [(''x'', 6 :: nat), (''y'', 7)] ''a'' = None"
    and gb: "mapGet [(''x'', 6 :: nat), (''y'', 7)] ''b'' = None" by (simp_all add: mapGet_def)
  have fl: "\<not> isReadOnly (entryHeap optionsStore2 2)"
    "\<not> isRequired (entryHeap optionsStore2 3)" "isReadOnly (entryHeap optionsStore2 3)"
    "valueType (entryHeap optionsStore2 3) = objectInstance"
    by (simp_all add: optionsStore2_def sample_defs)
  have obj: "isClassInstance (getObjectType sampleEnv)"
    "sampleAssignable objectInstance (getObjectType sampleEnv) {}"
    by (simp_all add: isClassInstance_def sampleAssignable_def sample_defs)
  from missing_source_field[OF options_members options_xy_members ma ga,
      of "Some emptyAddendum" None "{}" 0] fl
  have a: "\<exists>d' ctx'. assignTypedDictToTypedDict sampleEnv sampleStore optionsClass xyInstance
        (Some emptyAddendum) None {} 0 = Inr ((False, Some d', ctx'), optionsStore2) \<and>
        missingFieldAddendum sampleEnv xyInstance ''a'' \<in> set (childAddenda d')"
    by auto
  from missing_source_field[OF options_members options_xy_members mb gb,
      of "Some emptyAddendum" None "{}" 0] fl obj
  have b: "fst (assignTypedDictEntry sampleEnv optionsStore2 optionsClass xyInstance
            [(''x'', 6), (''y'', 7)] {} 0 (True, None, None) (''b'', 3))"
    by auto
  from a b fl show ?thesis by simp
qed

section \<open>Properties of indexing\<close>

text \<open>
  C8 (amended). With exactly one index argument that has a trailing comma, a keyword name
  or a category other than simple, \<open>getTypeOfIndexedTypedDict\<close> returns undefined and
  leaves the store, with its reported diagnostics, as it was. With exactly one simple,
  unnamed argument and no trailing comma it handles the access: unless entry resolution
  fails an assertion, it returns a result. With any other number of index arguments it
  handles the access as well: it reports the diagnostic \<open>typeArgsMismatchOne\<close> on the
  node and returns a result of type Unknown.
\<close>

theorem index_shapes:
  "(length (items node) = 1 \<and>
      (trailingComma node \<or> argumentName (hd (items node)) \<noteq> None \<or>
       argumentCategory (hd (items node)) \<noteq> ArgSimple) \<longrightarrow>
      getTypeOfIndexedTypedDict env st node baseType usage = Inr (None, st))
   \<and> (length (items node) = 1 \<and> \<not> trailingComma node \<and>
       argumentName (hd (items node)) = None \<and>
       argumentCategory (hd (items node)) = ArgSimple \<longrightarrow>
      (case getTypedDictMembersForClass env st baseType (usageMethod usage = UsageGet) of
         Inl e \<Rightarrow> getTypeOfIndexedTypedDict env st node baseType usage = Inl e
       | Inr (entries, st1) \<Rightarrow>
           (\<exists>result st2. getTypeOfIndexedTypedDict env st node baseType usage =
              Inr (Some result, st2))))
   \<and> (length (items node) \<noteq> 1 \<longrightarrow>
      getTypeOfIndexedTypedDict env st node baseType usage =
        Inr (Some unknownResult,
             st\<lparr> reported := reported st @
                   [(ReportGeneralTypeIssues, TypeArgsMismatchOne (length (items node)),
                     indexNodeId node)] \<rparr>))"
proof (intro conjI impI)
  assume "length (items node) = 1 \<and>
      (trailingComma node \<or> argumentName (hd (items node)) \<noteq> None \<or>
       argumentCategory (hd (items node)) \<noteq> ArgSimple)"
  then show "getTypeOfIndexedTypedDict env st node baseType usage = Inr (None, st)"
    by (cases "items node") (auto simp: getTypeOfIndexedTypedDict_def split: list.splits)
next
  assume a: "length (items node) = 1 \<and> \<not> trailingComma node \<and>
       argumentName (hd (items node)) = None \<and>
       argumentCategory (hd (items node)) = ArgSimple"
  then obtain item where i: "items node = [item]"
    by (cases "items node") auto
  show "case getTypedDictMembersForClass env st baseType (usageMethod usage = UsageGet) of
         Inl e \<Rightarrow> getTypeOfIndexedTypedDict env st node baseType usage = Inl e
       | Inr (entries, st1) \<Rightarrow>
           (\<exists>result st2. getTypeOfIndexedTypedDict env st node baseType usage =
              Inr (Some result, st2))"
    using a i
    by (simp add: getTypeOfIndexedTypedDict_def Let_def split: sum.splits prod.splits)
next
  assume "length (items node) \<noteq> 1"
  then show "getTypeOfIndexedTypedDict env st node baseType usage =
        Inr (Some unknownResult,
             st\<lparr> reported := reported st @
                   [(ReportGeneralTypeIssues, TypeArgsMismatchOne (length (items node)),
                     indexNodeId node)] \<rparr>)"
    by (cases "items node")
       (auto simp: getTypeOfIndexedTypedDict_def unknownResult_def evaluatorAddDiagnostic_def
          split: list.splits)
qed

text \<open>
  The theorem on \<open>Point\<close>: \<open>p["label",]\<close> is not handled; \<open>p["label"]\<close> is
  handled; \<open>p["label", "y"]\<close> is handled too, with a diagnostic and the type Unknown.
\<close>

theorem index_shapes_witness:
  "getTypeOfIndexedTypedDict sampleEnv resolvedStore
      (sampleIndexNode [sampleArgument 20] True) pointInstance getUsage = Inr (None, resolvedStore)
   \<and> (case getTypedDictMembersForClass sampleEnv resolvedStore pointInstance True of
         Inl e \<Rightarrow> getTypeOfIndexedTypedDict sampleEnv resolvedStore
                    (sampleIndexNode [sampleArgument 20] False) pointInstance getUsage = Inl e
       | Inr (entries, st1) \<Rightarrow>
           (\<exists>result st2. getTypeOfIndexedTypedDict sampleEnv resolvedStore
                            (sampleIndexNode [sampleArgument 20] False) pointInstance getUsage =
              Inr (Some result, st2)))
   \<and> getTypeOfIndexedTypedDict sampleEnv resolvedStore
        (sampleIndexNode [sampleArgument 20, sampleArgument 21] False) pointInstance getUsage =
      Inr (Some unknownResult,
           resolvedStore\<lparr> reported := [(ReportGeneralTypeIssues, TypeArgsMismatchOne 2, 30)] \<rparr>)"
proof -
  note t1 = index_shapes[of "sampleIndexNode [sampleArgument 20] True" sampleEnv resolvedStore
      pointInstance getUsage]
  note t2 = index_shapes[of "sampleIndexNode [sampleArgument 20] False" sampleEnv resolvedStore
      pointInstance getUsage]
  note t3 = index_shapes[of "sampleIndexNode [sampleArgument 20, sampleArgument 21] False"
      sampleEnv resolvedStore pointInstance getUsage]
  have a: "getTypeOfIndexedTypedDict sampleEnv resolvedStore
      (sampleIndexNode [sampleArgument 20] True) pointInstance getUsage = Inr (None, resolvedStore)"
    using t1 by (simp add: sampleIndexNode_def)
  have b: "case getTypedDictMembersForClass sampleEnv resolvedStore pointInstance True of
         Inl e \<Rightarrow> getTypeOfIndexedTypedDict sampleEnv resolvedStore
                    (sampleIndexNode [sampleArgument 20] False) pointInstance getUsage = Inl e
       | Inr (entries, st1) \<Rightarrow>
           (\<exists>result st2. getTypeOfIndexedTypedDict sampleEnv resolvedStore
                            (sampleIndexNode [sampleArgument 20] False) pointInstance getUsage =
              Inr (Some result, st2))"
    using t2 by (simp add: sampleIndexNode_def sampleArgument_def getUsage_def)
  have c: "getTypeOfIndexedTypedDict sampleEnv resolvedStore
        (sampleIndexNode [sampleArgument 20, sampleArgument 21] False) pointInstance getUsage =
      Inr (Some unknownResult,
           resolvedStore\<lparr> reported := [(ReportGeneralTypeIssues, TypeArgsMismatchOne 2, 30)] \<rparr>)"
    using t3 by (simp add: sampleIndexNode_def resolvedStore_def storeWith_def)
  from a b c show ?thesis by simp
qed

text \<open>
  C8 as stated fails: an index with two arguments is not left to generic indexing; the
  function reports a diagnostic and returns a result itself.
\<close>

theorem index_two_arguments_counterexample:
  "getTypeOfIndexedTypedDict sampleEnv resolvedStore
     (sampleIndexNode [sampleArgument 20, sampleArgument 21] False) pointInstance getUsage
   \<noteq> Inr (None, resolvedStore)
   \<and> getTypeOfIndexedTypedDict sampleEnv resolvedStore
       (sampleIndexNode [sampleArgument 20, sampleArgument 21] False) pointInstance getUsage =
     Inr (Some unknownResult,
          resolvedStore\<lparr> reported := [(ReportGeneralTypeIssues, TypeArgsMismatchOne 2, 30)] \<rparr>)"
  by (simp add: getTypeOfIndexedTypedDict_def sampleIndexNode_def unknownResult_def
      evaluatorAddDiagnostic_def resolvedStore_def storeWith_def)

section \<open>Properties of the synthesized methods\<close>

lemma constructorMembers_names:
  "fst ` set (constructorMembers env c entries) = {''__init__'', ''__new__''}"
  by (simp add: constructorMembers_def Let_def)

lemma accessorMembers_names:
  "fst ` set (accessorMembers env st node c sc isClassFinal allRO entries)
     \<subseteq> {''get'', ''pop'', ''setdefault'', ''__delitem__'', ''update''}"
proof -
  obtain g p s where f: "foldl (entryAccessorOverloads env st node c sc) ([], [], [])
      entries = (g, p, s)"
    by (cases "foldl (entryAccessorOverloads env st node c sc) ([], [], []) entries")
  show ?thesis
    by (auto simp: accessorMembers_def f Let_def)
qed

lemma clearAndPopItemMembers_names:
  "fst ` set (clearAndPopItemMembers env c strType) = {''clear'', ''popitem''}"
  by (simp add: clearAndPopItemMembers_def)

lemma clear_popitem_synthesized:
  assumes "n = ''clear'' \<or> n = ''popitem''"
  shows "(n \<in> fst ` set (synthesizedMembers env st node c isClassFinal entries)) =
     ((\<exists>sc. getBuiltInType env node ''str'' = Some (ClassType sc) \<and>
          instantiableFlag sc) \<and>
      isClassFinal \<and> list_all (\<lambda>(name, entry). \<not> isRequired entry) entries \<and>
      \<not> list_all (\<lambda>(name, entry). isReadOnly entry) entries)"
proof -
  from assms have a: "n \<notin> fst ` set (constructorMembers env c entries)"
    by (auto simp: constructorMembers_names)
  from assms have b: "n \<notin> fst ` set (accessorMembers env st node c sc0 isClassFinal allRO entries)"
    for sc0 allRO
    using accessorMembers_names[where env = env and st = st and node = node and c = c
        and sc = sc0 and isClassFinal = isClassFinal and allRO = allRO and entries = entries]
    by auto
  from assms have d: "n \<in> fst ` set (clearAndPopItemMembers env c t)" for t
    by (auto simp: clearAndPopItemMembers_names)
  show ?thesis
  proof (cases "getBuiltInType env node ''str''")
    case None
    with a show ?thesis by (simp add: synthesizedMembers_def Let_def image_Un)
  next
    case (Some t)
    show ?thesis
    proof (cases t)
      case (ClassType sc)
      show ?thesis
      proof (cases "instantiableFlag sc")
        case True
        show ?thesis
        proof (cases "isClassFinal \<and> list_all (\<lambda>(name, entry). \<not> isRequired entry) entries \<and>
            \<not> list_all (\<lambda>(name, entry). isReadOnly entry) entries")
          case True
          with Some ClassType \<open>instantiableFlag sc\<close> d show ?thesis
            by (simp add: synthesizedMembers_def Let_def image_Un)
        next
          case False
          with Some ClassType \<open>instantiableFlag sc\<close> a b show ?thesis
            by (auto simp: synthesizedMembers_def Let_def image_Un)
        qed
      next
        case False
        with Some ClassType a show ?thesis
          by (simp add: synthesizedMembers_def Let_def image_Un)
      qed
    qed (use Some a in \<open>simp_all add: synthesizedMembers_def Let_def image_Un\<close>)
  qed
qed

lemma mapGet_fold_mapSet:
  "mapGet (foldl (\<lambda>symbolTable (name, symbol). mapSet symbolTable name symbol) tbl members) n = None
   \<longleftrightarrow> mapGet tbl n = None \<and> n \<notin> fst ` set members"
proof (induction members arbitrary: tbl)
  case Nil
  then show ?case by simp
next
  case (Cons m members)
  obtain k v where m: "m = (k, v)" by (cases m)
  show ?case by (auto simp: Cons.IH m mapGet_mapSet)
qed

lemma synthesize_fields:
  assumes "getTypedDictMembersForClass env st c False = Inr (entries, st1)"
    and "isTypedDictClass st c"
  shows "\<exists>st'. synthesizeTypedDictClassMethods env st node c isClassFinal = Inr st' \<and>
     (mapGet (classFields (classDetails st' (details c))) n = None \<longleftrightarrow>
        mapGet (classFields (classDetails st1 (details c))) n = None \<and>
        n \<notin> fst ` set (synthesizedMembers env st1 node c isClassFinal
                         (map (\<lambda>(name, ref). (name, entryHeap st1 ref)) entries)))"
  using assms by (simp add: synthesizeTypedDictClassMethods_def mapGet_fold_mapSet)

text \<open>
  C4 at the failing input: the sealed TypedDict \<open>Options\<close> has the writable field
  \<open>a\<close> and the read-only field \<open>b\<close>, both not required. Not every field is writable,
  and yet \<open>clear\<close> and \<open>popitem\<close> are synthesized.
\<close>

theorem clear_synthesized_with_readonly_field:
  "getTypedDictMembersForClass sampleEnv sampleStore optionsClass False =
     Inr ([(''a'', 2), (''b'', 3)], optionsStore1)
   \<and> isReadOnly (entryHeap optionsStore1 3)
   \<and> mapGet (classFields (classDetails sampleStore (details optionsClass))) ''clear'' = None
   \<and> mapGet (classFields (classDetails sampleStore (details optionsClass))) ''popitem'' = None
   \<and> (case synthesizeTypedDictClassMethods sampleEnv sampleStore 0 optionsClass True of
         Inl e \<Rightarrow> False
       | Inr st' \<Rightarrow>
           mapGet (classFields (classDetails st' (details optionsClass))) ''clear'' \<noteq> None \<and>
           mapGet (classFields (classDetails st' (details optionsClass))) ''popitem'' \<noteq> None)"
proof -
  have td: "isTypedDictClass sampleStore optionsClass"
    by (simp add: isTypedDictClass_def sample_defs)
  have ro: "isReadOnly (entryHeap optionsStore1 3)"
    by (simp add: optionsStore1_def sample_defs)
  have before: "mapGet (classFields (classDetails sampleStore (details optionsClass))) ''clear'' = None"
    "mapGet (classFields (classDetails sampleStore (details optionsClass))) ''popitem'' = None"
    by (simp_all add: mapGet_def sample_defs)
  have cond: "(\<exists>sc. getBuiltInType sampleEnv 0 ''str'' = Some (ClassType sc) \<and>
          instantiableFlag sc) \<and>
      True \<and> list_all (\<lambda>(name, entry). \<not> isRequired entry)
        (map (\<lambda>(name, ref). (name, entryHeap optionsStore1 ref)) [(''a'', 2), (''b'', 3)]) \<and>
      \<not> list_all (\<lambda>(name, entry). isReadOnly entry)
        (map (\<lambda>(name, ref). (name, entryHeap optionsStore1 ref)) [(''a'', 2), (''b'', 3)])"
    by (simp add: optionsStore1_def sample_defs sampleStrClass_def)
  have inC: "''clear'' \<in> fst ` set (synthesizedMembers sampleEnv optionsStore1 0 optionsClass True
      (map (\<lambda>(name, ref). (name, entryHeap optionsStore1 ref)) [(''a'', 2), (''b'', 3)]))"
    using cond by (subst clear_popitem_synthesized) simp_all
  have inP: "''popitem'' \<in> fst ` set (synthesizedMembers sampleEnv optionsStore1 0 optionsClass True
      (map (\<lambda>(name, ref). (name, entryHeap optionsStore1 ref)) [(''a'', 2), (''b'', 3)]))"
    using cond by (subst clear_popitem_synthesized) simp_all
  from synthesize_fields[OF options_members td, of 0 True "''clear''"] inC
  obtain st' where s: "synthesizeTypedDictClassMethods sampleEnv sampleStore 0 optionsClass True
      = Inr st'"
    and c: "mapGet (classFields (classDetails st' (details optionsClass))) ''clear'' \<noteq> None"
    by auto
  from synthesize_fields[OF options_members td, of 0 True "''popitem''"] inP s
  have p: "mapGet (classFields (classDetails st' (details optionsClass))) ''popitem'' \<noteq> None"
    by auto
  from options_members ro before s c p show ?thesis by simp
qed

section \<open>The cached entry table is never mutated (C9)\<close>

lemma storeKept_refl [simp]: "storeKept st st"
  by (simp add: storeKept_def)

lemma storeKept_trans:
  assumes "storeKept a b" and "storeKept b c"
  shows "storeKept a c"
  unfolding storeKept_def
proof (intro conjI allI impI)
  show "nextEntry a \<le> nextEntry c" using assms by (simp add: storeKept_def)
next
  fix x assume "x < nextEntry a"
  then show "entryHeap c x = entryHeap a x" using assms by (simp add: storeKept_def)
next
  fix d
  from assms(1) have ab: "classDetails b d = classDetails a d \<or>
      (typedDictEntries (classDetails a d) = None \<and>
       (\<exists>cached. classDetails b d = (classDetails a d)\<lparr> typedDictEntries := Some cached \<rparr>))"
    by (simp add: storeKept_def)
  from assms(2) have bc: "classDetails c d = classDetails b d \<or>
      (typedDictEntries (classDetails b d) = None \<and>
       (\<exists>cached. classDetails c d = (classDetails b d)\<lparr> typedDictEntries := Some cached \<rparr>))"
    by (simp add: storeKept_def)
  from ab bc show "classDetails c d = classDetails a d \<or>
      (typedDictEntries (classDetails a d) = None \<and>
       (\<exists>cached. classDetails c d = (classDetails a d)\<lparr> typedDictEntries := Some cached \<rparr>))"
    by auto
qed

lemma allocOnly_storeKept: "allocOnly st st' \<Longrightarrow> storeKept st st'"
  by (simp add: allocOnly_def storeKept_def)

lemma keptExcept_refl [simp]: "keptExcept R st st"
  by (simp add: keptExcept_def)

lemma keptExcept_trans: "keptExcept R a b \<Longrightarrow> keptExcept R b c \<Longrightarrow> keptExcept R a c"
  by (auto simp: keptExcept_def)

lemma keptExcept_storeKept:
  assumes "keptExcept R st st'" and "\<forall>r \<in> R. b \<le> r" and "b \<le> nextEntry st"
    and "storeKept st0 st" and "nextEntry st0 \<le> b"
  shows "storeKept st0 st'"
  unfolding storeKept_def
proof (intro conjI allI impI)
  from assms show "nextEntry st0 \<le> nextEntry st'" by (simp add: keptExcept_def)
next
  fix a assume a: "a < nextEntry st0"
  with assms(2,5) have "a \<notin> R" by auto
  moreover from a assms(3,5) have "a < nextEntry st" by simp
  ultimately have "entryHeap st' a = entryHeap st a" using assms(1) by (simp add: keptExcept_def)
  with a assms(4) show "entryHeap st' a = entryHeap st0 a" by (simp add: storeKept_def)
next
  fix d
  from assms(1) have "classDetails st' d = classDetails st d" by (simp add: keptExcept_def)
  with assms(4) show "classDetails st' d = classDetails st0 d \<or>
      (typedDictEntries (classDetails st0 d) = None \<and>
       (\<exists>cached. classDetails st' d = (classDetails st0 d)\<lparr> typedDictEntries := Some cached \<rparr>))"
    by (simp add: storeKept_def)
qed

lemma cacheInvD:
  assumes "cacheInv st" and "typedDictEntries (classDetails st d) = Some cached"
    and "(name, ref) \<in> set cached"
  shows "ref < nextEntry st" and "\<not> isProvided (entryHeap st ref)"
proof -
  from assms(1,2) have "\<forall>x \<in> set cached. case x of (name, ref) \<Rightarrow>
      ref < nextEntry st \<and> \<not> isProvided (entryHeap st ref)"
    unfolding cacheInv_def by blast
  with assms(3) show "ref < nextEntry st" and "\<not> isProvided (entryHeap st ref)" by auto
qed

lemma cacheInv_distinct:
  "cacheInv st \<Longrightarrow> typedDictEntries (classDetails st d) = Some cached \<Longrightarrow>
   distinct (map fst cached)"
  unfolding cacheInv_def by blast

lemma cacheInv_keptExcept:
  assumes "cacheInv st" and "keptExcept R st st'" and "R \<inter> cachedRefs st = {}"
  shows "cacheInv st'"
  unfolding cacheInv_def
proof (intro allI impI conjI)
  fix d cached
  assume c: "typedDictEntries (classDetails st' d) = Some cached"
  with assms(2) have c0: "typedDictEntries (classDetails st d) = Some cached"
    by (simp add: keptExcept_def)
  with assms(1) show "distinct (map fst cached)" by (rule cacheInv_distinct)
  show "\<forall>(name, ref) \<in> set cached. ref < nextEntry st' \<and> \<not> isProvided (entryHeap st' ref)"
  proof (clarify, rule conjI)
    fix name ref assume m: "(name, ref) \<in> set cached"
    from cacheInvD[OF assms(1) c0 m]
    have lt: "ref < nextEntry st" and np: "\<not> isProvided (entryHeap st ref)" .
    from m c0 have "ref \<in> cachedRefs st" by (auto simp: cachedRefs_def)
    with assms(3) have "ref \<notin> R" by auto
    with lt assms(2) have "entryHeap st' ref = entryHeap st ref" by (simp add: keptExcept_def)
    with np show "\<not> isProvided (entryHeap st' ref)" by simp
    from lt assms(2) show "ref < nextEntry st'" by (simp add: keptExcept_def)
  qed
qed

lemma allocOnly_keptExcept: "allocOnly st st' \<Longrightarrow> keptExcept R st st'"
  by (simp add: allocOnly_def keptExcept_def)

lemma cacheInv_allocOnly: "cacheInv st \<Longrightarrow> allocOnly st st' \<Longrightarrow> cacheInv st'"
  using cacheInv_keptExcept[of st "{}" st'] allocOnly_keptExcept[of st st' "{}"] by simp

lemma cachedRefs_bound: "cacheInv st \<Longrightarrow> r \<in> cachedRefs st \<Longrightarrow> r < nextEntry st"
  by (auto simp: cachedRefs_def dest: cacheInvD)

lemma tablesKept_from:
  assumes "cacheInv st" and "storeKept st st'"
  shows "tablesKept st st'"
  unfolding tablesKept_def
proof (intro allI impI conjI)
  fix d cached
  assume c: "typedDictEntries (classDetails st d) = Some cached"
  from assms(2) have "classDetails st' d = classDetails st d \<or>
      (typedDictEntries (classDetails st d) = None \<and>
       (\<exists>cached. classDetails st' d = (classDetails st d)\<lparr> typedDictEntries := Some cached \<rparr>))"
    by (simp add: storeKept_def)
  with c show "typedDictEntries (classDetails st' d) = Some cached" by auto
  show "\<forall>(name, ref) \<in> set cached. entryHeap st' ref = entryHeap st ref"
  proof clarify
    fix name ref assume "(name, ref) \<in> set cached"
    with c assms(1) have "ref < nextEntry st" by (auto dest: cacheInvD)
    with assms(2) show "entryHeap st' ref = entryHeap st ref" by (simp add: storeKept_def)
  qed
qed

lemma ensure_kept:
  assumes "ensureTypedDictEntries env st classType = Inr (cached, st1)" and "cacheInv st"
  shows "storeKept st st1 \<and> cacheInv st1 \<and>
     typedDictEntries (classDetails st1 (details classType)) = Some cached \<and>
     nextEntry st \<le> nextEntry st1 \<and> reported st1 = reported st \<and>
     (typedDictEntries (classDetails st (details classType)) \<noteq> None \<longrightarrow> st1 = st)"
proof (cases "typedDictEntries (classDetails st (details classType))")
  case (Some c)
  with assms show ?thesis by (simp add: ensureTypedDictEntries_def)
next
  case None
  with assms(1) obtain s where
    r: "getTypedDictMembersForClassRecursive env st classType [] 0 = Inr (cached, s)"
    and s: "st1 = s\<lparr> classDetails := (classDetails s)
                (details classType :=
                   (classDetails s (details classType))\<lparr> typedDictEntries := Some cached \<rparr>) \<rparr>"
    by (auto simp: ensureTypedDictEntries_def split: sum.splits)
  from resolution_frame[OF r] have fr: "allocOnly st s" .
  from resolution_explained[OF r] have ex: "\<forall>kv \<in> set cached. entryExplained env s kv" by simp
  from resolution_distinct[OF r] have di: "distinct (map fst cached)" .
  have k: "storeKept st st1"
    using fr None unfolding storeKept_def allocOnly_def s by auto
  have inv: "cacheInv st1"
    unfolding cacheInv_def
  proof (intro allI impI)
    fix d c assume c: "typedDictEntries (classDetails st1 d) = Some c"
    show "distinct (map fst c) \<and>
        (\<forall>(name, ref) \<in> set c. ref < nextEntry st1 \<and> \<not> isProvided (entryHeap st1 ref))"
    proof (cases "d = details classType")
      case True
      with c s have "c = cached" by simp
      with di ex show ?thesis by (auto simp: s entryExplained_def)
    next
      case False
      with c s fr have "typedDictEntries (classDetails st d) = Some c"
        by (simp add: allocOnly_def)
      with assms(2) have "distinct (map fst c)"
        and "\<forall>(name, ref) \<in> set c. ref < nextEntry st \<and> \<not> isProvided (entryHeap st ref)"
        by (auto dest: cacheInvD cacheInv_distinct)
      with fr show ?thesis by (auto simp: s allocOnly_def)
    qed
  qed
  from k inv s None fr show ?thesis by (simp add: allocOnly_def)
qed

lemma update_new_key: "k \<notin> fst ` set m \<Longrightarrow> mapSet m k v = m @ [(k, v)]"
  unfolding mapSet_def by (induction m) auto

lemma specialize_fold:
  assumes "foldl (specializeEntry env classType
              (buildTypeVarContextFromSpecializedClass env classType)) (acc, s) cached =
            (entries, s')"
    and "distinct (map fst acc @ map fst cached)"
    and "\<forall>(n, r) \<in> set cached. r < nextEntry s"
  shows "allocOnly s s' \<and> map fst entries = map fst acc @ map fst cached \<and>
     (\<forall>(n, r) \<in> set entries. (n, r) \<in> set acc \<or> (nextEntry s \<le> r \<and> r < nextEntry s')) \<and>
     (\<forall>n. n \<notin> fst ` set cached \<longrightarrow> mapGet entries n = mapGet acc n) \<and>
     (\<forall>(n, r0) \<in> set cached. \<exists>r. mapGet entries n = Some r \<and> nextEntry s \<le> r \<and>
        r < nextEntry s' \<and>
        entryHeap s' r = specializedCopy env classType (entryHeap s r0))"
  using assms
proof (induction cached arbitrary: acc s)
  case Nil
  then show ?case by auto
next
  case (Cons kv rest acc s)
  obtain k v where kv: "kv = (k, v)" by (cases kv)
  define s1 where "s1 = s\<lparr> entryHeap := (entryHeap s)
      (nextEntry s := specializedCopy env classType (entryHeap s v)),
      nextEntry := Suc (nextEntry s) \<rparr>"
  define acc1 where "acc1 = acc @ [(k, nextEntry s)]"
  from Cons.prems(2) kv have knew: "k \<notin> fst ` set acc" by auto
  have step: "specializeEntry env classType
      (buildTypeVarContextFromSpecializedClass env classType) (acc, s) kv = (acc1, s1)"
    by (simp add: specializeEntry_def kv Let_def allocEntry_def specializedCopy_def
        update_new_key[OF knew] acc1_def s1_def)
  from Cons.prems(1) step have f: "foldl (specializeEntry env classType
      (buildTypeVarContextFromSpecializedClass env classType)) (acc1, s1) rest = (entries, s')"
    by simp
  from Cons.prems(2) kv have d1: "distinct (map fst acc1 @ map fst rest)"
    by (auto simp: acc1_def)
  from Cons.prems(3) have b1: "\<forall>(n, r) \<in> set rest. r < nextEntry s1"
    by (auto simp: s1_def)
  note ih = Cons.IH[OF f d1 b1]
  have a1: "allocOnly s s1" by (simp add: allocOnly_def s1_def)
  from ih have a2: "allocOnly s1 s'" by simp
  have n1: "nextEntry s1 = Suc (nextEntry s)" by (simp add: s1_def)
  from a2 have le: "nextEntry s1 \<le> nextEntry s'" by (simp add: allocOnly_def)
  have c1: "allocOnly s s'" using allocOnly_trans[OF a1 a2] .
  have c2: "map fst entries = map fst acc @ map fst (kv # rest)"
    using ih by (simp add: acc1_def kv)
  have "(n, r) \<in> set acc \<or> (nextEntry s \<le> r \<and> r < nextEntry s')"
    if m: "(n, r) \<in> set entries" for n r
  proof -
    from ih m have "(n, r) \<in> set acc1 \<or> (nextEntry s1 \<le> r \<and> r < nextEntry s')" by auto
    with n1 le show ?thesis by (auto simp: acc1_def)
  qed
  then have c3: "\<forall>(n, r) \<in> set entries. (n, r) \<in> set acc \<or> (nextEntry s \<le> r \<and> r < nextEntry s')"
    by auto
  have c4: "\<forall>n. n \<notin> fst ` set (kv # rest) \<longrightarrow> mapGet entries n = mapGet acc n"
  proof (intro allI impI)
    fix n assume n: "n \<notin> fst ` set (kv # rest)"
    with ih have "mapGet entries n = mapGet acc1 n" by simp
    also from n kv have "\<dots> = mapGet acc n"
      by (auto simp: acc1_def mapGet_def map_add_def split: option.splits)
    finally show "mapGet entries n = mapGet acc n" .
  qed
  have c5: "\<forall>(n, r0) \<in> set (kv # rest). \<exists>r. mapGet entries n = Some r \<and> nextEntry s \<le> r \<and>
        r < nextEntry s' \<and> entryHeap s' r = specializedCopy env classType (entryHeap s r0)"
  proof clarify
    fix n r0 assume m: "(n, r0) \<in> set (kv # rest)"
    show "\<exists>r. mapGet entries n = Some r \<and> nextEntry s \<le> r \<and> r < nextEntry s' \<and>
        entryHeap s' r = specializedCopy env classType (entryHeap s r0)"
    proof (cases "(n, r0) \<in> set rest")
      case True
      with ih obtain r where r: "mapGet entries n = Some r" "nextEntry s1 \<le> r" "r < nextEntry s'"
        "entryHeap s' r = specializedCopy env classType (entryHeap s1 r0)" by fast
      from Cons.prems(3) True have "r0 < nextEntry s" by auto
      then have "entryHeap s1 r0 = entryHeap s r0" by (simp add: s1_def)
      with r n1 show ?thesis by auto
    next
      case False
      with m kv have e: "n = k" "r0 = v" by auto
      from Cons.prems(2) kv have "k \<notin> fst ` set rest" by auto
      with ih have "mapGet entries k = mapGet acc1 k" by simp
      also from knew have "\<dots> = Some (nextEntry s)"
        by (auto simp: acc1_def mapGet_def map_add_def map_of_eq_None_iff[symmetric]
            split: option.splits)
      finally have g: "mapGet entries k = Some (nextEntry s)" .
      from a2 have "entryHeap s' (nextEntry s) = entryHeap s1 (nextEntry s)"
        by (simp add: allocOnly_def n1)
      then have "entryHeap s' (nextEntry s) = specializedCopy env classType (entryHeap s v)"
        by (simp add: s1_def)
      with g e n1 le show ?thesis by auto
    qed
  qed
  from c1 c2 c3 c4 c5 show ?case by blast
qed

lemma narrowed_fold:
  assumes "foldl (applyNarrowedEntry env ctx) (acc, s) narrowed = (entries, s')"
  shows "allocOnly s s' \<and>
     (\<forall>(n, r) \<in> set entries. (n, r) \<in> set acc \<or> (nextEntry s \<le> r \<and> r < nextEntry s'))"
  using assms
proof (induction narrowed arbitrary: acc s)
  case Nil
  then show ?case by auto
next
  case (Cons kv rest acc s)
  obtain acc1 s1 where step: "applyNarrowedEntry env ctx (acc, s) kv = (acc1, s1)"
    by (cases "applyNarrowedEntry env ctx (acc, s) kv")
  obtain k v where kv: "kv = (k, v)" by (cases kv)
  from step have a1: "allocOnly s s1" and n1: "nextEntry s1 = Suc (nextEntry s)"
    and m1: "set acc1 \<subseteq> insert (k, nextEntry s) (set acc)"
    using set_mapSet[of acc k "nextEntry s"]
    by (auto simp: applyNarrowedEntry_def kv Let_def allocEntry_def allocOnly_def)
  from Cons.prems step have f: "foldl (applyNarrowedEntry env ctx) (acc1, s1) rest = (entries, s')"
    by simp
  note ih = Cons.IH[OF f]
  from ih have a2: "allocOnly s1 s'" by simp
  then have le: "nextEntry s1 \<le> nextEntry s'" by (simp add: allocOnly_def)
  have "(n, r) \<in> set acc \<or> (nextEntry s \<le> r \<and> r < nextEntry s')"
    if m: "(n, r) \<in> set entries" for n r
  proof -
    from ih m have "(n, r) \<in> set acc1 \<or> (nextEntry s1 \<le> r \<and> r < nextEntry s')" by auto
    with n1 le m1 show ?thesis by auto
  qed
  then have "\<forall>(n, r) \<in> set entries. (n, r) \<in> set acc \<or> (nextEntry s \<le> r \<and> r < nextEntry s')"
    by auto
  with allocOnly_trans[OF a1 a2] show ?case by simp
qed

lemma members_kept:
  assumes g: "getTypedDictMembersForClass env st classType allowNarrowed = Inr (entries, st')"
    and inv: "cacheInv st"
  shows "storeKept st st' \<and> cacheInv st' \<and> reported st' = reported st \<and>
     (typedDictEntries (classDetails st (details classType)) \<noteq> None \<longrightarrow>
        classDetails st' = classDetails st) \<and>
     (\<exists>cached st1. ensureTypedDictEntries env st classType = Inr (cached, st1) \<and>
        typedDictEntries (classDetails st' (details classType)) = Some cached \<and>
        cachedRefs st' = cachedRefs st1 \<and> nextEntry st \<le> nextEntry st1 \<and>
        (\<forall>(name, ref) \<in> set entries. nextEntry st1 \<le> ref \<and> ref < nextEntry st') \<and>
        (\<not> allowNarrowed \<or> typedDictNarrowedEntries classType = None \<longrightarrow>
           map fst entries = map fst cached \<and>
           (\<forall>(name, ref0) \<in> set cached. \<exists>ref. mapGet entries name = Some ref \<and>
              entryHeap st' ref = specializedCopy env classType (entryHeap st' ref0))))"
proof -
  from g obtain cached st1 where e: "ensureTypedDictEntries env st classType = Inr (cached, st1)"
    by (auto simp: getTypedDictMembersForClass_def split: sum.splits)
  note k = ensure_kept[OF e inv]
  obtain acc1 s1 where f1: "foldl (specializeEntry env classType
      (buildTypeVarContextFromSpecializedClass env classType)) ([], st1) cached = (acc1, s1)"
    by (cases "foldl (specializeEntry env classType
      (buildTypeVarContextFromSpecializedClass env classType)) ([], st1) cached")
  from k have c1: "typedDictEntries (classDetails st1 (details classType)) = Some cached"
    and inv1: "cacheInv st1" by simp_all
  from inv1 c1 have di: "distinct (map fst [] @ map fst cached)"
    and bd: "\<forall>(n, r) \<in> set cached. r < nextEntry st1"
    by (auto dest: cacheInvD cacheInv_distinct)
  note sf = specialize_fold[OF f1 di bd]
  from sf have a1: "allocOnly st1 s1" by simp
  have fin: "(entries, st') =
      (case (if allowNarrowed then typedDictNarrowedEntries classType else None) of
         Some narrowed \<Rightarrow> foldl (applyNarrowedEntry env
            (buildTypeVarContextFromSpecializedClass env classType)) (acc1, s1) narrowed
       | None \<Rightarrow> (acc1, s1))"
    using g e f1
    by (cases allowNarrowed; cases "typedDictNarrowedEntries classType")
       (simp_all add: getTypedDictMembersForClass_def Let_def)
  have a2: "allocOnly s1 st' \<and>
      (\<forall>(n, r) \<in> set entries. (n, r) \<in> set acc1 \<or> (nextEntry s1 \<le> r \<and> r < nextEntry st'))"
  proof (cases "if allowNarrowed then typedDictNarrowedEntries classType else None")
    case None
    with fin show ?thesis by auto
  next
    case (Some narrowed)
    with fin have "foldl (applyNarrowedEntry env
        (buildTypeVarContextFromSpecializedClass env classType)) (acc1, s1) narrowed = (entries, st')"
      by simp
    from narrowed_fold[OF this] show ?thesis .
  qed
  from a1 a2 have a: "allocOnly st1 st'" using allocOnly_trans by blast
  from a2 have le2: "nextEntry s1 \<le> nextEntry st'" by (simp add: allocOnly_def)
  have kept: "storeKept st st'"
    using storeKept_trans[of st st1 st'] k allocOnly_storeKept[OF a] by simp
  have inv': "cacheInv st'" using cacheInv_allocOnly[OF inv1 a] .
  have rep: "reported st' = reported st" using a k by (simp add: allocOnly_def)
  have once: "typedDictEntries (classDetails st (details classType)) \<noteq> None \<longrightarrow>
        classDetails st' = classDetails st"
    using a k by (auto simp: allocOnly_def)
  have c': "typedDictEntries (classDetails st' (details classType)) = Some cached"
    using a c1 by (simp add: allocOnly_def)
  have cr: "cachedRefs st' = cachedRefs st1" using a by (simp add: cachedRefs_def allocOnly_def)
  have fresh: "\<forall>(name, ref) \<in> set entries. nextEntry st1 \<le> ref \<and> ref < nextEntry st'"
  proof clarify
    fix n r assume m: "(n, r) \<in> set entries"
    show "nextEntry st1 \<le> r \<and> r < nextEntry st'"
    proof (cases "(n, r) \<in> set acc1")
      case True
      with sf have "nextEntry st1 \<le> r \<and> r < nextEntry s1" by auto
      with le2 show ?thesis by simp
    next
      case False
      with a2 m have "nextEntry s1 \<le> r \<and> r < nextEntry st'" by auto
      moreover from a1 have "nextEntry st1 \<le> nextEntry s1" by (simp add: allocOnly_def)
      ultimately show ?thesis by simp
    qed
  qed
  have copies: "\<not> allowNarrowed \<or> typedDictNarrowedEntries classType = None \<longrightarrow>
           map fst entries = map fst cached \<and>
           (\<forall>(name, ref0) \<in> set cached. \<exists>ref. mapGet entries name = Some ref \<and>
              entryHeap st' ref = specializedCopy env classType (entryHeap st' ref0))"
  proof
    assume "\<not> allowNarrowed \<or> typedDictNarrowedEntries classType = None"
    with fin have eq: "entries = acc1" "st' = s1" by (auto split: if_splits)
    show "map fst entries = map fst cached \<and>
           (\<forall>(name, ref0) \<in> set cached. \<exists>ref. mapGet entries name = Some ref \<and>
              entryHeap st' ref = specializedCopy env classType (entryHeap st' ref0))"
    proof (rule conjI, goal_cases)
      case 1
      from sf show ?case by (simp add: eq)
    next
      case 2
      show ?case
      proof clarify
        fix n r0 assume m: "(n, r0) \<in> set cached"
        with sf obtain r where r: "mapGet acc1 n = Some r"
          "entryHeap s1 r = specializedCopy env classType (entryHeap st1 r0)" by fast
        from m bd have "r0 < nextEntry st1" by auto
        with a1 have "entryHeap s1 r0 = entryHeap st1 r0" by (simp add: allocOnly_def)
        with r show "\<exists>ref. mapGet entries n = Some ref \<and>
              entryHeap st' ref = specializedCopy env classType (entryHeap st' r0)"
          by (simp add: eq)
      qed
    qed
  qed
  from k have le1: "nextEntry st \<le> nextEntry st1" by simp
  show ?thesis
    apply (intro conjI kept inv' rep once)
    apply (rule exI[of _ cached], rule exI[of _ st1])
    apply (intro conjI e c' cr le1 fresh copies)
    done
qed

lemma key_nonliteral:
  assumes "keyLiteral s (resultType k) = None"
  shows "assignTypedDictKey env classType symbolMap (m, nar, dg, cx, s) (k, v) =
     (False, nar, dg, cx, s)"
  using assms by (simp add: assignTypedDictKey_def keyLiteral_def)

lemma key_unknown:
  assumes "keyLiteral s (resultType k) = Some name" and "mapGet symbolMap name = None"
  shows "assignTypedDictKey env classType symbolMap (m, nar, dg, cx, s) (k, v) =
     (False, nar,
      map_option (addAddendum (unknownKeyAddendum env classType name (resultNodeW k))) dg,
      cx, s)"
  using assms by (simp add: assignTypedDictKey_def keyLiteral_def unknownKeyAddendum_def)

lemma key_known:
  assumes "keyLiteral s (resultType k) = Some name" and "mapGet symbolMap name = Some ref"
    and "callAssignType env (valueType (entryHeap s ref)) (resultType v)
           (map_option (\<lambda>d. emptyAddendum) dg) cx {RetainLiteralsForTypeVar} 0 = (ok, inner, cx1)"
  shows "assignTypedDictKey env classType symbolMap (m, nar, dg, cx, s) (k, v) =
     (if ok then m else False,
      if isRequired (entryHeap s ref) then nar else mapSet nar name (nextEntry s),
      map_option (addAddendum (valueAddendum env name k v ok inner)) dg,
      cx1, keyStore s ref v)"
  using assms
  by (simp add: assignTypedDictKey_def keyLiteral_def valueAddendum_def keyStore_def Let_def
      allocEntry_def)

lemma keyStore_frame:
  "nextEntry s \<le> nextEntry (keyStore s ref v) \<and>
   classDetails (keyStore s ref v) = classDetails s \<and>
   reported (keyStore s ref v) = reported s \<and>
   (\<forall>a < nextEntry s.
      entryHeap (keyStore s ref v) a =
        (if a = ref then (entryHeap s a)\<lparr> isProvided := True \<rparr> else entryHeap s a))"
  by (simp add: keyStore_def Let_def allocEntry_def)

lemma assignTypedDictKey_frame:
  assumes "assignTypedDictKey env classType symbolMap (m, nar, dg, cx, s) kv =
     (m', nar', dg', cx', s')"
  shows "keptExcept (snd ` set symbolMap) s s'"
proof -
  obtain k v where kv: "kv = (k, v)" by (cases kv)
  show ?thesis
  proof (cases "keyLiteral s (resultType k)")
    case None
    from assms key_nonliteral[OF None] show ?thesis by (simp add: kv)
  next
    case (Some name)
    show ?thesis
    proof (cases "mapGet symbolMap name")
      case None
      from assms key_unknown[OF Some None] show ?thesis by (simp add: kv)
    next
      case (Some ref)
      obtain ok inner cx1 where c: "callAssignType env (valueType (entryHeap s ref)) (resultType v)
           (map_option (\<lambda>d. emptyAddendum) dg) cx {RetainLiteralsForTypeVar} 0 = (ok, inner, cx1)"
        by (cases "callAssignType env (valueType (entryHeap s ref)) (resultType v)
           (map_option (\<lambda>d. emptyAddendum) dg) cx {RetainLiteralsForTypeVar} 0")
      from Some have "(name, ref) \<in> set symbolMap" by (simp add: mapGet_def map_of_SomeD)
      then have r: "ref \<in> snd ` set symbolMap" by force
      from assms key_known[OF \<open>keyLiteral s (resultType k) = Some name\<close> Some c]
      have "s' = keyStore s ref v" by (simp add: kv)
      with keyStore_frame[of s ref v] r show ?thesis by (auto simp: keptExcept_def)
    qed
  qed
qed

lemma assignTypedDictKeys_frame:
  assumes "foldl (assignTypedDictKey env classType symbolMap) (m, nar, dg, cx, s) kvs =
     (m', nar', dg', cx', s')"
  shows "keptExcept (snd ` set symbolMap) s s'"
  using assms
proof (induction kvs arbitrary: m nar dg cx s)
  case Nil
  then show ?case by simp
next
  case (Cons kv rest m nar dg cx s)
  obtain m1 nar1 dg1 cx1 s1 where
    step: "assignTypedDictKey env classType symbolMap (m, nar, dg, cx, s) kv =
      (m1, nar1, dg1, cx1, s1)"
    by (cases "assignTypedDictKey env classType symbolMap (m, nar, dg, cx, s) kv") auto
  from Cons.prems step
  have "foldl (assignTypedDictKey env classType symbolMap) (m1, nar1, dg1, cx1, s1) rest =
     (m', nar', dg', cx', s')" by simp
  from Cons.IH[OF this] assignTypedDictKey_frame[OF step] show ?case
    using keptExcept_trans by blast
qed

lemma fresh_not_cached:
  assumes "cacheInv st" and "cachedRefs st' = cachedRefs st"
    and "\<forall>(n, r) \<in> set entries. nextEntry st \<le> r"
  shows "snd ` set entries \<inter> cachedRefs st' = {}"
proof -
  have "False" if "(n, r) \<in> set entries" and "r \<in> cachedRefs st'" for n r
  proof -
    from that(2) assms(1,2) have "r < nextEntry st" by (simp add: cachedRefs_bound)
    moreover from that(1) assms(3) have "nextEntry st \<le> r" by auto
    ultimately show False by simp
  qed
  then show ?thesis by force
qed

lemma assignToTypedDict_kept:
  assumes a: "assignToTypedDict env st classType keyTypes valueTypes diag = Inr (result, diag', st')"
    and inv: "cacheInv st"
  shows "storeKept st st' \<and> cacheInv st'"
proof -
  define g where "g = (if typeParameters (classDetails st (details classType)) \<noteq> [] \<and>
       typeArguments classType \<noteq> None
     then cloneForSpecialization classType None False else classType)"
  define ctx0 where "ctx0 = (if typeParameters (classDetails st (details classType)) \<noteq> []
     then Some (TypeVarContext (getTypeVarScopeId env classType) []) else None)"
  from a obtain symbolMap st1 where
    mem: "getTypedDictMembersForClass env st g False = Inr (symbolMap, st1)"
    by (auto simp: assignToTypedDict_def Let_def g_def split: if_splits sum.splits)
  obtain m nar dg cx s2 where
    f: "foldl (assignTypedDictKey env classType symbolMap) (True, [], diag, ctx0, st1)
          (zip keyTypes valueTypes) = (m, nar, dg, cx, s2)"
    by (cases "foldl (assignTypedDictKey env classType symbolMap) (True, [], diag, ctx0, st1)
          (zip keyTypes valueTypes)") auto
  from a mem f have st': "st' = s2"
    by (auto simp: assignToTypedDict_def Let_def g_def ctx0_def
        split: if_splits sum.splits prod.splits option.splits)
  from members_kept[OF mem inv] obtain cached st0 where
    k1: "storeKept st st1" and inv1: "cacheInv st1"
    and e: "ensureTypedDictEntries env st g = Inr (cached, st0)"
    and cr: "cachedRefs st1 = cachedRefs st0" and le: "nextEntry st \<le> nextEntry st0"
    and fresh: "\<forall>(name, ref) \<in> set symbolMap. nextEntry st0 \<le> ref \<and> ref < nextEntry st1"
    by blast
  from ensure_kept[OF e inv] have inv0: "cacheInv st0" by simp
  from fresh have fr0: "\<forall>(n, r) \<in> set symbolMap. nextEntry st0 \<le> r" by auto
  from fresh_not_cached[OF inv0 cr fr0]
  have dis: "snd ` set symbolMap \<inter> cachedRefs st1 = {}" .
  note kx = assignTypedDictKeys_frame[OF f]
  from cacheInv_keptExcept[OF inv1 kx dis] have i2: "cacheInv s2" .
  from fr0 le have lower: "\<forall>r \<in> snd ` set symbolMap. nextEntry st \<le> r" by force
  from k1 have "nextEntry st \<le> nextEntry st1" by (simp add: storeKept_def)
  from keptExcept_storeKept[OF kx lower this k1] have "storeKept st s2" by simp
  with i2 st' show ?thesis by simp
qed

lemma assignTypedDictToTypedDict_kept:
  assumes a: "assignTypedDictToTypedDict env st destType srcType diag ctx flags rc =
      Inr (result, st')"
    and inv: "cacheInv st"
  shows "storeKept st st' \<and> cacheInv st'"
proof -
  from a obtain destEntries st1 srcEntries where
    d: "getTypedDictMembersForClass env st destType False = Inr (destEntries, st1)"
    and s: "getTypedDictMembersForClass env st1 srcType True = Inr (srcEntries, st')"
    by (auto simp: assignTypedDictToTypedDict_def split: sum.splits)
  from members_kept[OF d inv] have k1: "storeKept st st1" and i1: "cacheInv st1" by simp_all
  from members_kept[OF s i1] have k2: "storeKept st1 st'" and i2: "cacheInv st'" by simp_all
  from storeKept_trans[OF k1 k2] i2 show ?thesis by simp
qed

lemma reported_kept: "storeKept st st' \<Longrightarrow> storeKept st (st'\<lparr> reported := r \<rparr>)"
  by (simp add: storeKept_def)

lemma reported_cacheInv: "cacheInv st \<Longrightarrow> cacheInv (st\<lparr> reported := r \<rparr>)"
  by (simp add: cacheInv_def)

lemma getTypeOfIndexedTypedDict_kept:
  assumes a: "getTypeOfIndexedTypedDict env st node baseType usage = Inr (result, st')"
    and inv: "cacheInv st"
  shows "storeKept st st' \<and> cacheInv st'"
proof (cases "\<exists>item. items node = [item]")
  case False
  then have "getTypeOfIndexedTypedDict env st node baseType usage =
      Inr (Some unknownResult,
           evaluatorAddDiagnostic ReportGeneralTypeIssues (TypeArgsMismatchOne (length (items node)))
             (indexNodeId node) st)"
    by (cases "items node"; cases "tl (items node)")
       (auto simp: getTypeOfIndexedTypedDict_def unknownResult_def)
  with a have "st' = st\<lparr> reported := reported st @
      [(ReportGeneralTypeIssues, TypeArgsMismatchOne (length (items node)), indexNodeId node)] \<rparr>"
    by (simp add: evaluatorAddDiagnostic_def)
  with inv show ?thesis using reported_kept[of st st] reported_cacheInv[of st] by simp
next
  case True
  then obtain item where it: "items node = [item]" by blast
  show ?thesis
  proof (cases "trailingComma node \<or> argumentName item \<noteq> None \<or> argumentCategory item \<noteq> ArgSimple")
    case True
    with a it have "st' = st" by (auto simp: getTypeOfIndexedTypedDict_def)
    with inv show ?thesis by simp
  next
    case False
    with a it obtain entries st1 where
      mem: "getTypedDictMembersForClass env st baseType (usageMethod usage = UsageGet) =
          Inr (entries, st1)"
      by (auto simp: getTypeOfIndexedTypedDict_def split: sum.splits)
    from members_kept[OF mem inv] have k1: "storeKept st st1" and i1: "cacheInv st1" by simp_all
    from a it False mem have "\<exists>r. st' = st1\<lparr> reported := r \<rparr>"
      by (auto simp: getTypeOfIndexedTypedDict_def Let_def evaluatorAddDiagnostic_def
          split: prod.splits if_splits intro: exI[of _ "reported st1"])
    then obtain r where "st' = st1\<lparr> reported := r \<rparr>" by blast
    with reported_kept[OF k1] reported_cacheInv[OF i1] show ?thesis by simp
  qed
qed

text \<open>
  C9. In a store whose cached tables are well formed (\<open>cacheInv\<close>: the entry objects
  of every cached table exist and their \<open>isProvided\<close> flags are false), each of
  \<open>getTypedDictMembersForClass\<close>, \<open>assignTypedDictToTypedDict\<close>,
  \<open>assignToTypedDict\<close> and \<open>getTypeOfIndexedTypedDict\<close> leaves every entry object
  that existed before the call unchanged and every cached table in place, with the same
  entry objects (\<open>storeKept\<close>, \<open>tablesKept\<close>); the cached tables of the store after
  the call are well formed again, so no \<open>isProvided\<close> flag is set in them.
  \<open>getTypedDictMembersForClass\<close> leaves the details of all classes alone when the
  table of the class is cached already, and it returns entry objects that the call has
  allocated and that belong to no cached table; without narrowed entries they are, name by
  name, the specialized copies of the cached entries.
\<close>

theorem canonical_table_never_mutated:
  assumes "cacheInv st"
  shows "(\<forall>entries st'.
            getTypedDictMembersForClass env st classType allowNarrowed = Inr (entries, st') \<longrightarrow>
            storeKept st st' \<and> tablesKept st st' \<and> cacheInv st' \<and>
            (typedDictEntries (classDetails st (details classType)) \<noteq> None \<longrightarrow>
               classDetails st' = classDetails st) \<and>
            (\<exists>cached. typedDictEntries (classDetails st' (details classType)) = Some cached \<and>
               (\<forall>(name, ref) \<in> set entries.
                  nextEntry st \<le> ref \<and> ref < nextEntry st' \<and> ref \<notin> cachedRefs st') \<and>
               (\<not> allowNarrowed \<or> typedDictNarrowedEntries classType = None \<longrightarrow>
                  map fst entries = map fst cached \<and>
                  (\<forall>(name, ref0) \<in> set cached. \<exists>ref. mapGet entries name = Some ref \<and>
                     entryHeap st' ref = specializedCopy env classType (entryHeap st' ref0)))))
     \<and> (\<forall>result st'.
            assignTypedDictToTypedDict env st destType srcType diag ctx flags rc =
              Inr (result, st') \<longrightarrow>
            storeKept st st' \<and> tablesKept st st' \<and> cacheInv st')
     \<and> (\<forall>result diag' st'.
            assignToTypedDict env st classType keyTypes valueTypes diag =
              Inr (result, diag', st') \<longrightarrow>
            storeKept st st' \<and> tablesKept st st' \<and> cacheInv st')
     \<and> (\<forall>result st'.
            getTypeOfIndexedTypedDict env st node classType usage = Inr (result, st') \<longrightarrow>
            storeKept st st' \<and> tablesKept st st' \<and> cacheInv st')"
proof (intro conjI allI impI)
  fix entries st'
  assume g: "getTypedDictMembersForClass env st classType allowNarrowed = Inr (entries, st')"
  from members_kept[OF g assms] obtain cached st1 where
    k: "storeKept st st'" and i: "cacheInv st'"
    and once: "typedDictEntries (classDetails st (details classType)) \<noteq> None \<longrightarrow>
        classDetails st' = classDetails st"
    and e: "ensureTypedDictEntries env st classType = Inr (cached, st1)"
    and c: "typedDictEntries (classDetails st' (details classType)) = Some cached"
    and cr: "cachedRefs st' = cachedRefs st1" and le: "nextEntry st \<le> nextEntry st1"
    and fresh: "\<forall>(name, ref) \<in> set entries. nextEntry st1 \<le> ref \<and> ref < nextEntry st'"
    and copies: "\<not> allowNarrowed \<or> typedDictNarrowedEntries classType = None \<longrightarrow>
           map fst entries = map fst cached \<and>
           (\<forall>(name, ref0) \<in> set cached. \<exists>ref. mapGet entries name = Some ref \<and>
              entryHeap st' ref = specializedCopy env classType (entryHeap st' ref0))"
    by (elim conjE exE) (rule that; assumption)
  show "storeKept st st'" by (rule k)
  show "tablesKept st st'" by (rule tablesKept_from[OF assms k])
  show "cacheInv st'" by (rule i)
  from once show "classDetails st' = classDetails st"
    if "typedDictEntries (classDetails st (details classType)) \<noteq> None" using that by simp
  from ensure_kept[OF e assms] have inv1: "cacheInv st1" by simp
  from fresh have fr1: "\<forall>(n, r) \<in> set entries. nextEntry st1 \<le> r" by auto
  from fresh_not_cached[OF inv1 cr fr1] have dis: "snd ` set entries \<inter> cachedRefs st' = {}" .
  have fr: "\<forall>(name, ref) \<in> set entries.
      nextEntry st \<le> ref \<and> ref < nextEntry st' \<and> ref \<notin> cachedRefs st'"
  proof clarify
    fix n r assume m: "(n, r) \<in> set entries"
    with fresh le have "nextEntry st \<le> r" "r < nextEntry st'" by auto
    moreover from m dis have "r \<notin> cachedRefs st'" by force
    ultimately show "nextEntry st \<le> r \<and> r < nextEntry st' \<and> r \<notin> cachedRefs st'" by simp
  qed
  show "\<exists>cached. typedDictEntries (classDetails st' (details classType)) = Some cached \<and>
       (\<forall>(name, ref) \<in> set entries.
          nextEntry st \<le> ref \<and> ref < nextEntry st' \<and> ref \<notin> cachedRefs st') \<and>
       (\<not> allowNarrowed \<or> typedDictNarrowedEntries classType = None \<longrightarrow>
          map fst entries = map fst cached \<and>
          (\<forall>(name, ref0) \<in> set cached. \<exists>ref. mapGet entries name = Some ref \<and>
             entryHeap st' ref = specializedCopy env classType (entryHeap st' ref0)))"
    by (rule exI[of _ cached]) (intro conjI c fr copies)
next
  fix result st'
  assume "assignTypedDictToTypedDict env st destType srcType diag ctx flags rc = Inr (result, st')"
  from assignTypedDictToTypedDict_kept[OF this assms]
  have k: "storeKept st st'" and i: "cacheInv st'" by simp_all
  show "storeKept st st'" by (rule k)
  show "tablesKept st st'" by (rule tablesKept_from[OF assms k])
  show "cacheInv st'" by (rule i)
next
  fix result diag' st'
  assume "assignToTypedDict env st classType keyTypes valueTypes diag = Inr (result, diag', st')"
  from assignToTypedDict_kept[OF this assms]
  have k: "storeKept st st'" and i: "cacheInv st'" by simp_all
  show "storeKept st st'" by (rule k)
  show "tablesKept st st'" by (rule tablesKept_from[OF assms k])
  show "cacheInv st'" by (rule i)
next
  fix result st'
  assume "getTypeOfIndexedTypedDict env st node classType usage = Inr (result, st')"
  from getTypeOfIndexedTypedDict_kept[OF this assms]
  have k: "storeKept st st'" and i: "cacheInv st'" by simp_all
  show "storeKept st st'" by (rule k)
  show "tablesKept st st'" by (rule tablesKept_from[OF assms k])
  show "cacheInv st'" by (rule i)
qed

lemma resolved_cacheInv: "cacheInv resolvedStore"
  by (auto simp: cacheInv_def resolvedStore_def storeWith_def pointEntries_def sampleEntry_def
      split: if_splits)

text \<open>
  The theorem on the store in which \<open>Point\<close> is resolved: after the entries have been
  fetched, and after \<open>{"x": int, "y": int, "label": str}\<close> has been assigned to
  \<open>Point\<close>, the cached table of \<open>Point\<close> is the same, its entry 0 is not marked
  provided, and the copy 3 made for the check of \<open>x\<close> is.
\<close>

theorem canonical_table_never_mutated_witness:
  "cacheInv resolvedStore \<and>
   storeKept resolvedStore pointCopies \<and> tablesKept resolvedStore pointCopies \<and>
   cacheInv pointCopies \<and> classDetails pointCopies = classDetails resolvedStore \<and>
   storeKept resolvedStore pointStore \<and> tablesKept resolvedStore pointStore \<and>
   cacheInv pointStore \<and>
   typedDictEntries (classDetails pointStore (details pointInstance)) = Some pointEntries \<and>
   \<not> isProvided (entryHeap pointStore 0) \<and> isProvided (entryHeap pointStore 3)"
proof -
  note t = canonical_table_never_mutated[OF resolved_cacheInv,
      of sampleEnv pointInstance False pointInstance pointInstance None None "{}" 0
        "[sampleResult (strLiteral ''x'') 40, sampleResult (strLiteral ''y'') 41,
          sampleResult (strLiteral ''label'') 42]"
        "[sampleResult intInstance 50, sampleResult intInstance 51, sampleResult strInstance 52]"
        "sampleIndexNode [sampleArgument 20] False" getUsage]
  have c: "typedDictEntries (classDetails resolvedStore (details pointInstance)) \<noteq> None"
    by (simp add: resolvedStore_def storeWith_def pointInstance_def classOf_def)
  from t point_members[of False] c
  have a: "storeKept resolvedStore pointCopies \<and> tablesKept resolvedStore pointCopies \<and>
     cacheInv pointCopies \<and> classDetails pointCopies = classDetails resolvedStore"
    by simp
  from t point_construction
  have b: "storeKept resolvedStore pointStore \<and> tablesKept resolvedStore pointStore \<and>
     cacheInv pointStore"
    by simp
  have d: "typedDictEntries (classDetails pointStore (details pointInstance)) = Some pointEntries"
    "\<not> isProvided (entryHeap pointStore 0)" "isProvided (entryHeap pointStore 3)"
    by (simp_all add: pointStore_def storeWith_def pointInstance_def classOf_def sampleEntry_def)
  from resolved_cacheInv a b d show ?thesis by simp
qed

section \<open>Assigning keys and values to a TypedDict (C1)\<close>

lemma providedNames_Nil [simp]: "providedNames [] = {}"
  by (simp add: providedNames_def)

lemma providedNames_Cons:
  "providedNames (c # cs) = providedNames [c] \<union> providedNames cs"
  by (auto simp: providedNames_def)

lemma providedNames_single:
  "providedNames [NonLiteralKey] = {}" "providedNames [UnknownKey n] = {}"
  "providedNames [WrongValue n] = {n}" "providedNames [Accepted n] = {n}"
  by (auto simp: providedNames_def)

lemma appendChildren_Nil [simp]: "appendChildren [] d = d"
  by (cases d) (simp add: appendChildren_def)

lemma appendChildren_append:
  "appendChildren ys (appendChildren xs d) = appendChildren (xs @ ys) d"
  by (simp add: appendChildren_def)

lemma addAddendum_appendChildren: "addAddendum c d = appendChildren [c] d"
  by (simp add: addAddendum_def appendChildren_def)

lemma mapGet_mem: "mapGet m k = Some v \<Longrightarrow> (k, v) \<in> set m"
  by (simp add: mapGet_def map_of_SomeD)

lemma keyLoopSpec_Nil: "keyLoopSpec symbolMap [] (m, nar, dg, cx, s) (m, nar, dg, cx, s)"
  by (auto simp: keyLoopSpec_def option.map_ident map_option.identity id_def[symmetric]
      cong: map_option_cong)

lemma keyLoopSpec_compose:
  assumes one: "keyLoopSpec symbolMap [c] (m, nar, dg, cx, s) (m1, nar1, dg1, cx1, s1)"
    and more: "keyLoopSpec symbolMap cs (m1, nar1, dg1, cx1, s1) (m2, nar2, dg2, cx2, s2)"
    and bound: "\<forall>(n, r) \<in> set symbolMap. r < nextEntry s"
  shows "keyLoopSpec symbolMap (c # cs) (m, nar, dg, cx, s) (m2, nar2, dg2, cx2, s2)"
proof -
  let ?P = "\<lambda>checks a. \<exists>name \<in> providedNames (map fst checks). mapGet symbolMap name = Some a"
  from one have m1: "m1 = (m \<and> isAccepted (fst c))"
    and d1: "dg1 = map_option (appendChildren (snd c)) dg"
    and n1: "nextEntry s \<le> nextEntry s1" and c1: "classDetails s1 = classDetails s"
    and h1: "\<forall>a < nextEntry s. entryHeap s1 a =
        (entryHeap s a)\<lparr> isProvided := isProvided (entryHeap s a) \<or> ?P [c] a \<rparr>"
    and k1: "fst ` set nar1 = fst ` set nar \<union>
        {name \<in> providedNames [fst c].
           \<exists>ref. mapGet symbolMap name = Some ref \<and> \<not> isRequired (entryHeap s ref)}"
    and e1: "\<forall>(name, ref) \<in> set nar1. (name, ref) \<in> set nar \<or>
        (nextEntry s \<le> ref \<and> ref < nextEntry s1 \<and> isProvided (entryHeap s1 ref) \<and>
         \<not> isRequired (entryHeap s1 ref))"
    and x1: "(cx1 = None) = (cx = None)"
    by (simp_all add: keyLoopSpec_def)
  from more have m2: "m2 = (m1 \<and> list_all isAccepted (map fst cs))"
    and d2: "dg2 = map_option (appendChildren (concat (map snd cs))) dg1"
    and n2: "nextEntry s1 \<le> nextEntry s2" and c2: "classDetails s2 = classDetails s1"
    and h2: "\<forall>a < nextEntry s1. entryHeap s2 a =
        (entryHeap s1 a)\<lparr> isProvided := isProvided (entryHeap s1 a) \<or> ?P cs a \<rparr>"
    and k2: "fst ` set nar2 = fst ` set nar1 \<union>
        {name \<in> providedNames (map fst cs).
           \<exists>ref. mapGet symbolMap name = Some ref \<and> \<not> isRequired (entryHeap s1 ref)}"
    and e2: "\<forall>(name, ref) \<in> set nar2. (name, ref) \<in> set nar1 \<or>
        (nextEntry s1 \<le> ref \<and> ref < nextEntry s2 \<and> isProvided (entryHeap s2 ref) \<and>
         \<not> isRequired (entryHeap s2 ref))"
    and x2: "(cx2 = None) = (cx1 = None)"
    by (simp_all add: keyLoopSpec_def)
  have pn: "providedNames (map fst (c # cs)) = providedNames [fst c] \<union> providedNames (map fst cs)"
    using providedNames_Cons[of "fst c" "map fst cs"] by simp
  have g1: "m2 = (m \<and> list_all isAccepted (map fst (c # cs)))"
    using m1 m2 by auto
  have g2: "dg2 = map_option (appendChildren (concat (map snd (c # cs)))) dg"
    using d1 d2 by (cases dg) (simp_all add: appendChildren_append)
  have g3: "nextEntry s \<le> nextEntry s2" using n1 n2 by simp
  have g4: "classDetails s2 = classDetails s" using c1 c2 by simp
  have g5: "\<forall>a < nextEntry s. entryHeap s2 a =
        (entryHeap s a)\<lparr> isProvided := isProvided (entryHeap s a) \<or> ?P (c # cs) a \<rparr>"
  proof (intro allI impI)
    fix a assume a: "a < nextEntry s"
    with n1 have "a < nextEntry s1" by simp
    with h2 have "entryHeap s2 a =
        (entryHeap s1 a)\<lparr> isProvided := isProvided (entryHeap s1 a) \<or> ?P cs a \<rparr>" by simp
    also from a h1 have "entryHeap s1 a =
        (entryHeap s a)\<lparr> isProvided := isProvided (entryHeap s a) \<or> ?P [c] a \<rparr>" by simp
    finally have "entryHeap s2 a =
        (entryHeap s a)\<lparr> isProvided := (isProvided (entryHeap s a) \<or> ?P [c] a) \<or> ?P cs a \<rparr>"
      by simp
    moreover have "?P (c # cs) a = (?P [c] a \<or> ?P cs a)"
      unfolding pn by auto
    ultimately show "entryHeap s2 a =
        (entryHeap s a)\<lparr> isProvided := isProvided (entryHeap s a) \<or> ?P (c # cs) a \<rparr>"
      by (simp add: disj_assoc)
  qed
  have req: "isRequired (entryHeap s1 ref) = isRequired (entryHeap s ref)"
    if "mapGet symbolMap name = Some ref" for name ref
  proof -
    from that have "(name, ref) \<in> set symbolMap" by (rule mapGet_mem)
    with bound have "ref < nextEntry s" by auto
    with h1 show ?thesis by simp
  qed
  have g6: "fst ` set nar2 = fst ` set nar \<union>
        {name \<in> providedNames (map fst (c # cs)).
           \<exists>ref. mapGet symbolMap name = Some ref \<and> \<not> isRequired (entryHeap s ref)}"
    unfolding k2 k1 pn using req by auto
  have g7: "\<forall>(name, ref) \<in> set nar2. (name, ref) \<in> set nar \<or>
        (nextEntry s \<le> ref \<and> ref < nextEntry s2 \<and> isProvided (entryHeap s2 ref) \<and>
         \<not> isRequired (entryHeap s2 ref))"
  proof -
    have "(name, ref) \<in> set nar \<or>
        (nextEntry s \<le> ref \<and> ref < nextEntry s2 \<and> isProvided (entryHeap s2 ref) \<and>
         \<not> isRequired (entryHeap s2 ref))" if mem: "(name, ref) \<in> set nar2" for name ref
    proof (cases "(name, ref) \<in> set nar1")
      case False
      with e2 mem have "nextEntry s1 \<le> ref \<and> ref < nextEntry s2 \<and>
          isProvided (entryHeap s2 ref) \<and> \<not> isRequired (entryHeap s2 ref)" by auto
      with n1 show ?thesis by simp
    next
      case True
      show ?thesis
      proof (cases "(name, ref) \<in> set nar")
        case True
        then show ?thesis by simp
      next
        case False
        with e1 \<open>(name, ref) \<in> set nar1\<close> have f: "nextEntry s \<le> ref" "ref < nextEntry s1"
          "isProvided (entryHeap s1 ref)" "\<not> isRequired (entryHeap s1 ref)" by auto
        from f(2) h2 have "entryHeap s2 ref =
            (entryHeap s1 ref)\<lparr> isProvided := isProvided (entryHeap s1 ref) \<or> ?P cs ref \<rparr>"
          by simp
        with f have "isProvided (entryHeap s2 ref)" "\<not> isRequired (entryHeap s2 ref)"
          by simp_all
        with f n2 show ?thesis by simp
      qed
    qed
    then show ?thesis by auto
  qed
  have g8: "(cx2 = None) = (cx = None)" using x1 x2 by simp
  show ?thesis
    unfolding keyLoopSpec_def prod.case
    by (intro conjI g1 g2 g3 g4 g5 g6 g7 g8)
qed

lemma keyChecks_cong:
  assumes "classDetails s1 = classDetails s"
    and "\<forall>(n, r) \<in> set symbolMap. valueType (entryHeap s1 r) = valueType (entryHeap s r)"
  shows "keyChecks env classType s1 symbolMap hasDiag cx kvs =
     keyChecks env classType s symbolMap hasDiag cx kvs"
proof (induction kvs arbitrary: cx)
  case Nil
  show ?case by simp
next
  case (Cons kv rest cx)
  obtain k v where kv: "kv = (k, v)" by (cases kv)
  have lit: "keyLiteral s1 (resultType k) = keyLiteral s (resultType k)"
    by (cases "resultType k") (simp_all add: keyLiteral_def isBuiltIn_def assms(1))
  have vt: "valueType (entryHeap s1 ref) = valueType (entryHeap s ref)"
    if "mapGet symbolMap name = Some ref" for name ref
    using mapGet_mem[OF that] assms(2) by auto
  show ?case
    unfolding kv keyChecks.simps lit
    by (auto simp: Cons.IH vt split: option.splits prod.splits split del: if_split)
qed

lemma hasDiag_arg: "map_option (\<lambda>d. emptyAddendum) dg = (if dg \<noteq> None then Some emptyAddendum else None)"
  by (cases dg) simp_all

lemma keyStore_next:
  "nextEntry (keyStore s ref v) =
     (if isRequired (entryHeap s ref) then nextEntry s else Suc (nextEntry s))"
  by (simp add: keyStore_def Let_def allocEntry_def)

lemma keyStore_new:
  assumes "\<not> isRequired (entryHeap s ref)" and "ref < nextEntry s"
  shows "isProvided (entryHeap (keyStore s ref v) (nextEntry s)) \<and>
     \<not> isRequired (entryHeap (keyStore s ref v) (nextEntry s))"
  using assms by (simp add: keyStore_def Let_def allocEntry_def)

lemma assignTypedDictKey_spec:
  assumes step: "assignTypedDictKey env classType symbolMap (m, nar, dg, cx, s) (k, v) =
      (m1, nar1, dg1, cx1, s1)"
    and bound: "\<forall>(n, r) \<in> set symbolMap. r < nextEntry s"
  shows "\<exists>c. keyLoopSpec symbolMap [c] (m, nar, dg, cx, s) (m1, nar1, dg1, cx1, s1) \<and>
     (\<forall>rest. keyChecks env classType s symbolMap (dg \<noteq> None) cx ((k, v) # rest) =
        c # keyChecks env classType s symbolMap (dg \<noteq> None) cx1 rest)"
proof (cases "keyLiteral s (resultType k)")
  case None
  from step have r: "m1 = False" "nar1 = nar" "dg1 = dg" "cx1 = cx" "s1 = s"
    by (simp_all add: key_nonliteral[OF None])
  have "keyLoopSpec symbolMap [(NonLiteralKey, [])] (m, nar, dg, cx, s) (m1, nar1, dg1, cx1, s1)"
    unfolding r keyLoopSpec_def prod.case
    by (auto simp: isAccepted_def providedNames_single option.map_ident
        map_option.identity id_def[symmetric] cong: map_option_cong)
  moreover have "\<forall>rest. keyChecks env classType s symbolMap (dg \<noteq> None) cx ((k, v) # rest) =
        (NonLiteralKey, []) # keyChecks env classType s symbolMap (dg \<noteq> None) cx1 rest"
    by (simp add: None r)
  ultimately show ?thesis by blast
next
  case (Some name)
  note lit = Some
  show ?thesis
  proof (cases "mapGet symbolMap name")
    case None
    let ?u = "unknownKeyAddendum env classType name (resultNodeW k)"
    from step
    have r: "m1 = False" "nar1 = nar" "dg1 = map_option (addAddendum ?u) dg" "cx1 = cx" "s1 = s"
      by (simp_all add: key_unknown[OF lit None])
    have "keyLoopSpec symbolMap [(UnknownKey name, [?u])] (m, nar, dg, cx, s)
        (m1, nar1, dg1, cx1, s1)"
      unfolding r keyLoopSpec_def prod.case
      by (cases dg) (auto simp: isAccepted_def providedNames_single addAddendum_appendChildren)
    moreover have "\<forall>rest. keyChecks env classType s symbolMap (dg \<noteq> None) cx ((k, v) # rest) =
        (UnknownKey name, [?u]) # keyChecks env classType s symbolMap (dg \<noteq> None) cx1 rest"
      by (simp add: lit None r)
    ultimately show ?thesis by blast
  next
    case (Some ref)
    obtain ok inner cxn where c: "callAssignType env (valueType (entryHeap s ref)) (resultType v)
           (map_option (\<lambda>d. emptyAddendum) dg) cx {RetainLiteralsForTypeVar} 0 = (ok, inner, cxn)"
      by (cases "callAssignType env (valueType (entryHeap s ref)) (resultType v)
           (map_option (\<lambda>d. emptyAddendum) dg) cx {RetainLiteralsForTypeVar} 0")
    let ?va = "valueAddendum env name k v ok inner"
    let ?o = "if ok then Accepted name else WrongValue name"
    from step
    have r: "m1 = (if ok then m else False)"
      "nar1 = (if isRequired (entryHeap s ref) then nar else mapSet nar name (nextEntry s))"
      "dg1 = map_option (addAddendum ?va) dg" "cx1 = cxn" "s1 = keyStore s ref v"
      by (simp_all add: key_known[OF lit Some c])
    from mapGet_mem[OF Some] bound have lt: "ref < nextEntry s" by auto
    note fr = keyStore_frame[of s ref v]
    have pn: "providedNames [?o] = {name}" by (simp add: providedNames_single)
    have g1: "m1 = (m \<and> list_all isAccepted (map fst [(?o, [?va])]))"
      by (simp add: r isAccepted_def)
    have g2: "dg1 = map_option (appendChildren (concat (map snd [(?o, [?va])]))) dg"
      by (cases dg) (simp_all add: r addAddendum_appendChildren)
    have g3: "nextEntry s \<le> nextEntry s1" using fr by (simp add: r)
    have g4: "classDetails s1 = classDetails s" using fr by (simp add: r)
    have g5: "\<forall>a < nextEntry s. entryHeap s1 a =
        (entryHeap s a)\<lparr> isProvided := isProvided (entryHeap s a) \<or>
           (\<exists>n \<in> providedNames (map fst [(?o, [?va])]). mapGet symbolMap n = Some a) \<rparr>"
    proof (intro allI impI)
      fix a assume a: "a < nextEntry s"
      have "(\<exists>n \<in> providedNames (map fst [(?o, [?va])]). mapGet symbolMap n = Some a) = (a = ref)"
        using Some pn by auto
      moreover from a fr have "entryHeap s1 a =
          (if a = ref then (entryHeap s a)\<lparr> isProvided := True \<rparr> else entryHeap s a)"
        by (simp add: r)
      ultimately show "entryHeap s1 a =
        (entryHeap s a)\<lparr> isProvided := isProvided (entryHeap s a) \<or>
           (\<exists>n \<in> providedNames (map fst [(?o, [?va])]). mapGet symbolMap n = Some a) \<rparr>"
        by simp
    qed
    have g6: "fst ` set nar1 = fst ` set nar \<union>
        {n \<in> providedNames (map fst [(?o, [?va])]).
           \<exists>r. mapGet symbolMap n = Some r \<and> \<not> isRequired (entryHeap s r)}"
    proof -
      have "{n \<in> providedNames (map fst [(?o, [?va])]).
           \<exists>r. mapGet symbolMap n = Some r \<and> \<not> isRequired (entryHeap s r)} =
          (if isRequired (entryHeap s ref) then {} else {name})"
        using Some pn by auto
      then show ?thesis by (simp add: r keys_mapSet)
    qed
    have g7: "\<forall>(n, a) \<in> set nar1. (n, a) \<in> set nar \<or>
        (nextEntry s \<le> a \<and> a < nextEntry s1 \<and> isProvided (entryHeap s1 a) \<and>
         \<not> isRequired (entryHeap s1 a))"
    proof (cases "isRequired (entryHeap s ref)")
      case True
      then show ?thesis by (auto simp: r)
    next
      case False
      from keyStore_new[OF False lt, of v] keyStore_next[of s ref v] False
      have new: "nextEntry s < nextEntry s1" "isProvided (entryHeap s1 (nextEntry s))"
        "\<not> isRequired (entryHeap s1 (nextEntry s))" by (simp_all add: r)
      have "set nar1 \<subseteq> insert (name, nextEntry s) (set nar)"
        using set_mapSet[of nar name "nextEntry s"] False by (simp add: r)
      with new show ?thesis by auto
    qed
    have g8: "(cx1 = None) = (cx = None)"
      using c by (auto simp: r callAssignType_def split: prod.splits option.splits)
    have "keyLoopSpec symbolMap [(?o, [?va])] (m, nar, dg, cx, s) (m1, nar1, dg1, cx1, s1)"
      unfolding keyLoopSpec_def prod.case
      by (intro conjI g1 g2 g3 g4 g5 g6 g7 g8)
    moreover have "\<forall>rest. keyChecks env classType s symbolMap (dg \<noteq> None) cx ((k, v) # rest) =
        (?o, [?va]) # keyChecks env classType s symbolMap (dg \<noteq> None) cx1 rest"
      using c by (simp add: lit Some r hasDiag_arg)
    ultimately show ?thesis by blast
  qed
qed

lemma assignTypedDictKeys_spec:
  assumes "\<forall>(n, r) \<in> set symbolMap. r < nextEntry s"
  shows "keyLoopSpec symbolMap (keyChecks env classType s symbolMap (dg \<noteq> None) cx kvs)
     (m, nar, dg, cx, s)
     (foldl (assignTypedDictKey env classType symbolMap) (m, nar, dg, cx, s) kvs)"
  using assms
proof (induction kvs arbitrary: m nar dg cx s)
  case Nil
  show ?case by (simp add: keyLoopSpec_Nil)
next
  case (Cons kv rest m nar dg cx s)
  obtain k v where kv: "kv = (k, v)" by (cases kv)
  obtain m1 nar1 dg1 cx1 s1 where
    step: "assignTypedDictKey env classType symbolMap (m, nar, dg, cx, s) (k, v) =
      (m1, nar1, dg1, cx1, s1)"
    by (cases "assignTypedDictKey env classType symbolMap (m, nar, dg, cx, s) (k, v)") auto
  from assignTypedDictKey_spec[OF step Cons.prems] obtain c where
    one: "keyLoopSpec symbolMap [c] (m, nar, dg, cx, s) (m1, nar1, dg1, cx1, s1)"
    and ch: "keyChecks env classType s symbolMap (dg \<noteq> None) cx ((k, v) # rest) =
        c # keyChecks env classType s symbolMap (dg \<noteq> None) cx1 rest"
    by blast
  from one have n1: "nextEntry s \<le> nextEntry s1" and c1: "classDetails s1 = classDetails s"
    and d1: "dg1 = map_option (appendChildren (snd c)) dg"
    and h1: "\<forall>a < nextEntry s. entryHeap s1 a =
        (entryHeap s a)\<lparr> isProvided := isProvided (entryHeap s a) \<or>
           (\<exists>name \<in> providedNames (map fst [c]). mapGet symbolMap name = Some a) \<rparr>"
    by (simp_all add: keyLoopSpec_def)
  from Cons.prems n1 have b1: "\<forall>(n, r) \<in> set symbolMap. r < nextEntry s1" by auto
  have vt: "\<forall>(n, r) \<in> set symbolMap. valueType (entryHeap s1 r) = valueType (entryHeap s r)"
    using Cons.prems h1 by auto
  have hd: "(dg1 \<noteq> None) = (dg \<noteq> None)" using d1 by (cases dg) simp_all
  obtain m2 nar2 dg2 cx2 s2 where
    fin: "foldl (assignTypedDictKey env classType symbolMap) (m1, nar1, dg1, cx1, s1) rest =
      (m2, nar2, dg2, cx2, s2)"
    by (cases "foldl (assignTypedDictKey env classType symbolMap) (m1, nar1, dg1, cx1, s1) rest")
       auto
  have kc: "keyChecks env classType s1 symbolMap (dg1 \<noteq> None) cx1 rest =
      keyChecks env classType s symbolMap (dg \<noteq> None) cx1 rest"
    by (simp only: keyChecks_cong[OF c1 vt] hd)
  from Cons.IH[OF b1, of dg1 cx1 m1 nar1] fin
  have "keyLoopSpec symbolMap (keyChecks env classType s1 symbolMap (dg1 \<noteq> None) cx1 rest)
     (m1, nar1, dg1, cx1, s1) (m2, nar2, dg2, cx2, s2)" by simp
  then have more: "keyLoopSpec symbolMap (keyChecks env classType s symbolMap (dg \<noteq> None) cx1 rest)
     (m1, nar1, dg1, cx1, s1) (m2, nar2, dg2, cx2, s2)"
    unfolding kc .
  from keyLoopSpec_compose[OF one more Cons.prems] ch step fin show ?case
    by (simp add: kv)
qed

lemma checkRequiredKeys_fold:
  "foldl (checkRequiredKey env classType st) (m, dg) sm =
     (m \<and> (\<forall>(n, r) \<in> set sm. \<not> (isRequired (entryHeap st r) \<and> \<not> isProvided (entryHeap st r))),
      map_option (appendMessages
         (map (\<lambda>(n, r). TypedDictFieldRequired n (printType env (ClassType classType)))
            (filter (\<lambda>(n, r). isRequired (entryHeap st r) \<and> \<not> isProvided (entryHeap st r)) sm)))
        dg)"
proof (induction sm arbitrary: m dg)
  case Nil
  show ?case by (cases dg) (simp_all add: appendMessages_def)
next
  case (Cons kv rest m dg)
  obtain n r where kv: "kv = (n, r)" by (cases kv)
  show ?case
  proof (cases "isRequired (entryHeap st r) \<and> \<not> isProvided (entryHeap st r)")
    case True
    then have "checkRequiredKey env classType st (m, dg) kv =
        (False, map_option (addMessage
           (TypedDictFieldRequired n (printType env (ClassType classType)))) dg)"
      by (simp add: checkRequiredKey_def kv)
    with True show ?thesis
      by (cases dg) (simp_all add: Cons.IH kv appendMessages_def addMessage_def)
  next
    case False
    then have "checkRequiredKey env classType st (m, dg) kv = (m, dg)"
      by (auto simp: checkRequiredKey_def kv)
    with False show ?thesis by (auto simp: Cons.IH kv)
  qed
qed

lemma specialize_fold_refs:
  assumes "foldl (specializeEntry env classType ctx) (acc, s) cached = (entries, s')"
    and "distinct (map fst acc @ map fst cached)"
  shows "map snd entries = map snd acc @ [nextEntry s ..< nextEntry s + length cached]"
  using assms
proof (induction cached arbitrary: acc s)
  case Nil
  then show ?case by simp
next
  case (Cons kv rest acc s)
  obtain k v where kv: "kv = (k, v)" by (cases kv)
  from Cons.prems(2) kv have knew: "k \<notin> fst ` set acc" by auto
  obtain acc1 s1 where step: "specializeEntry env classType ctx (acc, s) kv = (acc1, s1)"
    by (cases "specializeEntry env classType ctx (acc, s) kv")
  then have a1: "acc1 = acc @ [(k, nextEntry s)]" and n1: "nextEntry s1 = Suc (nextEntry s)"
    by (auto simp: specializeEntry_def kv Let_def allocEntry_def update_new_key[OF knew])
  from Cons.prems(1) step
  have f: "foldl (specializeEntry env classType ctx) (acc1, s1) rest = (entries, s')" by simp
  from Cons.prems(2) kv have d1: "distinct (map fst acc1 @ map fst rest)" by (auto simp: a1)
  have "[nextEntry s ..< nextEntry s + length (kv # rest)] =
      nextEntry s # [Suc (nextEntry s) ..< Suc (nextEntry s) + length rest]"
    by (simp add: upt_conv_Cons del: upt_Suc)
  with Cons.IH[OF f d1] show ?case
    by (simp add: a1 n1 del: upt_Suc)
qed

lemma members_fresh:
  assumes g: "getTypedDictMembersForClass env st classType False = Inr (symbolMap, st1)"
    and inv: "cacheInv st"
  shows "distinct (map fst symbolMap)" and "distinct (map snd symbolMap)"
    and "\<forall>(n, r) \<in> set symbolMap. r < nextEntry st1 \<and> \<not> isProvided (entryHeap st1 r)"
proof -
  from members_kept[OF g inv] obtain cached st0 where
    inv1: "cacheInv st1"
    and e: "ensureTypedDictEntries env st classType = Inr (cached, st0)"
    and c: "typedDictEntries (classDetails st1 (details classType)) = Some cached"
    and fresh: "\<forall>(name, ref) \<in> set symbolMap. nextEntry st0 \<le> ref \<and> ref < nextEntry st1"
    and copies: "\<not> False \<or> typedDictNarrowedEntries classType = None \<longrightarrow>
           map fst symbolMap = map fst cached \<and>
           (\<forall>(name, ref0) \<in> set cached. \<exists>ref. mapGet symbolMap name = Some ref \<and>
              entryHeap st1 ref = specializedCopy env classType (entryHeap st1 ref0))"
    by (elim conjE exE) (rule that; assumption)
  from cacheInv_distinct[OF inv1 c] have dc: "distinct (map fst cached)" .
  from copies have keys: "map fst symbolMap = map fst cached"
    and cp: "\<forall>(name, ref0) \<in> set cached. \<exists>ref. mapGet symbolMap name = Some ref \<and>
              entryHeap st1 ref = specializedCopy env classType (entryHeap st1 ref0)"
    by simp_all
  from keys dc show dk: "distinct (map fst symbolMap)" by simp
  have f: "foldl (specializeEntry env classType
       (buildTypeVarContextFromSpecializedClass env classType)) ([], st0) cached =
      (symbolMap, st1)"
    using g e by (simp add: getTypedDictMembersForClass_def Let_def)
  from dc have "distinct (map fst [] @ map fst cached)" by simp
  from specialize_fold_refs[OF f this]
  show "distinct (map snd symbolMap)" by simp
  show "\<forall>(n, r) \<in> set symbolMap. r < nextEntry st1 \<and> \<not> isProvided (entryHeap st1 r)"
  proof clarify
    fix n r assume m: "(n, r) \<in> set symbolMap"
    with fresh have lt: "r < nextEntry st1" by auto
    from m have "n \<in> set (map fst symbolMap)" by force
    with keys obtain r0 where m0: "(n, r0) \<in> set cached" by auto
    with cp obtain r' where g': "mapGet symbolMap n = Some r'"
      and h: "entryHeap st1 r' = specializedCopy env classType (entryHeap st1 r0)" by fast
    from dk m have "mapGet symbolMap n = Some r" by (simp add: mapGet_def)
    with g' have "r' = r" by simp
    moreover from cacheInvD(2)[OF inv1 c m0] have "\<not> isProvided (entryHeap st1 r0)" .
    ultimately have "\<not> isProvided (entryHeap st1 r)"
      using h by (simp add: specializedCopy_def Let_def)
    with lt show "r < nextEntry st1 \<and> \<not> isProvided (entryHeap st1 r)" by simp
  qed
qed

lemma snd_inj:
  assumes "distinct (map snd xs)" and "(a, r) \<in> set xs" and "(b, r) \<in> set xs"
  shows "a = b"
proof -
  from assms(1) have "inj_on snd (set xs)" by (simp add: distinct_map)
  from inj_onD[OF this, of "(a, r)" "(b, r)"] assms(2,3) show ?thesis by simp
qed

lemma appendMessages_Nil [simp]: "appendMessages [] d = d"
  by (cases d) (simp add: appendMessages_def)

lemma assignToTypedDict_unfold:
  assumes "instanceFlag classType" and "isTypedDictClass st classType"
    and "length keyTypes = length valueTypes"
    and "getTypedDictMembersForClass env st (genericClassOf st classType) False =
           Inr (symbolMap, st1)"
    and "foldl (assignTypedDictKey env classType symbolMap)
           (True, [], diag, initialContext env st classType, st1) (zip keyTypes valueTypes) =
         (m, nar, dg, cx, s2)"
    and "foldl (checkRequiredKey env classType s2) (True, dg) symbolMap = (m2, dg2)"
  shows "assignToTypedDict env st classType keyTypes valueTypes diag =
     (if \<not> m then Inr (None, dg, s2)
      else if \<not> m2 then Inr (None, dg2, s2)
      else (case (case cx of
                    Some ctx \<Rightarrow>
                      (case applySolvedTypeVars env (ClassType (genericClassOf st classType)) ctx of
                         ClassType c \<Rightarrow> Inr c
                       | _ \<Rightarrow> Inl InvalidCast)
                  | None \<Rightarrow> Inr classType) of
              Inl e \<Rightarrow> Inl e
            | Inr specializedClassType \<Rightarrow>
                Inr (Some (if nar = [] then specializedClassType
                           else cloneForNarrowedTypedDictEntries specializedClassType nar),
                     dg2, s2)))"
proof -
  have g: "(if typeParameters (classDetails st (details classType)) \<noteq> [] \<and>
               typeArguments classType \<noteq> None
            then cloneForSpecialization classType None False else classType) =
           genericClassOf st classType"
    by (simp add: genericClassOf_def)
  have c: "(if typeParameters (classDetails st (details classType)) \<noteq> []
            then Some (TypeVarContext (getTypeVarScopeId env classType) []) else None) =
           initialContext env st classType"
    by (simp add: initialContext_def)
  show ?thesis
    unfolding assignToTypedDict_def Let_def g c using assms by simp
qed

text \<open>
  C1, amended. Let the store be well formed, the class type an instance of a TypedDict
  class, the two lists equally long, and let fetching the entries of the class and
  specializing the class succeed. Then \<open>assignToTypedDict\<close> returns, and it returns a
  class type exactly when every key is accepted (a string literal that names a declared
  field whose declared value type accepts the value) and every required field is named by
  a key. The class type returned is the specialized class, narrowed by new entries, marked
  provided, for exactly the accepted keys that name fields which are not required. When an
  addendum is given, every unknown key and every known key adds one child addendum to it,
  in key order (\<open>keyChecks\<close>), the child of a rejected value carrying the type mismatch
  message; a key that is not a string literal adds nothing; and the messages for missing
  required fields are added to the addendum itself, only when all keys are accepted.
\<close>

theorem construction_outcome:
  assumes inv: "cacheInv st" and inst: "instanceFlag classType"
    and td: "isTypedDictClass st classType" and len: "length keyTypes = length valueTypes"
    and mem: "getTypedDictMembersForClass env st (genericClassOf st classType) False =
                Inr (symbolMap, st1)"
    and cast: "\<forall>ctx. isClass (applySolvedTypeVars env (ClassType (genericClassOf st classType)) ctx)"
  shows "\<exists>result diag' st'.
      assignToTypedDict env st classType keyTypes valueTypes diag = Inr (result, diag', st') \<and>
      (let checks = keyChecks env classType st1 symbolMap (diag \<noteq> None)
                      (initialContext env st classType) (zip keyTypes valueTypes);
           outcomes = map fst checks
       in (result \<noteq> None) =
            (list_all isAccepted outcomes \<and>
             (\<forall>(name, ref) \<in> set symbolMap.
                isRequired (entryHeap st1 ref) \<longrightarrow> Accepted name \<in> set outcomes)) \<and>
          diag' = map_option
             (\<lambda>d. appendMessages
                     (if list_all isAccepted outcomes
                      then missingRequired env classType st1 symbolMap outcomes else [])
                     (appendChildren (concat (map snd checks)) d)) diag \<and>
          (\<forall>c. result = Some c \<longrightarrow>
             (\<exists>spec nar.
                c = (if nar = [] then spec else cloneForNarrowedTypedDictEntries spec nar) \<and>
                (typeParameters (classDetails st (details classType)) = [] \<longrightarrow>
                   spec = classType) \<and>
                (typeParameters (classDetails st (details classType)) \<noteq> [] \<longrightarrow>
                   (\<exists>ctx. ClassType spec =
                      applySolvedTypeVars env (ClassType (genericClassOf st classType)) ctx)) \<and>
                fst ` set nar =
                  {name. Accepted name \<in> set outcomes \<and>
                     (\<exists>ref. mapGet symbolMap name = Some ref \<and>
                        \<not> isRequired (entryHeap st1 ref))} \<and>
                (\<forall>(name, ref) \<in> set nar.
                   isProvided (entryHeap st' ref) \<and> \<not> isRequired (entryHeap st' ref)))))"
proof -
  define checks where "checks = keyChecks env classType st1 symbolMap (diag \<noteq> None)
      (initialContext env st classType) (zip keyTypes valueTypes)"
  define outcomes where "outcomes = map fst checks"
  define matches where "matches \<longleftrightarrow> list_all isAccepted outcomes \<and>
      (\<forall>(name, ref) \<in> set symbolMap.
         isRequired (entryHeap st1 ref) \<longrightarrow> Accepted name \<in> set outcomes)"
  define expected where "expected = map_option
      (\<lambda>d. appendMessages
              (if list_all isAccepted outcomes
               then missingRequired env classType st1 symbolMap outcomes else [])
              (appendChildren (concat (map snd checks)) d)) diag"
  define narrowedNames where "narrowedNames = {name. Accepted name \<in> set outcomes \<and>
      (\<exists>ref. mapGet symbolMap name = Some ref \<and> \<not> isRequired (entryHeap st1 ref))}"
  note fresh = members_fresh[OF mem inv]
  from fresh(3) have bound: "\<forall>(n, r) \<in> set symbolMap. r < nextEntry st1" by auto
  obtain m nar dg cx s2 where
    f: "foldl (assignTypedDictKey env classType symbolMap)
          (True, [], diag, initialContext env st classType, st1) (zip keyTypes valueTypes) =
        (m, nar, dg, cx, s2)"
    by (cases "foldl (assignTypedDictKey env classType symbolMap)
          (True, [], diag, initialContext env st classType, st1) (zip keyTypes valueTypes)") auto
  obtain m2 dg2 where
    q: "foldl (checkRequiredKey env classType s2) (True, dg) symbolMap = (m2, dg2)"
    by (cases "foldl (checkRequiredKey env classType s2) (True, dg) symbolMap")
  note unf = assignToTypedDict_unfold[OF inst td len mem f q]
  from assignTypedDictKeys_spec[OF bound, of env classType diag
      "initialContext env st classType" "zip keyTypes valueTypes" True "[]"] f
  have spec: "keyLoopSpec symbolMap checks
      (True, [], diag, initialContext env st classType, st1) (m, nar, dg, cx, s2)"
    by (simp add: checks_def)
  from spec have m: "m = list_all isAccepted outcomes"
    and dg: "dg = map_option (appendChildren (concat (map snd checks))) diag"
    and heap: "\<forall>a < nextEntry st1. entryHeap s2 a =
        (entryHeap st1 a)\<lparr> isProvided := isProvided (entryHeap st1 a) \<or>
           (\<exists>name \<in> providedNames outcomes. mapGet symbolMap name = Some a) \<rparr>"
    and names: "fst ` set nar = {name \<in> providedNames outcomes.
           \<exists>ref. mapGet symbolMap name = Some ref \<and> \<not> isRequired (entryHeap st1 ref)}"
    and cx: "(cx = None) = (initialContext env st classType = None)"
    by (simp_all add: keyLoopSpec_def outcomes_def)
  from spec have new: "\<forall>(name, ref) \<in> set nar.
           isProvided (entryHeap s2 ref) \<and> \<not> isRequired (entryHeap s2 ref)"
    by (auto simp: keyLoopSpec_def)
  have provided: "providedNames outcomes = {name. Accepted name \<in> set outcomes}"
    if "list_all isAccepted outcomes"
  proof -
    have "WrongValue name \<notin> set outcomes" for name
      using that by (auto simp: list_all_iff isAccepted_def)
    then show ?thesis by (simp add: providedNames_def)
  qed
  have entry: "isRequired (entryHeap s2 r) = isRequired (entryHeap st1 r) \<and>
      isProvided (entryHeap s2 r) = (n \<in> providedNames outcomes)"
    if mem': "(n, r) \<in> set symbolMap" for n r
  proof -
    from mem' fresh(3) have lt: "r < nextEntry st1" and np: "\<not> isProvided (entryHeap st1 r)"
      by auto
    from fresh(1) mem' have get: "mapGet symbolMap n = Some r" by (simp add: mapGet_def)
    have "(\<exists>name \<in> providedNames outcomes. mapGet symbolMap name = Some r) =
        (n \<in> providedNames outcomes)"
    proof
      assume "\<exists>name \<in> providedNames outcomes. mapGet symbolMap name = Some r"
      then obtain name where p: "name \<in> providedNames outcomes"
        and g: "mapGet symbolMap name = Some r" by blast
      from snd_inj[OF fresh(2) mapGet_mem[OF g] mem'] p show "n \<in> providedNames outcomes"
        by simp
    next
      assume "n \<in> providedNames outcomes"
      with get show "\<exists>name \<in> providedNames outcomes. mapGet symbolMap name = Some r" by blast
    qed
    with heap lt np show ?thesis by simp
  qed
  have required: "m2 = (\<forall>(name, ref) \<in> set symbolMap.
        isRequired (entryHeap st1 ref) \<longrightarrow> name \<in> providedNames outcomes)"
    using q entry unfolding checkRequiredKeys_fold by auto
  have missing: "dg2 = map_option (appendMessages
      (missingRequired env classType st1 symbolMap outcomes)) dg"
    if acc: "list_all isAccepted outcomes"
  proof -
    have "filter (\<lambda>(n, r). isRequired (entryHeap s2 r) \<and> \<not> isProvided (entryHeap s2 r)) symbolMap =
        filter (\<lambda>(n, r). isRequired (entryHeap st1 r) \<and> Accepted n \<notin> set outcomes) symbolMap"
      by (rule filter_cong) (auto simp: entry provided[OF acc])
    with q show ?thesis
      unfolding checkRequiredKeys_fold missingRequired_def by simp
  qed
  have compose: "map_option (appendMessages ms) (map_option (appendChildren cs) diag) =
      map_option (\<lambda>d. appendMessages ms (appendChildren cs d)) diag" for ms cs
    by (cases diag) simp_all
  show ?thesis
  proof (cases "list_all isAccepted outcomes")
    case False
    with m unf have r: "assignToTypedDict env st classType keyTypes valueTypes diag =
        Inr (None, dg, s2)" by simp
    from False have e: "expected = dg"
      unfolding expected_def dg by (cases diag) simp_all
    from False have nm: "\<not> matches" by (simp add: matches_def)
    show ?thesis
      apply (rule exI[of _ None], rule exI[of _ dg], rule exI[of _ s2])
      apply (fold checks_def)
      apply (simp only: Let_def)
      apply (fold outcomes_def)
      apply (fold matches_def expected_def)
      apply (simp add: r e nm)
      done
  next
    case True
    note acc = True
    from missing[OF acc] have e: "expected = dg2"
      unfolding expected_def dg using acc by (simp add: compose)
    from required provided[OF acc] have m2: "m2 = (\<forall>(name, ref) \<in> set symbolMap.
        isRequired (entryHeap st1 ref) \<longrightarrow> Accepted name \<in> set outcomes)" by simp
    show ?thesis
    proof (cases m2)
      case False
      with m acc unf have r: "assignToTypedDict env st classType keyTypes valueTypes diag =
          Inr (None, dg2, s2)" by simp
      from False m2 have nm: "\<not> matches" by (simp add: matches_def)
      show ?thesis
        apply (rule exI[of _ None], rule exI[of _ dg2], rule exI[of _ s2])
        apply (fold checks_def)
        apply (simp only: Let_def)
        apply (fold outcomes_def)
        apply (fold matches_def expected_def)
        apply (simp add: r e nm)
        done
    next
      case True
      from True m2 acc have ma: "matches" by (simp add: matches_def)
      obtain spec where sp: "(case cx of
            Some ctx \<Rightarrow>
              (case applySolvedTypeVars env (ClassType (genericClassOf st classType)) ctx of
                 ClassType c \<Rightarrow> Inr c
               | _ \<Rightarrow> Inl InvalidCast)
          | None \<Rightarrow> Inr classType) = Inr spec"
        and s1: "typeParameters (classDetails st (details classType)) = [] \<longrightarrow> spec = classType"
        and s2: "typeParameters (classDetails st (details classType)) \<noteq> [] \<longrightarrow>
           (\<exists>ctx. ClassType spec =
              applySolvedTypeVars env (ClassType (genericClassOf st classType)) ctx)"
      proof (cases cx)
        case None
        with cx have "typeParameters (classDetails st (details classType)) = []"
          by (simp add: initialContext_def split: if_splits)
        with None that[of classType] show ?thesis by simp
      next
        case (Some ctx)
        with cx have g: "typeParameters (classDetails st (details classType)) \<noteq> []"
          by (auto simp: initialContext_def split: if_splits)
        from cast have "isClass (applySolvedTypeVars env
            (ClassType (genericClassOf st classType)) ctx)" by simp
        then obtain c where
          c: "applySolvedTypeVars env (ClassType (genericClassOf st classType)) ctx = ClassType c"
          by (cases "applySolvedTypeVars env (ClassType (genericClassOf st classType)) ctx")
             (simp_all add: isClass_def)
        from c have "\<exists>ctx. ClassType c =
            applySolvedTypeVars env (ClassType (genericClassOf st classType)) ctx"
          by (intro exI[of _ ctx]) simp
        with that[of c] Some g c show ?thesis by simp
      qed
      let ?c = "if nar = [] then spec else cloneForNarrowedTypedDictEntries spec nar"
      from True m acc unf sp
      have r: "assignToTypedDict env st classType keyTypes valueTypes diag =
          Inr (Some ?c, dg2, s2)" by simp
      from names provided[OF acc] have nn: "fst ` set nar = narrowedNames"
        by (auto simp: narrowedNames_def)
      have ex: "\<exists>spec' nar'.
          ?c = (if nar' = [] then spec' else cloneForNarrowedTypedDictEntries spec' nar') \<and>
          (typeParameters (classDetails st (details classType)) = [] \<longrightarrow> spec' = classType) \<and>
          (typeParameters (classDetails st (details classType)) \<noteq> [] \<longrightarrow>
             (\<exists>ctx. ClassType spec' =
                applySolvedTypeVars env (ClassType (genericClassOf st classType)) ctx)) \<and>
          fst ` set nar' = narrowedNames \<and>
          (\<forall>(name, ref) \<in> set nar'.
             isProvided (entryHeap s2 ref) \<and> \<not> isRequired (entryHeap s2 ref))"
        by (rule exI[of _ spec], rule exI[of _ nar]) (intro conjI refl s1 s2 nn new)
      show ?thesis
        apply (rule exI[of _ "Some ?c"], rule exI[of _ dg2], rule exI[of _ s2])
        apply (fold checks_def)
        apply (simp only: Let_def)
        apply (fold outcomes_def)
        apply (fold matches_def expected_def narrowedNames_def)
        apply (intro conjI)
           apply (rule r)
          apply (simp add: ma)
         apply (simp add: e)
        apply (intro allI impI)
        apply (drule sym)
        apply (simp only: option.inject)
        apply (rule ex[simplified])
        done
    qed
  qed
qed

lemma point_generic: "genericClassOf resolvedStore pointInstance = pointInstance"
  "initialContext sampleEnv resolvedStore pointInstance = None"
  by (simp_all add: genericClassOf_def initialContext_def resolvedStore_def sample_defs)

lemmas checks_defs =
  keyLiteral_def callAssignType_def sampleResult_def strLiteral_def cloneWithLiteral_def
  isBuiltIn_def isLiteralType_def mapGet_def sampleAssignable_def pointCopies_def

lemma point_checks_xy:
  "map fst (keyChecks sampleEnv pointInstance pointCopies [(''x'', 3), (''y'', 4), (''label'', 5)]
     hasDiag None
     (zip [sampleResult (strLiteral ''x'') 40, sampleResult (strLiteral ''y'') 41]
          [sampleResult intInstance 50, sampleResult intInstance 51])) =
   [Accepted ''x'', Accepted ''y'']"
  by (cases hasDiag) (simp_all add: checks_defs sample_defs)

lemma point_checks_x:
  "map fst (keyChecks sampleEnv pointInstance pointCopies [(''x'', 3), (''y'', 4), (''label'', 5)]
     hasDiag None
     (zip [sampleResult (strLiteral ''x'') 40] [sampleResult intInstance 50])) =
   [Accepted ''x'']"
  by (cases hasDiag) (simp_all add: checks_defs sample_defs)

lemma point_required:
  "isRequired (entryHeap pointCopies 3)" "isRequired (entryHeap pointCopies 4)"
  "\<not> isRequired (entryHeap pointCopies 5)"
  by (simp_all add: pointCopies_def storeWith_def sampleEntry_def)

lemma point_narrowed_xy: "{name. Accepted name \<in> set [Accepted ''x'', Accepted ''y''] \<and>
      (\<exists>ref. mapGet [(''x'', 3), (''y'', 4), (''label'', 5)] name = Some ref \<and>
         \<not> isRequired (entryHeap pointCopies ref))} = {}"
  by (auto simp: mapGet_def point_required)

lemma point_required_xy: "(\<forall>(name, ref) \<in> set [(''x'', 3), (''y'', 4), (''label'', 5)].
      isRequired (entryHeap pointCopies ref) \<longrightarrow>
      Accepted name \<in> set [Accepted ''x'', Accepted ''y'']) = True"
  by (simp add: point_required)

lemma point_required_x: "(\<forall>(name, ref) \<in> set [(''x'', 3), (''y'', 4), (''label'', 5)].
      isRequired (entryHeap pointCopies ref) \<longrightarrow>
      Accepted name \<in> set [Accepted ''x'']) = False"
  by (simp add: point_required)

lemma point_missing_x: "missingRequired sampleEnv pointInstance pointCopies
      [(''x'', 3), (''y'', 4), (''label'', 5)] [Accepted ''x''] =
      [TypedDictFieldRequired ''y'' ''Point'']"
  by (simp add: missingRequired_def point_required samplePrintType_def sampleEnv_def
        pointInstance_def classOf_def)

lemma messages_appended:
  "messages (appendMessages ms (appendChildren cs d)) = messages d @ ms"
  by (simp add: appendMessages_def appendChildren_def)

text \<open>
  The theorem on the example of the specification: \<open>Point\<close> has the required fields
  \<open>x\<close> and \<open>y\<close> and the field \<open>label\<close>, which is not required. The keys \<open>x\<close> and
  \<open>y\<close> with values of type \<open>int\<close> give \<open>Point\<close> itself, narrowing nothing; the key
  \<open>x\<close> alone gives no class type, and the message that \<open>y\<close> is required is added to
  the addendum.
\<close>

theorem construction_outcome_witness:
  "(\<exists>diag' st'.
      assignToTypedDict sampleEnv resolvedStore pointInstance
        [sampleResult (strLiteral ''x'') 40, sampleResult (strLiteral ''y'') 41]
        [sampleResult intInstance 50, sampleResult intInstance 51] None =
      Inr (Some pointInstance, diag', st') \<and> diag' = None)
   \<and> (\<exists>d' st'.
      assignToTypedDict sampleEnv resolvedStore pointInstance
        [sampleResult (strLiteral ''x'') 40] [sampleResult intInstance 50] (Some emptyAddendum) =
      Inr (None, Some d', st') \<and>
      messages d' = [TypedDictFieldRequired ''y'' ''Point''])"
proof -
  have inst: "instanceFlag pointInstance" by (simp add: sample_defs)
  have td: "isTypedDictClass resolvedStore pointInstance"
    by (simp add: isTypedDictClass_def resolvedStore_def sample_defs)
  have mem: "getTypedDictMembersForClass sampleEnv resolvedStore
      (genericClassOf resolvedStore pointInstance) False =
      Inr ([(''x'', 3), (''y'', 4), (''label'', 5)], pointCopies)"
    by (simp only: point_generic point_members)
  have cast: "\<forall>ctx. isClass (applySolvedTypeVars sampleEnv
      (ClassType (genericClassOf resolvedStore pointInstance)) ctx)"
    by (simp add: isClass_def sampleEnv_def)
  have np: "typeParameters (classDetails resolvedStore (details pointInstance)) = []"
    by (simp add: resolvedStore_def sample_defs)
  have len2: "length [sampleResult (strLiteral ''x'') 40, sampleResult (strLiteral ''y'') 41] =
      length [sampleResult intInstance 50, sampleResult intInstance 51]" by simp
  note t = construction_outcome[OF resolved_cacheInv inst td len2 mem cast, of None,
      unfolded Let_def point_generic point_checks_xy point_narrowed_xy point_required_xy]
  from t obtain result diag' st' where
    r: "assignToTypedDict sampleEnv resolvedStore pointInstance
        [sampleResult (strLiteral ''x'') 40, sampleResult (strLiteral ''y'') 41]
        [sampleResult intInstance 50, sampleResult intInstance 51] None =
      Inr (result, diag', st')"
    and some: "(result \<noteq> None) = (list_all isAccepted [Accepted ''x'', Accepted ''y''] \<and> True)"
    and dg: "diag' = map_option
             (\<lambda>d. appendMessages
                     (if list_all isAccepted [Accepted ''x'', Accepted ''y'']
                      then missingRequired sampleEnv pointInstance pointCopies
                             [(''x'', 3), (''y'', 4), (''label'', 5)]
                             [Accepted ''x'', Accepted ''y''] else [])
                     (appendChildren (concat (map snd
                        (keyChecks sampleEnv pointInstance pointCopies
                           [(''x'', 3), (''y'', 4), (''label'', 5)]
                           ((None :: DiagnosticAddendum option) \<noteq> None) None
                           (zip [sampleResult (strLiteral ''x'') 40,
                                 sampleResult (strLiteral ''y'') 41]
                                [sampleResult intInstance 50, sampleResult intInstance 51]))))
                       d)) None"
    and shape: "\<forall>c. result = Some c \<longrightarrow>
       (\<exists>spec nar. c = (if nar = [] then spec
                        else cloneForNarrowedTypedDictEntries spec nar) \<and>
          (typeParameters (classDetails resolvedStore (details pointInstance)) = [] \<longrightarrow>
             spec = pointInstance) \<and>
          (typeParameters (classDetails resolvedStore (details pointInstance)) \<noteq> [] \<longrightarrow>
             (\<exists>ctx. ClassType spec =
                applySolvedTypeVars sampleEnv (ClassType pointInstance) ctx)) \<and>
          fst ` set nar = {} \<and>
          (\<forall>(name, ref) \<in> set nar.
             isProvided (entryHeap st' ref) \<and> \<not> isRequired (entryHeap st' ref)))"
    by (elim exE conjE) (rule that; assumption)
  from some obtain c where c: "result = Some c" by (auto simp: isAccepted_def)
  with shape np have "c = pointInstance" by auto
  moreover from dg have "diag' = None" by simp
  ultimately have a: "\<exists>diag' st'.
      assignToTypedDict sampleEnv resolvedStore pointInstance
        [sampleResult (strLiteral ''x'') 40, sampleResult (strLiteral ''y'') 41]
        [sampleResult intInstance 50, sampleResult intInstance 51] None =
      Inr (Some pointInstance, diag', st') \<and> diag' = None"
    using r c by simp
  have len1: "length [sampleResult (strLiteral ''x'') 40] = length [sampleResult intInstance 50]"
    by simp
  let ?cs = "concat (map snd
      (keyChecks sampleEnv pointInstance pointCopies [(''x'', 3), (''y'', 4), (''label'', 5)]
         (Some emptyAddendum \<noteq> None) None
         (zip [sampleResult (strLiteral ''x'') 40] [sampleResult intInstance 50])))"
  note t1 = construction_outcome[OF resolved_cacheInv inst td len1 mem cast,
      of "Some emptyAddendum", unfolded Let_def point_generic point_checks_x point_missing_x point_required_x]
  from t1 obtain result1 diag1 st1 where
    r1: "assignToTypedDict sampleEnv resolvedStore pointInstance
        [sampleResult (strLiteral ''x'') 40] [sampleResult intInstance 50] (Some emptyAddendum) =
      Inr (result1, diag1, st1)"
    and none: "(result1 \<noteq> None) = (list_all isAccepted [Accepted ''x''] \<and> False)"
    and dg1: "diag1 = map_option
             (\<lambda>d. appendMessages
                     (if list_all isAccepted [Accepted ''x'']
                      then [TypedDictFieldRequired ''y'' ''Point''] else [])
                     (appendChildren ?cs d)) (Some emptyAddendum)"
    by (elim exE conjE) (rule that; assumption)
  from none have n: "result1 = None" by simp
  from dg1 have d: "diag1 = Some (appendMessages [TypedDictFieldRequired ''y'' ''Point'']
      (appendChildren ?cs emptyAddendum))"
    by (simp add: isAccepted_def del: keyChecks.simps zip.simps)
  have "messages (appendMessages [TypedDictFieldRequired ''y'' ''Point'']
      (appendChildren ?cs emptyAddendum)) = [TypedDictFieldRequired ''y'' ''Point'']"
    by (simp only: messages_appended) (simp add: emptyAddendum_def)
  with r1 n d have b: "\<exists>d' st'.
      assignToTypedDict sampleEnv resolvedStore pointInstance
        [sampleResult (strLiteral ''x'') 40] [sampleResult intInstance 50] (Some emptyAddendum) =
      Inr (None, Some d', st') \<and>
      messages d' = [TypedDictFieldRequired ''y'' ''Point'']"
    by blast
  from a b show ?thesis by simp
qed

text \<open>
  C1 as stated fails: the key of type \<open>str\<close> that is not a literal makes the
  construction fail, and contributes no diagnostic addendum; the addendum given is returned
  as it was.
\<close>

theorem nonliteral_key_counterexample:
  "assignToTypedDict sampleEnv resolvedStore pointInstance
     [sampleResult strInstance 40] [sampleResult intInstance 50] (Some emptyAddendum) =
   Inr (None, Some emptyAddendum, pointCopies)"
proof -
  have td: "isTypedDictClass resolvedStore pointInstance" "instanceFlag pointInstance"
    "typeParameters (classDetails resolvedStore (details pointInstance)) = []"
    by (simp_all add: isTypedDictClass_def resolvedStore_def sample_defs)
  show ?thesis
    unfolding assignToTypedDict_def
    apply (simp add: td point_members Let_def del: foldl.simps zip.simps)
    apply (simp add: construction_defs sample_defs)
    done
qed

end
